(* ===== verification/Prelude.thy ===== *)
theory Prelude
  imports Main "HOL-Library.Word" "HOL-Library.Char_ord" "HOL-Library.List_Lexorder"
    "HOL-Library.Sublist"
begin

text \<open>
  The vocabulary the component theories share.  Rust's \<open>u64\<close>, \<open>u32\<close>, \<open>u8\<close> and \<open>i64\<close> are words of
  their width; the methods \<open>checked_add\<close>, \<open>saturating_add\<close>, \<open>saturating_sub\<close> and \<open>saturating_mul\<close>
  are defined on words, with one law each that reads them in the natural numbers.  A \<open>Result\<close> is a
  sum with the error on the left.  Strings are the bytes of Rust's UTF-8 strings, so \<open>len()\<close> is
  \<^const>\<open>length\<close>; the character tests of the standard library that the program uses are defined on
  those bytes.  Paths follow the Unix rules of \<open>std::path\<close>: \<open>components\<close>, \<open>starts_with\<close>, \<open>push\<close>.
\<close>

named_theorems arith_unat \<open>readings of machine arithmetic in the natural numbers\<close>
named_theorems path_simps \<open>rewriting of path operations\<close>

type_synonym u64 = "64 word"
type_synonym u32 = "32 word"
type_synonym u8 = "8 word"

section \<open>Results\<close>

type_synonym ('a, 'e) result = "'e + 'a"

fun bind_result :: "('a, 'e) result \<Rightarrow> ('a \<Rightarrow> ('b, 'e) result) \<Rightarrow> ('b, 'e) result" where
  "bind_result (Inl e) f = Inl e"
| "bind_result (Inr a) f = f a"

lemma bind_result_Inr_iff [simp]:
  "bind_result r f = Inr b \<longleftrightarrow> (\<exists>a. r = Inr a \<and> f a = Inr b)"
  by (cases r) auto

lemma bind_result_Inl_iff:
  "bind_result r f = Inl e \<longleftrightarrow> r = Inl e \<or> (\<exists>a. r = Inr a \<and> f a = Inl e)"
  by (cases r) auto

text \<open>\<open>is_ok\<close> of the standard library.\<close>

fun is_ok :: "('a, 'e) result \<Rightarrow> bool" where
  "is_ok (Inl e) = False"
| "is_ok (Inr a) = True"

lemma is_ok_iff [simp]: "is_ok r \<longleftrightarrow> (\<exists>a. r = Inr a)"
  by (cases r) auto

section \<open>Checked and saturating arithmetic\<close>

definition checked_add :: "'a::len word \<Rightarrow> 'a word \<Rightarrow> 'a word option" where
  "checked_add a b = (if unat a + unat b < 2 ^ LENGTH('a) then Some (a + b) else None)"

definition saturating_add :: "'a::len word \<Rightarrow> 'a word \<Rightarrow> 'a word" where
  "saturating_add a b = (if unat a + unat b < 2 ^ LENGTH('a) then a + b else - 1)"

definition saturating_sub :: "'a::len word \<Rightarrow> 'a word \<Rightarrow> 'a word" where
  "saturating_sub a b = (if b \<le> a then a - b else 0)"

definition saturating_mul :: "'a::len word \<Rightarrow> 'a word \<Rightarrow> 'a word" where
  "saturating_mul a b = (if unat a * unat b < 2 ^ LENGTH('a) then a * b else - 1)"

lemma min_add_min:
  "min (min (x + y) m + z) m = min (x + y + z) m" "min (x + min (y + z) m) m = min (x + y + z) m"
  for x y z m :: nat
  by (simp_all add: min_def)

lemma unat_max_word [arith_unat]: "unat (- 1 :: 'a::len word) = 2 ^ LENGTH('a) - 1"
  by (simp add: unsigned_minus_1_eq_mask mask_eq_exp_minus_1)

lemma unat_lt_power: "unat (a :: 'a::len word) < 2 ^ LENGTH('a)"
  by (rule unsigned_less)

lemma unat_le_max [simp]: "unat (a :: 'a::len word) \<le> 2 ^ LENGTH('a) - Suc 0"
  using unat_lt_power [of a] by linarith

lemma checked_add_Some_iff [arith_unat]:
  "checked_add a b = Some c \<longleftrightarrow> unat c = unat a + unat (b :: 'a::len word)"
proof
  assume "checked_add a b = Some c"
  then show "unat c = unat a + unat b"
    by (auto simp: checked_add_def unat_word_ariths split: if_splits)
next
  assume c: "unat c = unat a + unat b"
  then have lt: "unat a + unat b < 2 ^ LENGTH('a)"
    using unat_lt_power [of c] by simp
  then have "unat (a + b) = unat a + unat b"
    by (simp add: unat_word_ariths)
  with c have "a + b = c"
    by (simp add: word_unat_eq_iff)
  with lt show "checked_add a b = Some c"
    by (simp add: checked_add_def)
qed

lemma unat_saturating_add [arith_unat]:
  "unat (saturating_add a b) = min (unat a + unat b) (2 ^ LENGTH('a) - 1)"
  for a b :: "'a::len word"
  by (auto simp: saturating_add_def unat_word_ariths arith_unat)

lemma unat_saturating_sub [arith_unat]:
  "unat (saturating_sub a b) = unat a - unat b"
  for a b :: "'a::len word"
  by (simp add: saturating_sub_def unat_sub word_le_nat_alt)

lemma unat_saturating_mul [arith_unat]:
  "unat (saturating_mul a b) = min (unat a * unat b) (2 ^ LENGTH('a) - 1)"
  for a b :: "'a::len word"
  by (auto simp: saturating_mul_def unat_word_ariths arith_unat)

lemma saturating_add_ge: "a \<le> saturating_add a b"
  by (simp add: word_le_nat_alt arith_unat)

lemma saturating_add_mono: "a \<le> c \<Longrightarrow> b \<le> d \<Longrightarrow> saturating_add a b \<le> saturating_add c d"
  by (simp add: word_le_nat_alt arith_unat min.coboundedI1 add_mono)

lemma saturating_add_0 [simp]: "saturating_add a 0 = a" "saturating_add 0 a = a"
  by (simp_all add: word_unat_eq_iff arith_unat min_absorb1)

lemma saturating_add_commute: "saturating_add a b = saturating_add b a"
  by (simp add: saturating_add_def add.commute)

lemma saturating_add_assoc:
  "saturating_add (saturating_add a b) c = saturating_add a (saturating_add b c)"
  by (simp add: word_unat_eq_iff arith_unat min_add_min)

text \<open>A sum accumulated with \<open>saturating_add\<close> is the exact sum, cut at the top of the type.\<close>

lemma unat_fold_saturating_add:
  "unat (fold (\<lambda>x acc. saturating_add acc x) xs (a :: 'a::len word))
    = min (unat a + (\<Sum>x\<leftarrow>xs. unat x)) (2 ^ LENGTH('a) - 1)"
proof (induction xs arbitrary: a)
  case Nil
  then show ?case
    by (simp add: min_absorb1)
next
  case (Cons x xs)
  then show ?case
    by (simp add: arith_unat min_add_min add.assoc)
qed

section \<open>Strings\<close>

definition byte_of :: "char \<Rightarrow> nat" where
  "byte_of c = of_char c"

text \<open>\<open>s.trim().is_empty()\<close>: every character of \<open>s\<close> has the Unicode property White\_Space.  The
  clauses are the UTF-8 encodings of those code points.\<close>

fun all_whitespace :: "nat list \<Rightarrow> bool" where
  "all_whitespace [] = True"
| "all_whitespace (b # bs) =
    (if b = 0x20 \<or> (0x09 \<le> b \<and> b \<le> 0x0D) then all_whitespace bs
     else case bs of
       [] \<Rightarrow> False
     | b2 # bs2 \<Rightarrow>
         if b = 0xC2 then (b2 = 0x85 \<or> b2 = 0xA0) \<and> all_whitespace bs2
         else case bs2 of
           [] \<Rightarrow> False
         | b3 # bs3 \<Rightarrow>
             ((b = 0xE1 \<and> b2 = 0x9A \<and> b3 = 0x80)
              \<or> (b = 0xE2 \<and> b2 = 0x80 \<and>
                  ((0x80 \<le> b3 \<and> b3 \<le> 0x8A) \<or> b3 = 0xA8 \<or> b3 = 0xA9 \<or> b3 = 0xAF))
              \<or> (b = 0xE2 \<and> b2 = 0x81 \<and> b3 = 0x9F)
              \<or> (b = 0xE3 \<and> b2 = 0x80 \<and> b3 = 0x80))
             \<and> all_whitespace bs3)"

definition is_blank :: "string \<Rightarrow> bool" where
  "is_blank s = all_whitespace (map byte_of s)"

text \<open>\<open>chars().any(is_control)\<close>: the code points below 0x20, 0x7F and 0x80 to 0x9F, the last
  encoded as 0xC2 followed by the code point.\<close>

fun has_control_bytes :: "nat list \<Rightarrow> bool" where
  "has_control_bytes [] = False"
| "has_control_bytes (b # bs) =
    (b < 0x20 \<or> b = 0x7F
     \<or> (b = 0xC2 \<and> (case bs of [] \<Rightarrow> False | b2 # _ \<Rightarrow> 0x80 \<le> b2 \<and> b2 \<le> 0x9F))
     \<or> has_control_bytes bs)"

definition has_control :: "string \<Rightarrow> bool" where
  "has_control s = has_control_bytes (map byte_of s)"

definition ascii_lower :: "char \<Rightarrow> char" where
  "ascii_lower c =
    (let b = byte_of c in if 0x41 \<le> b \<and> b \<le> 0x5A then char_of (b + 0x20) else c)"

definition eq_ignore_ascii_case :: "string \<Rightarrow> string \<Rightarrow> bool" where
  "eq_ignore_ascii_case s t = (map ascii_lower s = map ascii_lower t)"

fun contains_str :: "string \<Rightarrow> string \<Rightarrow> bool" where
  "contains_str [] pat = (pat = [])"
| "contains_str (c # s) pat = (prefix pat (c # s) \<or> contains_str s pat)"

definition ends_with :: "string \<Rightarrow> string \<Rightarrow> bool" where
  "ends_with s pat = prefix (rev pat) (rev s)"

lemma ends_with_suffix: "ends_with s pat \<longleftrightarrow> suffix pat s"
  by (simp add: ends_with_def suffix_to_prefix)

lemma contains_str_sublist: "contains_str s pat \<longleftrightarrow> sublist pat s"
  by (induction s) (simp_all add: sublist_Cons_right)

lemma is_blank_Nil [simp]: "is_blank []"
  by (simp add: is_blank_def)

text \<open>A byte below 0x20 never continues a multi-byte sequence, so joining two strings by a slash
  introduces no control character.\<close>

lemma has_control_bytes_slash:
  "has_control_bytes (xs @ 0x2F # ys) \<longleftrightarrow> has_control_bytes xs \<or> has_control_bytes ys"
proof (induction xs)
  case (Cons x xs)
  then show ?case
    by (cases xs) auto
qed auto

lemma has_control_slash [path_simps]:
  "has_control (s @ CHR ''/'' # t) \<longleftrightarrow> has_control s \<or> has_control t"
proof -
  have "byte_of CHR ''/'' = 0x2F"
    by (simp add: byte_of_def)
  then show ?thesis
    by (simp add: has_control_def has_control_bytes_slash)
qed

section \<open>Sorting and removing duplicates\<close>

text \<open>\<open>v.sort(); v.dedup();\<close>\<close>

definition sort_dedup :: "'a::linorder list \<Rightarrow> 'a list" where
  "sort_dedup xs = remdups_adj (sort xs)"

lemma distinct_remdups_adj_sorted: "sorted xs \<Longrightarrow> distinct (remdups_adj xs)"
  by (induction xs rule: remdups_adj.induct) auto

lemma set_sort_dedup [simp]: "set (sort_dedup xs) = set xs"
  by (simp add: sort_dedup_def)

lemma sorted_sort_dedup [simp]: "sorted (sort_dedup xs)"
  by (simp add: sort_dedup_def sorted_remdups_adj)

lemma distinct_sort_dedup [simp]: "distinct (sort_dedup xs)"
  by (simp add: sort_dedup_def distinct_remdups_adj_sorted)

lemma length_sort_dedup: "length (sort_dedup xs) \<le> length xs"
  using remdups_adj_length [of "sort xs"] by (simp add: sort_dedup_def)

section \<open>Optional values\<close>

definition unwrap_or :: "'a option \<Rightarrow> 'a \<Rightarrow> 'a" where
  "unwrap_or x d = (case x of None \<Rightarrow> d | Some y \<Rightarrow> y)"

lemma unwrap_or_simps [simp]: "unwrap_or None d = d" "unwrap_or (Some x) d = x"
  by (simp_all add: unwrap_or_def)

end
