(* ===== verification/Paths.thy ===== *)
theory Paths
  imports Prelude
begin

text \<open>
  The parts of \<open>std::path\<close> that the cleaner relies on.  A path is the byte string it is made from;
  \<open>components\<close> splits it the way the Unix implementation of the standard library does: repeated
  slashes, trailing slashes and interior dots are skipped, a leading dot is a \<open>CurDir\<close>, a leading
  slash a \<open>RootDir\<close>.  \<open>Path::starts_with\<close> compares components, not bytes.
\<close>

datatype component = RootDir | CurDir | ParentDir | Normal string

fun split_slash :: "string \<Rightarrow> string list" where
  "split_slash [] = [[]]"
| "split_slash (c # s) =
    (if c = CHR ''/'' then [] # split_slash s
     else case split_slash s of [] \<Rightarrow> [[c]] | seg # segs \<Rightarrow> (c # seg) # segs)"

fun join_slash :: "string list \<Rightarrow> string" where
  "join_slash [] = []"
| "join_slash [s] = s"
| "join_slash (s # t # ss) = s @ CHR ''/'' # join_slash (t # ss)"

definition is_absolute :: "string \<Rightarrow> bool" where
  "is_absolute p = (case p of [] \<Rightarrow> False | c # _ \<Rightarrow> c = CHR ''/'')"

definition component_of :: "string \<Rightarrow> component" where
  "component_of seg = (if seg = ''..'' then ParentDir else Normal seg)"

definition components :: "string \<Rightarrow> component list" where
  "components p =
    (let segs = split_slash p;
         body = map component_of (filter (\<lambda>s. s \<noteq> [] \<and> s \<noteq> ''.'') segs)
     in if is_absolute p then RootDir # body
        else if hd segs = ''.'' then CurDir # body else body)"

definition path_starts_with :: "string \<Rightarrow> string \<Rightarrow> bool" where
  "path_starts_with p base = prefix (components base) (components p)"

text \<open>\<open>PathBuf::push\<close>.\<close>

definition path_push :: "string \<Rightarrow> string \<Rightarrow> string" where
  "path_push p q =
    (if is_absolute q then q
     else if p = [] \<or> last p = CHR ''/'' then p @ q
     else p @ CHR ''/'' # q)"

section \<open>Splitting and joining\<close>

definition plain_seg :: "string \<Rightarrow> bool" where
  "plain_seg s = (CHR ''/'' \<notin> set s)"

lemma split_slash_neq_Nil [simp]: "split_slash s \<noteq> []"
  by (induction s) (auto split: list.splits)

lemma split_slash_plain: "CHR ''/'' \<notin> set s \<Longrightarrow> split_slash s = [s]"
  by (induction s) auto

lemma split_slash_append:
  "CHR ''/'' \<notin> set s \<Longrightarrow> split_slash (s @ CHR ''/'' # t) = s # split_slash t"
  by (induction s) auto

lemma split_slash_plain_segs: "seg \<in> set (split_slash s) \<Longrightarrow> CHR ''/'' \<notin> set seg"
  by (induction s arbitrary: seg) (auto split: list.splits if_splits)

lemma join_split_slash [simp]: "join_slash (split_slash s) = s"
proof (induction s)
  case (Cons c s)
  obtain seg segs where "split_slash s = seg # segs"
    by (cases "split_slash s") auto
  with Cons show ?case
    by (cases segs) auto
qed simp

lemma split_join_slash:
  "ss \<noteq> [] \<Longrightarrow> \<forall>s\<in>set ss. CHR ''/'' \<notin> set s \<Longrightarrow> split_slash (join_slash ss) = ss"
  by (induction ss rule: join_slash.induct) (auto simp: split_slash_plain split_slash_append)

lemma split_slash_slash: "split_slash (s @ CHR ''/'' # t) = split_slash s @ split_slash t"
proof (induction s)
  case (Cons c s)
  then show ?case
    by (cases "split_slash s") auto
qed simp

lemma length_join_slash:
  "ss \<noteq> [] \<Longrightarrow> length (join_slash ss) = (\<Sum>s\<leftarrow>ss. length s) + (length ss - 1)"
  by (induction ss rule: join_slash.induct) auto

lemma join_slash_snoc:
  "ss \<noteq> [] \<Longrightarrow> join_slash (ss @ [s]) = join_slash ss @ CHR ''/'' # s"
  by (induction ss rule: join_slash.induct) auto

section \<open>Components\<close>

lemma is_absolute_Nil [simp]: "\<not> is_absolute []"
  by (simp add: is_absolute_def)

lemma components_Nil [simp]: "components [] = []"
  by (simp add: components_def)

text \<open>A directory entry name, as the kernel returns it: not empty, no slash, neither dot entry.\<close>

definition entry_name :: "string \<Rightarrow> bool" where
  "entry_name s = (s \<noteq> [] \<and> s \<noteq> ''.'' \<and> s \<noteq> ''..'' \<and> CHR ''/'' \<notin> set s)"

lemma is_absolute_join_slash:
  "\<forall>s\<in>set ss. entry_name s \<Longrightarrow> \<not> is_absolute (join_slash ss)"
  by (induction ss rule: join_slash.induct)
    (auto simp: is_absolute_def entry_name_def neq_Nil_conv split: list.splits)

lemma components_join_slash [path_simps]:
  assumes "\<forall>s\<in>set ss. entry_name s"
  shows "components (join_slash ss) = map Normal ss"
proof (cases "ss = []")
  case True
  then show ?thesis
    by (simp add: components_def is_absolute_def)
next
  case False
  have split: "split_slash (join_slash ss) = ss"
    using assms False by (intro split_join_slash) (auto simp: entry_name_def)
  have "filter (\<lambda>s. s \<noteq> [] \<and> s \<noteq> ''.'') ss = ss"
    using assms by (auto simp: filter_id_conv entry_name_def)
  moreover have "map component_of ss = map Normal ss"
    using assms by (auto simp: component_of_def entry_name_def)
  moreover have "hd ss \<noteq> ''.''"
    using assms False by (cases ss) (auto simp: entry_name_def)
  ultimately show ?thesis
    using is_absolute_join_slash [OF assms] split
    unfolding components_def Let_def by simp
qed

lemma path_starts_with_refl [simp]: "path_starts_with p p"
  by (simp add: path_starts_with_def)

lemma path_starts_with_trans:
  "path_starts_with p q \<Longrightarrow> path_starts_with q r \<Longrightarrow> path_starts_with p r"
  unfolding path_starts_with_def using prefix_order.trans by blast

end
