(* ===== verification/Domain_Types.thy ===== *)
theory Domain_Types
  imports Paths
begin

text \<open>
  The value types of \<open>domain/types.rs\<close>: identifiers, generation counters, byte counts, timestamps,
  file identities and relative paths, with the constructors that validate them.  Constructors that
  panic return \<open>None\<close>.  The lemmas give the exact acceptance condition of each constructor and show
  that a relative path never leaves the directory it is resolved against, and that joining keeps it so.
\<close>

section \<open>Identifiers\<close>

datatype JobId = JobId u64
datatype AttemptId = AttemptId u64
datatype OperationId = OperationId (op_num: u64)
datatype PlanId = PlanId u64
datatype WorkerId = WorkerId u32
datatype CandidateId = CandidateId u64
datatype GrantId = GrantId u64
datatype TargetId = TargetId (target_str: string)
datatype ResourceId = ResourceId (resource_str: string)

definition TargetId_new :: "string \<Rightarrow> TargetId option" where
  "TargetId_new s =
    (if is_blank s \<or> length s > 512 \<or> CHR 0x00 \<in> set s \<or> CHR 0x0A \<in> set s then None
     else Some (TargetId s))"

definition TargetId_try_new :: "string \<Rightarrow> TargetId option" where
  "TargetId_try_new s =
    (if is_blank s \<or> length s > 512 \<or> CHR 0x00 \<in> set s then None else Some (TargetId s))"

text \<open>The derived orders of the identifiers compare the wrapped value.\<close>

instantiation OperationId :: linorder
begin

definition less_eq_OperationId :: "OperationId \<Rightarrow> OperationId \<Rightarrow> bool" where
  "less_eq_OperationId a b = (op_num a \<le> op_num b)"

definition less_OperationId :: "OperationId \<Rightarrow> OperationId \<Rightarrow> bool" where
  "less_OperationId a b = (op_num a < op_num b)"

instance
  by standard (auto simp: less_eq_OperationId_def less_OperationId_def OperationId.expand)

end

instantiation TargetId :: linorder
begin

definition less_eq_TargetId :: "TargetId \<Rightarrow> TargetId \<Rightarrow> bool" where
  "less_eq_TargetId a b = (target_str a \<le> target_str b)"

definition less_TargetId :: "TargetId \<Rightarrow> TargetId \<Rightarrow> bool" where
  "less_TargetId a b = (target_str a < target_str b)"

instance
  by standard (auto simp: less_eq_TargetId_def less_TargetId_def TargetId.expand)

end

text \<open>Decimal printing of an unsigned integer, as \<open>format!\<close> does it.\<close>

definition digit_char :: "nat \<Rightarrow> char" where
  "digit_char d = char_of (0x30 + d)"

fun decimal :: "nat \<Rightarrow> string" where
  "decimal n = (if n < 10 then [digit_char n] else decimal (n div 10) @ [digit_char (n mod 10)])"

declare decimal.simps [simp del]

definition ResourceId_for_job :: "JobId \<Rightarrow> ResourceId" where
  "ResourceId_for_job j = (case j of JobId n \<Rightarrow> ResourceId (''job:'' @ decimal (unat n)))"

definition ResourceId_for_target :: "TargetId \<Rightarrow> ResourceId" where
  "ResourceId_for_target t = ResourceId (''target:'' @ target_str t)"

section \<open>Generations\<close>

datatype ConfigGeneration = ConfigGeneration u64
datatype CatalogGeneration = CatalogGeneration u64

abbreviation ConfigGeneration_INITIAL :: ConfigGeneration where
  "ConfigGeneration_INITIAL \<equiv> ConfigGeneration 1"

abbreviation CatalogGeneration_INITIAL :: CatalogGeneration where
  "CatalogGeneration_INITIAL \<equiv> CatalogGeneration 1"

definition CatalogGeneration_next :: "CatalogGeneration \<Rightarrow> (CatalogGeneration, string) result" where
  "CatalogGeneration_next g = (case g of CatalogGeneration n \<Rightarrow>
    (case checked_add n 1 of
       Some m \<Rightarrow> Inr (CatalogGeneration m)
     | None \<Rightarrow> Inl ''generation overflow''))"

definition ConfigGeneration_next :: "ConfigGeneration \<Rightarrow> (ConfigGeneration, string) result" where
  "ConfigGeneration_next g = (case g of ConfigGeneration n \<Rightarrow>
    (case checked_add n 1 of
       Some m \<Rightarrow> Inr (ConfigGeneration m)
     | None \<Rightarrow> Inl ''generation overflow''))"

definition ConfigGeneration_next_saturating :: "ConfigGeneration \<Rightarrow> ConfigGeneration" where
  "ConfigGeneration_next_saturating g =
    (case g of ConfigGeneration n \<Rightarrow> ConfigGeneration (saturating_add n 1))"

definition CatalogGeneration_next_saturating :: "CatalogGeneration \<Rightarrow> CatalogGeneration" where
  "CatalogGeneration_next_saturating g =
    (case g of CatalogGeneration n \<Rightarrow> CatalogGeneration (saturating_add n 1))"

section \<open>Byte counts and timestamps\<close>

type_synonym ByteCount = u64
type_synonym UnixTimestamp = u64

definition ByteCount_MAX_SAFE :: ByteCount where
  "ByteCount_MAX_SAFE = 10 * 1024 * 1024 * 1024"

definition ByteCount_new :: "u64 \<Rightarrow> ByteCount option" where
  "ByteCount_new bytes = (if bytes \<le> ByteCount_MAX_SAFE then Some bytes else None)"

definition ByteCount_try_new :: "u64 \<Rightarrow> (ByteCount, string) result" where
  "ByteCount_try_new bytes =
    (if bytes > ByteCount_MAX_SAFE then Inl ''ByteCount exceeds 10GiB hard bound'' else Inr bytes)"

definition ByteCount_checked_add :: "ByteCount \<Rightarrow> ByteCount \<Rightarrow> ByteCount option" where
  "ByteCount_checked_add a b = checked_add a b"

definition age_secs :: "UnixTimestamp \<Rightarrow> UnixTimestamp \<Rightarrow> u64" where
  "age_secs t now = saturating_sub now t"

section \<open>File identities\<close>

type_synonym DeviceNumber = u64
type_synonym InodeNumber = u64

record FileIdentity =
  fid_dev :: DeviceNumber
  fid_ino :: InodeNumber

definition FileIdentity_new :: "u64 \<Rightarrow> u64 \<Rightarrow> FileIdentity" where
  "FileIdentity_new d i = \<lparr> fid_dev = d, fid_ino = i \<rparr>"

section \<open>Relative paths\<close>

datatype RelativePath = RelativePath (rp_str: string)

text \<open>The loop over \<open>path.components()\<close>: the number of normal components, or \<open>None\<close> at the first
  component that is not normal, too long, or one too many.\<close>

fun count_components :: "nat \<Rightarrow> component list \<Rightarrow> nat option" where
  "count_components n [] = Some n"
| "count_components n (Normal os # cs) =
    (if length os > 255 then None
     else if n + 1 > 255 then None
     else count_components (n + 1) cs)"
| "count_components n (_ # cs) = None"

definition RelativePath_parse :: "string \<Rightarrow> RelativePath option" where
  "RelativePath_parse s =
    (if s = [] then Some (RelativePath [])
     else if length s > 4096 then None
     else if has_control s then None
     else if is_absolute s then None
     else case count_components 0 (components s) of
       None \<Rightarrow> None
     | Some n \<Rightarrow> if n = 0 then None else Some (RelativePath s))"

definition RelativePath_join :: "RelativePath \<Rightarrow> string \<Rightarrow> RelativePath option" where
  "RelativePath_join p sub =
    (case RelativePath_parse sub of
       None \<Rightarrow> None
     | Some q \<Rightarrow> Some (RelativePath (path_push (rp_str p) (rp_str q))))"

text \<open>\<open>PartialEq\<close> on a \<open>PathBuf\<close>, and so on a relative path, compares components.\<close>

definition RelativePath_eq :: "RelativePath \<Rightarrow> RelativePath \<Rightarrow> bool" where
  "RelativePath_eq p q = (components (rp_str p) = components (rp_str q))"

section \<open>What the constructors accept\<close>

lemma TargetId_new_try_new: "TargetId_new s = Some t \<Longrightarrow> TargetId_try_new s = Some t"
  by (auto simp: TargetId_new_def TargetId_try_new_def split: if_splits)

lemma TargetId_try_new_eq:
  "TargetId_try_new s = Some t \<Longrightarrow> TargetId_new s = (if CHR 0x0A \<in> set s then None else Some t)"
  by (auto simp: TargetId_new_def TargetId_try_new_def split: if_splits)

lemma CatalogGeneration_next_greater:
  "CatalogGeneration_next (CatalogGeneration n) = Inr (CatalogGeneration m) \<Longrightarrow> n < m"
  by (auto simp: CatalogGeneration_next_def word_less_nat_alt arith_unat split: option.splits)

lemma CatalogGeneration_next_fails_iff:
  "(\<exists>e. CatalogGeneration_next (CatalogGeneration n) = Inl e) \<longleftrightarrow> n = - 1"
proof -
  have "unat n + 1 < 2 ^ 64 \<longleftrightarrow> unat n \<noteq> unat (- 1 :: u64)"
    using unat_lt_power [of n] by (auto simp: unat_max_word)
  then show ?thesis
    by (auto simp: CatalogGeneration_next_def checked_add_def word_unat_eq_iff)
qed

lemma count_components_Some_iff:
  "n \<le> 255 \<Longrightarrow> count_components n cs = Some m \<longleftrightarrow>
    m = n + length cs \<and> m \<le> 255 \<and> (\<forall>c\<in>set cs. \<exists>os. c = Normal os \<and> length os \<le> 255)"
  by (induction n cs rule: count_components.induct) auto

lemma RelativePath_parse_Some_iff:
  "RelativePath_parse s = Some p \<longleftrightarrow>
    p = RelativePath s \<and>
    (s = [] \<or>
     (length s \<le> 4096 \<and> \<not> has_control s \<and> \<not> is_absolute s \<and> components s \<noteq> [] \<and>
      length (components s) \<le> 255 \<and>
      (\<forall>c\<in>set (components s). \<exists>os. c = Normal os \<and> length os \<le> 255)))"
  by (auto simp: RelativePath_parse_def count_components_Some_iff
      split: option.splits if_splits)
    (metis count_components_Some_iff less_eq_nat.simps(1) option.distinct(1) add_0)

section \<open>Relative paths stay beneath their base\<close>

text \<open>The invariant of a relative path: no component leads upwards or to the root.\<close>

definition rel_wf :: "string \<Rightarrow> bool" where
  "rel_wf s = (\<not> is_absolute s \<and> list_all (\<lambda>c. case c of Normal _ \<Rightarrow> True | _ \<Rightarrow> False) (components s))"

lemma rel_wf_Nil [simp]: "rel_wf []"
  by (simp add: rel_wf_def is_absolute_def components_def)

lemma RelativePath_parse_wf: "RelativePath_parse s = Some p \<Longrightarrow> rel_wf (rp_str p) \<and> rp_str p = s"
  by (auto simp: RelativePath_parse_Some_iff rel_wf_def list_all_iff)

lemma is_absolute_append: "p \<noteq> [] \<Longrightarrow> is_absolute (p @ q) = is_absolute p"
  by (cases p) (auto simp: is_absolute_def)

text \<open>The components of a relative path without its leading dot.\<close>

definition rel_body :: "string \<Rightarrow> component list" where
  "rel_body p = map component_of (filter (\<lambda>s. s \<noteq> [] \<and> s \<noteq> ''.'') (split_slash p))"

lemma components_rel_body:
  "components p = (if is_absolute p then RootDir # rel_body p
     else if hd (split_slash p) = ''.'' then CurDir # rel_body p else rel_body p)"
  by (simp add: components_def rel_body_def Let_def)

lemma rel_wf_components: "rel_wf p \<Longrightarrow> components p = rel_body p \<and> hd (split_slash p) \<noteq> ''.''"
  by (auto simp: rel_wf_def components_rel_body split: if_splits)

lemma rel_body_slash: "rel_body (p @ CHR ''/'' # q) = rel_body p @ rel_body q"
  by (simp add: rel_body_def split_slash_slash)

lemma hd_split_slash: "hd (split_slash (p @ CHR ''/'' # q)) = hd (split_slash p)"
  by (simp add: split_slash_slash)

lemma components_slash:
  assumes p: "p \<noteq> []" and q: "rel_wf q"
  shows "components (p @ CHR ''/'' # q) = components p @ components q"
  using rel_wf_components [OF q] is_absolute_append [OF p, of "CHR ''/'' # q"]
  by (simp add: components_rel_body rel_body_slash hd_split_slash)

lemma components_trailing_slash: "p \<noteq> [] \<Longrightarrow> components (p @ [CHR ''/'']) = components p"
  using components_slash [of p "[]"] by (simp add: components_def is_absolute_def)

text \<open>Pushing a well-formed relative path appends its components, whatever the base.\<close>

lemma components_path_push [path_simps]:
  assumes q: "rel_wf q"
  shows "components (path_push p q) = components p @ components q"
proof -
  have nabs: "\<not> is_absolute q"
    using q by (simp add: rel_wf_def)
  show ?thesis
  proof (cases "p \<noteq> [] \<and> last p = CHR ''/''")
    case True
    then obtain r where r: "p = r @ [CHR ''/'']"
      by (metis append_butlast_last_id)
    show ?thesis
    proof (cases "r = []")
      case True
      with r show ?thesis
        using rel_wf_components [OF q] nabs
        by (simp add: path_push_def components_rel_body rel_body_def is_absolute_def)
    next
      case False
      then show ?thesis
        using r nabs components_slash [OF False q] components_trailing_slash [OF False]
        by (simp add: path_push_def)
    qed
  next
    case False
    then show ?thesis
      using nabs components_slash [OF _ q, of p]
      by (auto simp: path_push_def components_def is_absolute_def)
  qed
qed

lemma is_absolute_path_push: "\<not> is_absolute q \<Longrightarrow> p \<noteq> [] \<Longrightarrow> is_absolute (path_push p q) = is_absolute p"
  by (simp add: path_push_def is_absolute_append)

lemma path_push_starts_with: "rel_wf q \<Longrightarrow> path_starts_with (path_push p q) p"
  by (simp add: path_starts_with_def components_path_push)

lemma RelativePath_join_wf:
  assumes "rel_wf (rp_str p)" "RelativePath_join p sub = Some q"
  shows "rel_wf (rp_str q) \<and> components (rp_str q) = components (rp_str p) @ components sub"
proof -
  obtain r where r: "RelativePath_parse sub = Some r"
    and q: "q = RelativePath (path_push (rp_str p) (rp_str r))"
    using assms(2) by (auto simp: RelativePath_join_def split: option.splits)
  have sub: "rel_wf sub" "rp_str r = sub"
    using RelativePath_parse_wf [OF r] by auto
  have cs: "components (rp_str q) = components (rp_str p) @ components sub"
    using sub q by (simp add: components_path_push)
  have "\<not> is_absolute (rp_str q)"
    using sub q assms(1) is_absolute_path_push [of sub "rp_str p"]
    by (cases "rp_str p = []") (auto simp: rel_wf_def path_push_def)
  with cs show ?thesis
    using assms(1) sub by (simp add: rel_wf_def)
qed

section \<open>Resource names\<close>

lemma digit_char_inj: "d < 10 \<Longrightarrow> e < 10 \<Longrightarrow> digit_char d = digit_char e \<Longrightarrow> d = e"
proof -
  assume a: "d < 10" "e < 10" "digit_char d = digit_char e"
  then have "(of_char (char_of (0x30 + d)) :: nat) = of_char (char_of (0x30 + e))"
    by (simp add: digit_char_def)
  with a show "d = e"
    by simp
qed

lemma decimal_neq_Nil [simp]: "decimal n \<noteq> []" "[] \<noteq> decimal n"
  by (subst decimal.simps, simp)+

lemma decimal_inj: "decimal n = decimal m \<Longrightarrow> n = m"
proof (induction n arbitrary: m rule: decimal.induct)
  case (1 n)
  show ?case
  proof (cases "n < 10 \<or> m < 10")
    case True
    with "1.prems" show ?thesis
      using decimal.simps [of n] decimal.simps [of m]
      by (auto split: if_splits dest: digit_char_inj)
  next
    case False
    have "decimal (n div 10) = decimal (m div 10) \<and> digit_char (n mod 10) = digit_char (m mod 10)"
      using "1.prems" False decimal.simps [of n] decimal.simps [of m] by simp
    then have "n div 10 = m div 10" "n mod 10 = m mod 10"
      using "1.IH" [of "m div 10"] False digit_char_inj [of "n mod 10" "m mod 10"] by auto
    then show ?thesis
      by (metis mult_div_mod_eq)
  qed
qed

lemma ResourceId_for_job_inj: "ResourceId_for_job i = ResourceId_for_job j \<longleftrightarrow> i = j"
  by (cases i; cases j)
    (auto simp: ResourceId_for_job_def word_unat_eq_iff dest: decimal_inj)

lemma ResourceId_job_target: "ResourceId_for_job i \<noteq> ResourceId_for_target t"
  by (cases i) (simp add: ResourceId_for_job_def ResourceId_for_target_def)

end
