(* ===== verification/Domain_Entities.thy ===== *)
theory Domain_Entities
  imports Domain_Types
begin

text \<open>
  The records and enumerations that flow through the cleaning pipeline: targets
  (\<open>domain/target.rs\<close>), candidates (\<open>domain/candidate.rs\<close>), policy decisions (\<open>domain/decision.rs\<close>),
  plans (\<open>domain/plan.rs\<close>), grants (\<open>domain/grant.rs\<close>), operation intents (\<open>domain/intent.rs\<close>),
  results (\<open>domain/result.rs\<close>) and the error type of \<open>error.rs\<close>.  Error messages keep the fixed part
  of their text; a panic is a failure beside the errors.
\<close>

section \<open>Errors\<close>

type_synonym errno = nat

datatype CleanerError =
    Io errno
  | Json string
  | Toml string
  | TomlSer string
  | IpcError string
  | Config string
  | ConfigError string
  | SafetyViolation string
  | Storage string
  | ResourceExhausted string
  | PlanBudgetExceeded nat nat
  | PlanValidationFailed string
  | Internal string
  | DaemonAlreadyRunning u32
  | DaemonNotRunning
  | PlatformError string
  | CancelledError
  | OtherError string

datatype Failure = Err CleanerError | Panic string

section \<open>Targets\<close>

datatype TargetClass =
  AppCache | CodeCache | Tombstones | MediaCache | ShaderCache | LogArchive | TempDir | ExternalCache

datatype TargetSafetyTier = StandardCache | RequiresColdApp | ReadOnlyInspection | ProtectedSystem

record TargetDescriptor =
  td_target_id :: TargetId
  td_class :: TargetClass
  td_base_path :: string
  td_dev :: DeviceNumber
  td_ino :: InodeNumber
  td_owner_uid :: u32
  td_owner_gid :: u32
  td_package_name :: "string option"
  td_safety_tier :: TargetSafetyTier
  td_catalog_generation :: CatalogGeneration

definition is_mutation_allowed :: "TargetDescriptor \<Rightarrow> bool" where
  "is_mutation_allowed t = (case td_safety_tier t of
      StandardCache \<Rightarrow> True | RequiresColdApp \<Rightarrow> True
    | ReadOnlyInspection \<Rightarrow> False | ProtectedSystem \<Rightarrow> False)"

section \<open>Candidates and decisions\<close>

record Candidate =
  cand_id :: CandidateId
  cand_target_id :: TargetId
  cand_rel_path :: RelativePath
  cand_identity :: FileIdentity
  cand_size_bytes :: ByteCount
  cand_mtime :: UnixTimestamp
  cand_atime :: "UnixTimestamp option"
  cand_is_dir :: bool
  cand_is_symlink :: bool

definition is_regular_file :: "Candidate \<Rightarrow> bool" where
  "is_regular_file c = (\<not> cand_is_dir c \<and> \<not> cand_is_symlink c)"

record SafetyValidatedCandidate =
  svc_candidate :: Candidate
  trusted_root_dev :: DeviceNumber
  trusted_root_ino :: InodeNumber
  svc_validated_at :: UnixTimestamp

definition SafetyValidatedCandidate_new ::
  "UnixTimestamp \<Rightarrow> Candidate \<Rightarrow> DeviceNumber \<Rightarrow> InodeNumber \<Rightarrow> SafetyValidatedCandidate" where
  "SafetyValidatedCandidate_new now c d i =
    \<lparr> svc_candidate = c, trusted_root_dev = d, trusted_root_ino = i, svc_validated_at = now \<rparr>"

datatype DecisionReason =
    ExceedsRetentionAge
  | StoragePressureThreshold
  | WithinRetentionGracePeriod
  | PackageWhitelisted
  | ProtectedBytecode
  | TargetIsReadOnly
  | BudgetExceeded
  | CategoryDisabled
  | RuleMatch string

record PolicyPermit =
  pp_candidate :: SafetyValidatedCandidate
  pp_priority :: u32
  pp_reason :: DecisionReason
  pp_decided_at :: UnixTimestamp

record PolicyDeny =
  pd_candidate :: SafetyValidatedCandidate
  pd_reason :: DecisionReason
  pd_decided_at :: UnixTimestamp

record PolicySkip =
  ps_candidate :: SafetyValidatedCandidate
  ps_reason :: DecisionReason
  ps_decided_at :: UnixTimestamp

datatype PolicyDecision = Allow PolicyPermit | Deny PolicyDeny | Skip PolicySkip

definition is_allowed :: "PolicyDecision \<Rightarrow> bool" where
  "is_allowed d = (case d of Allow _ \<Rightarrow> True | _ \<Rightarrow> False)"

definition is_denied :: "PolicyDecision \<Rightarrow> bool" where
  "is_denied d = (case d of Deny _ \<Rightarrow> True | _ \<Rightarrow> False)"

section \<open>Plans\<close>

datatype OperationType =
    DeleteFile TargetId RelativePath FileIdentity ByteCount
  | DeleteDirEmpty TargetId RelativePath FileIdentity
  | PruneDirRecursive TargetId RelativePath FileIdentity
  | TrimFilesystem string
  | VacuumDatabase string

definition OperationType_target_id :: "OperationType \<Rightarrow> TargetId option" where
  "OperationType_target_id t = (case t of
      DeleteFile i _ _ _ \<Rightarrow> Some i
    | DeleteDirEmpty i _ _ \<Rightarrow> Some i
    | PruneDirRecursive i _ _ \<Rightarrow> Some i
    | _ \<Rightarrow> None)"

definition OperationType_is_dir :: "OperationType \<Rightarrow> bool" where
  "OperationType_is_dir t =
    (case t of DeleteDirEmpty _ _ _ \<Rightarrow> True | PruneDirRecursive _ _ _ \<Rightarrow> True | _ \<Rightarrow> False)"

record PlannedOperation =
  op_id :: OperationId
  op_type :: OperationType
  dependencies :: "OperationId list"
  estimated_reclaim :: ByteCount

record PlannedPlan =
  plan_id :: PlanId
  plan_job_id :: JobId
  plan_catalog_generation :: CatalogGeneration
  plan_config_generation :: ConfigGeneration
  operations :: "PlannedOperation list"
  total_estimated_reclaim :: ByteCount
  created_at :: UnixTimestamp

definition PlannedPlan_empty ::
  "UnixTimestamp \<Rightarrow> JobId \<Rightarrow> CatalogGeneration \<Rightarrow> ConfigGeneration \<Rightarrow> PlannedPlan" where
  "PlannedPlan_empty now j cat cfg =
    \<lparr> plan_id = PlanId 1, plan_job_id = j, plan_catalog_generation = cat,
      plan_config_generation = cfg, operations = [], total_estimated_reclaim = 0,
      created_at = now \<rparr>"

section \<open>Grants\<close>

datatype Capability =
    ReadTarget TargetId
  | EnumerateTarget TargetId
  | CapDeleteFile TargetId RelativePath
  | CapDeleteDirectory TargetId RelativePath
  | CapTrimMount string
  | CapVacuumDatabase string

text \<open>The derived \<open>PartialEq\<close>: paths are compared by component.\<close>

definition Capability_eq :: "Capability \<Rightarrow> Capability \<Rightarrow> bool" where
  "Capability_eq a b = (case (a, b) of
      (ReadTarget s, ReadTarget t) \<Rightarrow> s = t
    | (EnumerateTarget s, EnumerateTarget t) \<Rightarrow> s = t
    | (CapDeleteFile s p, CapDeleteFile t q) \<Rightarrow> s = t \<and> RelativePath_eq p q
    | (CapDeleteDirectory s p, CapDeleteDirectory t q) \<Rightarrow> s = t \<and> RelativePath_eq p q
    | (CapTrimMount p, CapTrimMount q) \<Rightarrow> components p = components q
    | (CapVacuumDatabase p, CapVacuumDatabase q) \<Rightarrow> components p = components q
    | _ \<Rightarrow> False)"

definition capabilities_contain :: "Capability list \<Rightarrow> Capability \<Rightarrow> bool" where
  "capabilities_contain caps c = list_ex (Capability_eq c) caps"

record CapabilityGrant =
  grant_id :: GrantId
  capabilities :: "Capability list"
  grant_catalog_generation :: CatalogGeneration
  grant_config_generation :: ConfigGeneration
  granted_at :: UnixTimestamp
  grant_expires_at :: UnixTimestamp

definition is_valid_at ::
  "CapabilityGrant \<Rightarrow> UnixTimestamp \<Rightarrow> CatalogGeneration \<Rightarrow> ConfigGeneration \<Rightarrow> bool" where
  "is_valid_at g now cat cfg =
    (grant_catalog_generation g = cat \<and> grant_config_generation g = cfg \<and> now \<le> grant_expires_at g)"

record AuthorizedPlan =
  ap_plan :: PlannedPlan
  ap_grant :: CapabilityGrant

definition is_authorized_for_execution ::
  "AuthorizedPlan \<Rightarrow> UnixTimestamp \<Rightarrow> CatalogGeneration \<Rightarrow> ConfigGeneration \<Rightarrow> bool" where
  "is_authorized_for_execution a now cat cfg =
    (if plan_config_generation (ap_plan a) \<noteq> cfg then False
     else is_valid_at (ap_grant a) now cat cfg \<and> plan_catalog_generation (ap_plan a) = cat)"

section \<open>Intents and results\<close>

datatype MutationType = MtDeleteFile | MtDeleteDirEmpty | MtPruneDirRecursive

definition MutationType_display :: "MutationType \<Rightarrow> string" where
  "MutationType_display m = (case m of
      MtDeleteFile \<Rightarrow> ''DELETE_FILE''
    | MtDeleteDirEmpty \<Rightarrow> ''DELETE_DIR_EMPTY''
    | MtPruneDirRecursive \<Rightarrow> ''PRUNE_DIR_RECURSIVE'')"

datatype IntentState = Committed | Mutating | VerifiedSuccess | VerifiedFailed | ResolvedUnknown

definition IntentState_display :: "IntentState \<Rightarrow> string" where
  "IntentState_display s = (case s of
      Committed \<Rightarrow> ''COMMITTED''
    | Mutating \<Rightarrow> ''MUTATING''
    | VerifiedSuccess \<Rightarrow> ''VERIFIED_SUCCESS''
    | VerifiedFailed \<Rightarrow> ''VERIFIED_FAILED''
    | ResolvedUnknown \<Rightarrow> ''RESOLVED_UNKNOWN'')"

record OperationIntent =
  intent_id :: "int option"
  in_job_id :: JobId
  in_attempt_id :: AttemptId
  in_op_id :: OperationId
  in_target_id :: TargetId
  in_rel_path :: RelativePath
  in_expected_identity :: FileIdentity
  in_estimated_bytes :: ByteCount
  in_mutation_type :: MutationType
  in_state :: IntentState
  in_catalog_generation :: CatalogGeneration
  in_config_generation :: ConfigGeneration
  in_committed_at :: UnixTimestamp
  in_resolved_at :: "UnixTimestamp option"

definition OperationIntent_new ::
  "UnixTimestamp \<Rightarrow> JobId \<Rightarrow> AttemptId \<Rightarrow> OperationId \<Rightarrow> TargetId \<Rightarrow> RelativePath \<Rightarrow> FileIdentity
    \<Rightarrow> ByteCount \<Rightarrow> MutationType \<Rightarrow> CatalogGeneration \<Rightarrow> ConfigGeneration \<Rightarrow> OperationIntent" where
  "OperationIntent_new now j a oi t p f b m cat cfg =
    \<lparr> intent_id = None, in_job_id = j, in_attempt_id = a, in_op_id = oi, in_target_id = t,
      in_rel_path = p, in_expected_identity = f, in_estimated_bytes = b, in_mutation_type = m,
      in_state = Committed, in_catalog_generation = cat, in_config_generation = cfg,
      in_committed_at = now, in_resolved_at = None \<rparr>"

datatype OperationStatus =
    Success
  | OpFailed string
  | VerificationFailed string
  | Skipped string
  | Preempted

definition is_success :: "OperationStatus \<Rightarrow> bool" where
  "is_success s = (s = Success)"

record OperationFinalResult =
  res_op_id :: OperationId
  res_status :: OperationStatus
  reclaimed_bytes :: ByteCount
  executed_at :: UnixTimestamp

record JobResult =
  jr_job_id :: JobId
  jr_attempt_id :: AttemptId
  total_reclaimed :: ByteCount
  total_operations :: nat
  successful_operations :: nat
  failed_operations :: nat
  skipped_operations :: nat
  duration_ms :: u64

section \<open>Equality of capabilities and the execution gate\<close>

lemma RelativePath_eq_refl [simp]: "RelativePath_eq p p"
  by (simp add: RelativePath_eq_def)

lemma Capability_eq_refl [simp]: "Capability_eq c c"
  by (cases c) (simp_all add: Capability_eq_def)

lemma Capability_eq_sym: "Capability_eq a b \<Longrightarrow> Capability_eq b a"
  by (auto simp: Capability_eq_def RelativePath_eq_def split: Capability.splits)

lemma Capability_eq_trans: "Capability_eq a b \<Longrightarrow> Capability_eq b c \<Longrightarrow> Capability_eq a c"
  by (auto simp: Capability_eq_def RelativePath_eq_def split: Capability.splits)

lemma capabilities_contain_member: "c \<in> set caps \<Longrightarrow> capabilities_contain caps c"
  by (auto simp: capabilities_contain_def list_ex_iff intro: bexI [of _ c])

lemma is_authorized_for_execution_iff:
  "is_authorized_for_execution a now cat cfg \<longleftrightarrow>
    plan_catalog_generation (ap_plan a) = cat \<and> plan_config_generation (ap_plan a) = cfg \<and>
    grant_catalog_generation (ap_grant a) = cat \<and> grant_config_generation (ap_grant a) = cfg \<and>
    now \<le> grant_expires_at (ap_grant a)"
  by (auto simp: is_authorized_for_execution_def is_valid_at_def)

lemma IntentState_display_inj: "IntentState_display s = IntentState_display t \<Longrightarrow> s = t"
  by (cases s; cases t) (simp_all add: IntentState_display_def)

lemma MutationType_display_inj: "MutationType_display s = MutationType_display t \<Longrightarrow> s = t"
  by (cases s; cases t) (simp_all add: MutationType_display_def)

end
