(* ===== verification/Job_State.thy ===== *)
theory Job_State
  imports Domain_Types
begin

text \<open>
  The job life cycle of \<open>domain/job.rs\<close>: the states, the transition table, and \<open>JobAttempt\<close> with its
  compare-and-set transition.  The lemmas show that the table is a strict order towards the terminal
  states, so an attempt makes at most twelve transitions, its version counter cannot overflow, and
  its finishing time is set exactly when it is in a terminal state.
\<close>

datatype JobState =
    Pending | Queued | Admitted | Preparing | Scanning | Planning | AwaitingAuthorization
  | Authorized | WaitingResources | Executing | Verifying | Reconciling | Completed
  | JFailed string | JAborted string | JCancelled string | JTimedOut string
  | JRecoveryRequired string | JStale string

definition is_terminal :: "JobState \<Rightarrow> bool" where
  "is_terminal s = (case s of
      Completed \<Rightarrow> True | JFailed _ \<Rightarrow> True | JAborted _ \<Rightarrow> True | JCancelled _ \<Rightarrow> True
    | JTimedOut _ \<Rightarrow> True | JRecoveryRequired _ \<Rightarrow> True | JStale _ \<Rightarrow> True | _ \<Rightarrow> False)"

definition can_transition_to :: "JobState \<Rightarrow> JobState \<Rightarrow> bool" where
  "can_transition_to s next =
    ((case s of
        Pending \<Rightarrow> (case next of Queued \<Rightarrow> True | Admitted \<Rightarrow> True | JFailed _ \<Rightarrow> True
                      | JAborted _ \<Rightarrow> True | JCancelled _ \<Rightarrow> True | _ \<Rightarrow> False)
      | Queued \<Rightarrow> (case next of Admitted \<Rightarrow> True | JFailed _ \<Rightarrow> True | JAborted _ \<Rightarrow> True | _ \<Rightarrow> False)
      | Admitted \<Rightarrow> (case next of Preparing \<Rightarrow> True | Scanning \<Rightarrow> True | JFailed _ \<Rightarrow> True
                      | JAborted _ \<Rightarrow> True | _ \<Rightarrow> False)
      | Preparing \<Rightarrow> (case next of Scanning \<Rightarrow> True | JFailed _ \<Rightarrow> True | _ \<Rightarrow> False)
      | Scanning \<Rightarrow> (case next of Planning \<Rightarrow> True | JFailed _ \<Rightarrow> True | JAborted _ \<Rightarrow> True | _ \<Rightarrow> False)
      | Planning \<Rightarrow> (case next of AwaitingAuthorization \<Rightarrow> True | Authorized \<Rightarrow> True
                      | Completed \<Rightarrow> True | JFailed _ \<Rightarrow> True | JAborted _ \<Rightarrow> True | _ \<Rightarrow> False)
      | AwaitingAuthorization \<Rightarrow> (case next of Authorized \<Rightarrow> True | JFailed _ \<Rightarrow> True | _ \<Rightarrow> False)
      | Authorized \<Rightarrow> (case next of WaitingResources \<Rightarrow> True | Executing \<Rightarrow> True | JFailed _ \<Rightarrow> True
                      | JAborted _ \<Rightarrow> True | _ \<Rightarrow> False)
      | WaitingResources \<Rightarrow> (case next of Executing \<Rightarrow> True | JFailed _ \<Rightarrow> True | _ \<Rightarrow> False)
      | Executing \<Rightarrow> (case next of Verifying \<Rightarrow> True | Reconciling \<Rightarrow> True | JFailed _ \<Rightarrow> True
                      | JAborted _ \<Rightarrow> True | _ \<Rightarrow> False)
      | Verifying \<Rightarrow> (case next of Completed \<Rightarrow> True | Reconciling \<Rightarrow> True | JFailed _ \<Rightarrow> True
                      | JAborted _ \<Rightarrow> True | JRecoveryRequired _ \<Rightarrow> True | _ \<Rightarrow> False)
      | Reconciling \<Rightarrow> (case next of Completed \<Rightarrow> True | JFailed _ \<Rightarrow> True
                      | JRecoveryRequired _ \<Rightarrow> True | _ \<Rightarrow> False)
      | _ \<Rightarrow> False)
     \<or> (case next of JCancelled _ \<Rightarrow> \<not> is_terminal s | JTimedOut _ \<Rightarrow> \<not> is_terminal s
          | JStale _ \<Rightarrow> \<not> is_terminal s | JRecoveryRequired _ \<Rightarrow> \<not> is_terminal s | _ \<Rightarrow> False))"

definition JobState_display :: "JobState \<Rightarrow> string" where
  "JobState_display s = (case s of
      Pending \<Rightarrow> ''Pending'' | Queued \<Rightarrow> ''Queued'' | Admitted \<Rightarrow> ''Admitted''
    | Preparing \<Rightarrow> ''Preparing'' | Scanning \<Rightarrow> ''Scanning'' | Planning \<Rightarrow> ''Planning''
    | AwaitingAuthorization \<Rightarrow> ''AwaitingAuthorization'' | Authorized \<Rightarrow> ''Authorized''
    | WaitingResources \<Rightarrow> ''WaitingResources'' | Executing \<Rightarrow> ''Executing''
    | Verifying \<Rightarrow> ''Verifying'' | Reconciling \<Rightarrow> ''Reconciling'' | Completed \<Rightarrow> ''Completed''
    | JFailed r \<Rightarrow> ''Failed('' @ r @ '')'' | JAborted r \<Rightarrow> ''Aborted('' @ r @ '')''
    | JCancelled r \<Rightarrow> ''Cancelled('' @ r @ '')'' | JTimedOut r \<Rightarrow> ''TimedOut('' @ r @ '')''
    | JRecoveryRequired r \<Rightarrow> ''RecoveryRequired('' @ r @ '')'' | JStale r \<Rightarrow> ''Stale('' @ r @ '')'')"

record JobAttempt =
  att_id :: AttemptId
  att_job_id :: JobId
  attempt_number :: u32
  started_at :: UnixTimestamp
  finished_at :: "UnixTimestamp option"
  att_state :: JobState
  state_version :: u64
  att_catalog_generation :: CatalogGeneration
  att_config_generation :: ConfigGeneration
  att_plan_id :: "PlanId option"

definition new_with_generations ::
  "UnixTimestamp \<Rightarrow> AttemptId \<Rightarrow> JobId \<Rightarrow> u32 \<Rightarrow> CatalogGeneration \<Rightarrow> ConfigGeneration \<Rightarrow> JobAttempt" where
  "new_with_generations now a j n cat cfg =
    \<lparr> att_id = a, att_job_id = j, attempt_number = n, started_at = now, finished_at = None,
      att_state = Pending, state_version = 1, att_catalog_generation = cat,
      att_config_generation = cfg, att_plan_id = None \<rparr>"

definition JobAttempt_new :: "UnixTimestamp \<Rightarrow> AttemptId \<Rightarrow> JobId \<Rightarrow> u32 \<Rightarrow> JobAttempt" where
  "JobAttempt_new now a j n =
    \<lparr> att_id = a, att_job_id = j, attempt_number = n, started_at = now, finished_at = None,
      att_state = Pending, state_version = 1,
      att_catalog_generation = CatalogGeneration_INITIAL,
      att_config_generation = ConfigGeneration_INITIAL, att_plan_id = None \<rparr>"

datatype TransitionError =
    CasFailed AttemptId u64 u64
  | IllegalTransition JobState JobState AttemptId

text \<open>The attempt is returned beside the result: an error leaves it as it was.\<close>

definition transition_with_cas ::
  "UnixTimestamp \<Rightarrow> JobState \<Rightarrow> u64 \<Rightarrow> JobAttempt \<Rightarrow> (unit, TransitionError) result \<times> JobAttempt" where
  "transition_with_cas now next expected_version a =
    (if state_version a \<noteq> expected_version
     then (Inl (CasFailed (att_id a) expected_version (state_version a)), a)
     else if can_transition_to (att_state a) next
     then (let a1 = (if is_terminal next then a\<lparr>finished_at := Some now\<rparr> else a)
           in (Inr (), a1\<lparr>att_state := next, state_version := state_version a1 + 1\<rparr>))
     else (Inl (IllegalTransition (att_state a) next (att_id a)), a))"

definition transition_to ::
  "UnixTimestamp \<Rightarrow> JobState \<Rightarrow> JobAttempt \<Rightarrow> (unit, TransitionError) result \<times> JobAttempt" where
  "transition_to now next a = transition_with_cas now next (state_version a) a"

section \<open>The transition table\<close>

text \<open>The progress of a state: every transition of the table raises it.\<close>

definition rank :: "JobState \<Rightarrow> nat" where
  "rank s = (case s of
      Pending \<Rightarrow> 0 | Queued \<Rightarrow> 1 | Admitted \<Rightarrow> 2 | Preparing \<Rightarrow> 3 | Scanning \<Rightarrow> 4 | Planning \<Rightarrow> 5
    | AwaitingAuthorization \<Rightarrow> 6 | Authorized \<Rightarrow> 7 | WaitingResources \<Rightarrow> 8 | Executing \<Rightarrow> 9
    | Verifying \<Rightarrow> 10 | Reconciling \<Rightarrow> 11 | _ \<Rightarrow> 12)"

lemma rank_le: "rank s \<le> 12"
  by (cases s) (simp_all add: rank_def)

lemma can_transition_rank: "can_transition_to s t \<Longrightarrow> rank s < rank t"
  by (cases s) (auto simp: can_transition_to_def rank_def is_terminal_def split: JobState.splits)

lemma is_terminal_absorbing: "is_terminal s \<Longrightarrow> \<not> can_transition_to s t"
  by (cases s) (auto simp: can_transition_to_def is_terminal_def split: JobState.splits)

lemma non_terminal_stoppable:
  "\<not> is_terminal s \<Longrightarrow>
    can_transition_to s (JCancelled r) \<and> can_transition_to s (JTimedOut r) \<and>
    can_transition_to s (JStale r) \<and> can_transition_to s (JRecoveryRequired r)"
  by (simp add: can_transition_to_def)

section \<open>Attempts\<close>

lemma transition_with_cas_error_unchanged:
  "transition_with_cas now next v a = (Inl e, b) \<Longrightarrow> b = a"
  by (auto simp: transition_with_cas_def Let_def split: if_splits)

lemma transition_with_cas_ok_iff:
  "fst (transition_with_cas now next v a) = Inr () \<longleftrightarrow>
    v = state_version a \<and> can_transition_to (att_state a) next"
  by (auto simp: transition_with_cas_def Let_def)

text \<open>Any sequence of transition calls, by any holder of the attempt.\<close>

inductive attempt_step :: "JobAttempt \<Rightarrow> JobAttempt \<Rightarrow> bool" where
  call: "attempt_step a (snd (transition_with_cas now next v a))"

inductive attempt_reach :: "JobAttempt \<Rightarrow> JobAttempt \<Rightarrow> bool" where
  refl: "attempt_reach a a"
| step: "attempt_reach a b \<Longrightarrow> attempt_step b c \<Longrightarrow> attempt_reach a c"

inductive_cases attempt_stepE [elim!]: "attempt_step a b"

definition attempt_inv :: "JobAttempt \<Rightarrow> bool" where
  "attempt_inv a \<longleftrightarrow>
    (finished_at a \<noteq> None \<longleftrightarrow> is_terminal (att_state a)) \<and>
    1 \<le> unat (state_version a) \<and> unat (state_version a) \<le> Suc (rank (att_state a))"

lemma attempt_inv_new: "attempt_inv (new_with_generations now a j n cat cfg)"
  by (simp add: attempt_inv_def new_with_generations_def is_terminal_def rank_def)

lemma unat_version_Suc: "unat v \<le> 13 \<Longrightarrow> unat (v + 1 :: u64) = Suc (unat v)"
  by (simp add: unat_word_ariths)

lemma attempt_inv_step:
  assumes "attempt_inv a"
  shows "attempt_inv (snd (transition_with_cas now next v a))"
proof (cases "v = state_version a \<and> can_transition_to (att_state a) next")
  case True
  have lt: "rank (att_state a) < rank next"
    using True can_transition_rank by blast
  have "unat (state_version a) \<le> 13"
    using assms rank_le [of "att_state a"] by (simp add: attempt_inv_def)
  note suc = unat_version_Suc [OF this]
  have "\<not> is_terminal (att_state a)"
    using True is_terminal_absorbing by blast
  with True lt suc assms show ?thesis
    by (auto simp: transition_with_cas_def attempt_inv_def)
next
  case False
  with assms show ?thesis
    by (auto simp: transition_with_cas_def Let_def)
qed

lemma attempt_inv_reach: "attempt_reach a b \<Longrightarrow> attempt_inv a \<Longrightarrow> attempt_inv b"
  by (induction rule: attempt_reach.induct) (auto simp: attempt_inv_step)

text \<open>The version counts the transitions made: it moves by one exactly when a call succeeds.\<close>

lemma transition_version:
  "attempt_inv a \<Longrightarrow>
    unat (state_version (snd (transition_with_cas now next v a))) =
      unat (state_version a) + (if fst (transition_with_cas now next v a) = Inr () then 1 else 0)"
  using unat_version_Suc [of "state_version a"] rank_le [of "att_state a"]
  by (auto simp: transition_with_cas_def attempt_inv_def Let_def)

lemma attempt_reach_terminal_stuck:
  "attempt_reach a b \<Longrightarrow> is_terminal (att_state a) \<Longrightarrow> b = a"
proof (induction rule: attempt_reach.induct)
  case (step a b c)
  then show ?case
    using is_terminal_absorbing by (auto simp: transition_with_cas_def Let_def split: if_splits)
qed simp

section \<open>Properties\<close>



text \<open>A transition call succeeds exactly when the caller knows the current version and the table
  allows the step; then it moves to the requested state and raises the version by one, and otherwise
  the attempt is unchanged and the error says which check failed, the version check first.  Of two
  holders that read the same version, the second one therefore fails.\<close>

theorem transition_with_cas_exclusive:
  assumes "attempt_reach (new_with_generations now0 i j n cat cfg) a"
    and first: "transition_with_cas now1 s1 v a = (Inr (), b)"
  shows "v = state_version a \<and> can_transition_to (att_state a) s1 \<and> att_state b = s1 \<and>
    unat (state_version b) = unat (state_version a) + 1 \<and>
    transition_with_cas now2 s2 v b = (Inl (CasFailed (att_id a) v (state_version b)), b)"
proof -
  have inv: "attempt_inv a"
    using attempt_inv_reach [OF assms(1)] attempt_inv_new by blast
  have ok: "v = state_version a" "can_transition_to (att_state a) s1"
    using transition_with_cas_ok_iff [of now1 s1 v a] first by auto
  have ver: "unat (state_version b) = unat (state_version a) + 1"
    using transition_version [OF inv, of now1 s1 v] first by simp
  then have "state_version b \<noteq> v"
    using ok by auto
  moreover have "att_state b = s1" "att_id b = att_id a"
    using first ok by (auto simp: transition_with_cas_def Let_def split: if_splits)
  ultimately show ?thesis
    using ok ver by (simp add: transition_with_cas_def)
qed

theorem transition_with_cas_exclusive_witness:
  "let a = new_with_generations 100 (AttemptId 1) (JobId 7) 1 (CatalogGeneration 3) (ConfigGeneration 1);
       b = snd (transition_with_cas 101 Admitted 1 a)
   in transition_with_cas 102 Queued 1 b = (Inl (CasFailed (AttemptId 1) 1 (state_version b)), b)"
proof -
  let ?a = "new_with_generations 100 (AttemptId 1) (JobId 7) 1 (CatalogGeneration 3) (ConfigGeneration 1)"
  have "transition_with_cas 101 Admitted 1 ?a = (Inr (), snd (transition_with_cas 101 Admitted 1 ?a))"
    by (simp add: transition_with_cas_def new_with_generations_def can_transition_to_def Let_def)
  from transition_with_cas_exclusive [OF attempt_reach.refl this, of 102 Queued]
  show ?thesis
    by (simp add: new_with_generations_def Let_def)
qed

end
