(* ===== verification/Config_Pipeline.thy ===== *)
theory Config_Pipeline
  imports Complex_Main Domain_Entities
begin

text \<open>
  The three-stage configuration pipeline of \<open>config_pipeline/mod.rs\<close>: the raw configuration of the
  deserialiser, its validation, and the snapshot bound to a generation.  A 32-bit float is \<open>NaN\<close>, an
  infinity or a rational, compared as IEEE 754 does.  The lemmas characterise when validation accepts,
  give the ranges of an accepted configuration, and show that the platform paths stay protected
  whatever the user configures.
\<close>

datatype f32 = NaN | NegInf | Fin rat | PosInf

fun f32_le :: "f32 \<Rightarrow> f32 \<Rightarrow> bool" where
  "f32_le NaN _ = False"
| "f32_le _ NaN = False"
| "f32_le NegInf _ = True"
| "f32_le _ PosInf = True"
| "f32_le (Fin a) (Fin b) = (a \<le> b)"
| "f32_le _ _ = False"

definition PLATFORM_INVARIANT_PROTECTED_PATHS :: "string list" where
  "PLATFORM_INVARIANT_PROTECTED_PATHS =
    [''/system'', ''/vendor'', ''/product'', ''/system_ext'', ''/apex'', ''/data/system'',
     ''/data/misc'', ''/data/bootchart'', ''/metadata'', ''/boot'', ''/etc'']"

record RawConfig =
  raw_maintenance_interval_secs :: "u64 option"
  raw_min_screen_off_secs :: "u64 option"
  raw_max_soc_temp_c :: "f32 option"
  raw_max_battery_temp_c :: "f32 option"
  raw_min_app_cache_age_days :: "u64 option"
  raw_min_file_age_hours :: "u64 option"
  raw_app_cache_threshold_mb :: "u64 option"
  raw_dry_run :: "bool option"
  raw_clean_app_cache :: "bool option"
  raw_clean_code_cache :: "bool option"
  raw_clean_tombstones :: "bool option"
  raw_clean_oem_logs :: "bool option"
  raw_clean_temp_apks :: "bool option"
  raw_whitelist_packages :: "string list option"
  raw_protected_paths :: "string list option"
  raw_fstrim_interval_hours :: "u64 option"
  raw_vacuum_db_interval_hours :: "u64 option"

definition RawConfig_default :: RawConfig where
  "RawConfig_default =
    \<lparr> raw_maintenance_interval_secs = Some 3600, raw_min_screen_off_secs = Some 180,
      raw_max_soc_temp_c = Some (Fin 45), raw_max_battery_temp_c = Some (Fin 42),
      raw_min_app_cache_age_days = Some 3, raw_min_file_age_hours = None,
      raw_app_cache_threshold_mb = Some 50, raw_dry_run = Some False,
      raw_clean_app_cache = Some True, raw_clean_code_cache = Some False,
      raw_clean_tombstones = Some False, raw_clean_oem_logs = Some False,
      raw_clean_temp_apks = Some False,
      raw_whitelist_packages = Some [''com.android.vending'', ''com.google.android.gms''],
      raw_protected_paths = Some [''/system'', ''/vendor'', ''/apex'',
        ''/data/data/com.android.providers.telephony''],
      raw_fstrim_interval_hours = Some 24, raw_vacuum_db_interval_hours = Some 72 \<rparr>"

record ValidatedConfig =
  maintenance_interval_secs :: u64
  min_screen_off_secs :: u64
  max_soc_temp_c :: f32
  max_battery_temp_c :: f32
  min_app_cache_age_secs :: u64
  app_cache_threshold_bytes :: ByteCount
  dry_run :: bool
  clean_app_cache :: bool
  clean_code_cache :: bool
  clean_tombstones :: bool
  clean_oem_logs :: bool
  clean_temp_apks :: bool
  whitelist_packages :: "string list"
  protected_paths :: "string list"
  fstrim_interval_secs :: u64
  vacuum_db_interval_secs :: u64

definition invalid_package :: "string \<Rightarrow> bool" where
  "invalid_package pkg =
    (length pkg > 255 \<or> CHR 0x00 \<in> set pkg \<or> CHR ''/'' \<in> set pkg \<or> is_blank pkg)"

text \<open>\<open>PathBuf\<close> equality is equality of components, so \<open>contains\<close> is too.\<close>

definition paths_contain :: "string list \<Rightarrow> string \<Rightarrow> bool" where
  "paths_contain ps p = list_ex (\<lambda>q. components q = components p) ps"

fun add_user_paths :: "string list \<Rightarrow> string list \<Rightarrow> (string list, CleanerError) result" where
  "add_user_paths acc [] = Inr acc"
| "add_user_paths acc (p # ps) =
    (if p = [] \<or> length p > 4096 \<or> CHR 0x00 \<in> set p then Inl (ConfigError ''invalid protected path'')
     else add_user_paths (if paths_contain acc p then acc else acc @ [p]) ps)"

text \<open>The retention age: hours win over days.\<close>

definition retention_secs :: "RawConfig \<Rightarrow> u64" where
  "retention_secs raw = (case raw_min_file_age_hours raw of
      Some hours \<Rightarrow> saturating_mul hours 3600
    | None \<Rightarrow> saturating_mul (unwrap_or (raw_min_app_cache_age_days raw) 3) 86400)"

definition from_raw :: "RawConfig \<Rightarrow> (ValidatedConfig, Failure) result" where
  "from_raw raw =
    (let interval = unwrap_or (raw_maintenance_interval_secs raw) 3600;
         min_screen_off = unwrap_or (raw_min_screen_off_secs raw) 180;
         max_soc = unwrap_or (raw_max_soc_temp_c raw) (Fin 45);
         max_battery = unwrap_or (raw_max_battery_temp_c raw) (Fin 45);
         threshold_mb = unwrap_or (raw_app_cache_threshold_mb raw) 50;
         whitelist = unwrap_or (raw_whitelist_packages raw) [];
         fstrim_hours = unwrap_or (raw_fstrim_interval_hours raw) 24;
         vacuum_hours = unwrap_or (raw_vacuum_db_interval_hours raw) 72
     in
     if \<not> (60 \<le> interval \<and> interval \<le> 604800)
       then Inl (Err (ConfigError ''maintenance_interval_secs must be 60..604800''))
     else if min_screen_off > 3600
       then Inl (Err (ConfigError ''min_screen_off_secs must be 0..3600''))
     else if \<not> (f32_le (Fin 20) max_soc \<and> f32_le max_soc (Fin 90))
       then Inl (Err (ConfigError ''max_soc_temp_c out of safe range [20.0, 90.0]''))
     else if \<not> (f32_le (Fin 20) max_battery \<and> f32_le max_battery (Fin 65))
       then Inl (Err (ConfigError ''max_battery_temp_c out of safe range [20.0, 65.0]''))
     else case ByteCount_new (saturating_mul threshold_mb (1024 * 1024)) of
       None \<Rightarrow> Inl (Panic ''ByteCount exceeds hard bound 10GiB'')
     | Some threshold \<Rightarrow>
     if length whitelist > 512
       then Inl (Err (ConfigError ''whitelist_packages exceeds 512 entries''))
     else if list_ex invalid_package whitelist
       then Inl (Err (ConfigError ''invalid whitelist package''))
     else case add_user_paths PLATFORM_INVARIANT_PROTECTED_PATHS
                 (unwrap_or (raw_protected_paths raw) []) of
       Inl e \<Rightarrow> Inl (Err e)
     | Inr paths \<Rightarrow>
     if \<not> (1 \<le> fstrim_hours \<and> fstrim_hours \<le> 720)
       then Inl (Err (ConfigError ''fstrim_interval_hours must be 1..720''))
     else if \<not> (1 \<le> vacuum_hours \<and> vacuum_hours \<le> 720)
       then Inl (Err (ConfigError ''vacuum_db_interval_hours must be 1..720''))
     else Inr
       \<lparr> maintenance_interval_secs = interval,
         min_screen_off_secs = min_screen_off,
         max_soc_temp_c = max_soc,
         max_battery_temp_c = max_battery,
         min_app_cache_age_secs = retention_secs raw,
         app_cache_threshold_bytes = threshold,
         dry_run = unwrap_or (raw_dry_run raw) False,
         clean_app_cache = unwrap_or (raw_clean_app_cache raw) True,
         clean_code_cache = unwrap_or (raw_clean_code_cache raw) False,
         clean_tombstones = unwrap_or (raw_clean_tombstones raw) False,
         clean_oem_logs = unwrap_or (raw_clean_oem_logs raw) False,
         clean_temp_apks = unwrap_or (raw_clean_temp_apks raw) False,
         whitelist_packages = sort_dedup whitelist,
         protected_paths = paths,
         fstrim_interval_secs = saturating_mul fstrim_hours 3600,
         vacuum_db_interval_secs = saturating_mul vacuum_hours 3600 \<rparr>)"

record EffectiveConfig =
  generation :: ConfigGeneration
  validated :: ValidatedConfig

definition is_package_whitelisted :: "EffectiveConfig \<Rightarrow> string \<Rightarrow> bool" where
  "is_package_whitelisted c pkg =
    list_ex (\<lambda>w. eq_ignore_ascii_case w pkg) (whitelist_packages (validated c))"

definition is_path_protected :: "EffectiveConfig \<Rightarrow> string \<Rightarrow> bool" where
  "is_path_protected c path =
    list_ex (\<lambda>prot.
      if path_starts_with path prot then True
      else (let path_comps = components path; prot_comps = components prot
            in if length path_comps \<ge> length prot_comps \<and> prot_comps \<noteq> []
               then take (length prot_comps) path_comps = prot_comps
               else False))
     (protected_paths (validated c))"

section \<open>Validation\<close>

lemma add_user_paths_Inr:
  "add_user_paths acc ps = Inr qs \<Longrightarrow>
    prefix acc qs \<and> (\<forall>p\<in>set ps. paths_contain qs p) \<and> set qs \<subseteq> set acc \<union> set ps"
proof (induction ps arbitrary: acc)
  case (Cons p ps)
  let ?acc = "if paths_contain acc p then acc else acc @ [p]"
  have rec: "add_user_paths ?acc ps = Inr qs"
    using Cons.prems by (simp split: if_splits)
  note IH = Cons.IH [OF rec]
  have "paths_contain ?acc p"
    by (auto simp: paths_contain_def)
  then have "paths_contain qs p"
    using IH by (auto simp: paths_contain_def prefix_def)
  then show ?case
    using IH append_prefixD [of acc "[p]" qs] by (auto split: if_splits)
qed auto

lemma add_user_paths_Inl_iff:
  "(\<exists>e. add_user_paths acc ps = Inl e) \<longleftrightarrow>
    (\<exists>p\<in>set ps. p = [] \<or> length p > 4096 \<or> CHR 0x00 \<in> set p)"
  by (induction ps arbitrary: acc) auto

text \<open>The second comparison of \<open>is_path_protected\<close> repeats the first one.\<close>

lemma is_path_protected_iff:
  "is_path_protected c path \<longleftrightarrow>
    (\<exists>prot\<in>set (protected_paths (validated c)). path_starts_with path prot)"
  by (auto simp: is_path_protected_def list_ex_iff path_starts_with_def Let_def
      take_is_prefix split: if_splits) (metis take_is_prefix)

text \<open>The invariant of a validated configuration.\<close>

definition validated_inv :: "ValidatedConfig \<Rightarrow> bool" where
  "validated_inv v \<longleftrightarrow>
    60 \<le> maintenance_interval_secs v \<and> maintenance_interval_secs v \<le> 604800 \<and>
    min_screen_off_secs v \<le> 3600 \<and>
    (\<exists>q. max_soc_temp_c v = Fin q \<and> 20 \<le> q \<and> q \<le> 90) \<and>
    (\<exists>q. max_battery_temp_c v = Fin q \<and> 20 \<le> q \<and> q \<le> 65) \<and>
    app_cache_threshold_bytes v \<le> ByteCount_MAX_SAFE \<and>
    length (whitelist_packages v) \<le> 512 \<and>
    sorted (whitelist_packages v) \<and> distinct (whitelist_packages v) \<and>
    (\<forall>w\<in>set (whitelist_packages v). \<not> invalid_package w) \<and>
    prefix PLATFORM_INVARIANT_PROTECTED_PATHS (protected_paths v) \<and>
    3600 \<le> fstrim_interval_secs v \<and> fstrim_interval_secs v \<le> 2592000 \<and>
    3600 \<le> vacuum_db_interval_secs v \<and> vacuum_db_interval_secs v \<le> 2592000"

lemma f32_le_range:
  "f32_le (Fin a) x \<and> f32_le x (Fin b) \<longleftrightarrow> (\<exists>q. x = Fin q \<and> a \<le> q \<and> q \<le> b)"
  by (cases x) auto

lemma hours_range:
  "1 \<le> h \<Longrightarrow> h \<le> 720 \<Longrightarrow> 3600 \<le> saturating_mul h 3600 \<and> saturating_mul h 3600 \<le> (2592000 :: u64)"
  by (simp add: word_le_nat_alt arith_unat)

text \<open>The checks of \<open>from_raw\<close> before the byte count is built, and those after it.\<close>

definition early_checks :: "RawConfig \<Rightarrow> bool" where
  "early_checks raw \<longleftrightarrow>
    60 \<le> unwrap_or (raw_maintenance_interval_secs raw) 3600 \<and>
    unwrap_or (raw_maintenance_interval_secs raw) 3600 \<le> 604800 \<and>
    unwrap_or (raw_min_screen_off_secs raw) 180 \<le> 3600 \<and>
    (\<exists>q. unwrap_or (raw_max_soc_temp_c raw) (Fin 45) = Fin q \<and> 20 \<le> q \<and> q \<le> 90) \<and>
    (\<exists>q. unwrap_or (raw_max_battery_temp_c raw) (Fin 45) = Fin q \<and> 20 \<le> q \<and> q \<le> 65)"

definition late_checks :: "RawConfig \<Rightarrow> bool" where
  "late_checks raw \<longleftrightarrow>
    length (unwrap_or (raw_whitelist_packages raw) []) \<le> 512 \<and>
    (\<forall>w\<in>set (unwrap_or (raw_whitelist_packages raw) []). \<not> invalid_package w) \<and>
    (\<forall>p\<in>set (unwrap_or (raw_protected_paths raw) []).
      p \<noteq> [] \<and> length p \<le> 4096 \<and> CHR 0x00 \<notin> set p) \<and>
    1 \<le> unwrap_or (raw_fstrim_interval_hours raw) 24 \<and>
    unwrap_or (raw_fstrim_interval_hours raw) 24 \<le> 720 \<and>
    1 \<le> unwrap_or (raw_vacuum_db_interval_hours raw) 72 \<and>
    unwrap_or (raw_vacuum_db_interval_hours raw) 72 \<le> 720"

lemma threshold_fits_iff:
  "saturating_mul mb (1024 * 1024) \<le> ByteCount_MAX_SAFE \<longleftrightarrow> unat mb \<le> 10240"
  "saturating_mul mb 1048576 \<le> ByteCount_MAX_SAFE \<longleftrightarrow> unat mb \<le> 10240"
  by (auto simp: ByteCount_MAX_SAFE_def word_le_nat_alt arith_unat)

lemma from_raw_early: "\<not> early_checks raw \<Longrightarrow> \<exists>m. from_raw raw = Inl (Err (ConfigError m))"
  unfolding from_raw_def Let_def early_checks_def f32_le_range by (auto simp: not_le)

lemma from_raw_panic:
  "early_checks raw \<Longrightarrow> unat (unwrap_or (raw_app_cache_threshold_mb raw) 50) > 10240 \<Longrightarrow>
    from_raw raw = Inl (Panic ''ByteCount exceeds hard bound 10GiB'')"
  unfolding from_raw_def Let_def early_checks_def f32_le_range ByteCount_new_def threshold_fits_iff
  by (auto simp: not_le)

lemma from_raw_late:
  assumes "early_checks raw" "unat (unwrap_or (raw_app_cache_threshold_mb raw) 50) \<le> 10240"
  shows "(\<exists>v. from_raw raw = Inr v) \<longleftrightarrow> late_checks raw"
    and "from_raw raw = Inl f \<Longrightarrow> \<exists>m. f = Err (ConfigError m)"
proof -
  let ?ps = "unwrap_or (raw_protected_paths raw) []"
  have err: "add_user_paths acc ps = Inl e \<Longrightarrow> \<exists>m. e = ConfigError m" for acc ps e
    by (induction ps arbitrary: acc) (auto split: if_splits)
  have early: "from_raw raw = Inr v \<Longrightarrow> late_checks raw" for v
    using assms add_user_paths_Inl_iff [of PLATFORM_INVARIANT_PROTECTED_PATHS ?ps]
    unfolding from_raw_def Let_def early_checks_def late_checks_def f32_le_range ByteCount_new_def
      threshold_fits_iff list_ex_iff
    by (auto simp: not_less simp del: word_less_1 split: if_splits sum.splits)
  have "late_checks raw \<Longrightarrow> \<exists>v. from_raw raw = Inr v"
    using assms add_user_paths_Inl_iff [of PLATFORM_INVARIANT_PROTECTED_PATHS ?ps]
    unfolding from_raw_def Let_def early_checks_def late_checks_def f32_le_range ByteCount_new_def
      threshold_fits_iff list_ex_iff
    by (cases "add_user_paths PLATFORM_INVARIANT_PROTECTED_PATHS ?ps") (auto simp: not_less)
  with early show "(\<exists>v. from_raw raw = Inr v) \<longleftrightarrow> late_checks raw"
    by blast
  show "from_raw raw = Inl f \<Longrightarrow> \<exists>m. f = Err (ConfigError m)"
    using assms err
    unfolding from_raw_def Let_def early_checks_def f32_le_range ByteCount_new_def threshold_fits_iff
    by (auto split: if_splits sum.splits)
qed

lemma from_raw_fields:
  assumes "from_raw raw = Inr v"
  shows "early_checks raw" "late_checks raw"
    and "unat (unwrap_or (raw_app_cache_threshold_mb raw) 50) \<le> 10240"
    and "maintenance_interval_secs v = unwrap_or (raw_maintenance_interval_secs raw) 3600"
    and "min_screen_off_secs v = unwrap_or (raw_min_screen_off_secs raw) 180"
    and "max_soc_temp_c v = unwrap_or (raw_max_soc_temp_c raw) (Fin 45)"
    and "max_battery_temp_c v = unwrap_or (raw_max_battery_temp_c raw) (Fin 45)"
    and "min_app_cache_age_secs v = retention_secs raw"
    and "app_cache_threshold_bytes v =
      saturating_mul (unwrap_or (raw_app_cache_threshold_mb raw) 50) (1024 * 1024)"
    and "whitelist_packages v = sort_dedup (unwrap_or (raw_whitelist_packages raw) [])"
    and "add_user_paths PLATFORM_INVARIANT_PROTECTED_PATHS (unwrap_or (raw_protected_paths raw) [])
      = Inr (protected_paths v)"
    and "fstrim_interval_secs v = saturating_mul (unwrap_or (raw_fstrim_interval_hours raw) 24) 3600"
    and "vacuum_db_interval_secs v = saturating_mul (unwrap_or (raw_vacuum_db_interval_hours raw) 72) 3600"
proof -
  show early: "early_checks raw"
    using from_raw_early assms by fastforce
  show fits: "unat (unwrap_or (raw_app_cache_threshold_mb raw) 50) \<le> 10240"
    using from_raw_panic [OF early] assms by (cases "unat (unwrap_or (raw_app_cache_threshold_mb raw) 50) \<le> 10240") auto
  show "late_checks raw"
    using from_raw_late(1) [OF early fits] assms by blast
qed (use assms in \<open>auto simp: from_raw_def Let_def ByteCount_new_def split: if_splits sum.splits\<close>)

lemma from_raw_validated_inv:
  assumes "from_raw raw = Inr v"
  shows "validated_inv v"
  using from_raw_fields [OF assms] hours_range add_user_paths_Inr
    length_sort_dedup [of "unwrap_or (raw_whitelist_packages raw) []"]
  by (auto simp: validated_inv_def early_checks_def late_checks_def threshold_fits_iff)

section \<open>Properties\<close>

text \<open>C31.  A configuration that validation accepts is within its documented ranges (intervals,
  temperatures, threshold, whitelist of at most 512 valid packages, sorted and without duplicates), and
  every path beneath a platform path or beneath a path the user configured is protected: user
  configuration can only add protected paths.\<close>

theorem from_raw_sound:
  assumes "from_raw raw = Inr v"
  shows "validated_inv v \<and>
    (\<forall>prot path. (prot \<in> set PLATFORM_INVARIANT_PROTECTED_PATHS \<or>
        prot \<in> set (unwrap_or (raw_protected_paths raw) [])) \<and> path_starts_with path prot \<longrightarrow>
      is_path_protected \<lparr> generation = g, validated = v \<rparr> path)"
proof (intro conjI allI impI, goal_cases)
  case 1
  show ?case
    by (rule from_raw_validated_inv [OF assms])
next
  case (2 prot path)
  note fields = add_user_paths_Inr [OF from_raw_fields(11) [OF assms]]
  obtain q where "q \<in> set (protected_paths v)" "components q = components prot"
    using 2 fields by (fastforce simp: paths_contain_def list_ex_iff prefix_def)
  with 2 show ?case
    unfolding is_path_protected_iff path_starts_with_def by (auto intro!: bexI [of _ q])
qed

lemma from_raw_default: "\<exists>v. from_raw RawConfig_default = Inr v"
proof -
  have "early_checks RawConfig_default"
    by (simp add: early_checks_def RawConfig_default_def)
  moreover have "unat (unwrap_or (raw_app_cache_threshold_mb RawConfig_default) 50) \<le> 10240"
    by (simp add: RawConfig_default_def)
  moreover have "late_checks RawConfig_default"
    by (simp add: late_checks_def RawConfig_default_def invalid_package_def is_blank_def byte_of_def)
  ultimately show ?thesis
    using from_raw_late(1) by blast
qed

theorem from_raw_sound_witness:
  "\<exists>v. from_raw RawConfig_default = Inr v \<and> validated_inv v \<and>
    is_path_protected \<lparr> generation = ConfigGeneration 1, validated = v \<rparr>
      ''/data/data/com.android.providers.telephony/databases''"
proof -
  obtain v where v: "from_raw RawConfig_default = Inr v"
    using from_raw_default by blast
  have "path_starts_with ''/data/data/com.android.providers.telephony/databases''
      ''/data/data/com.android.providers.telephony''"
    by (simp add: path_starts_with_def components_def is_absolute_def component_of_def)
  moreover have "''/data/data/com.android.providers.telephony'' \<in>
      set (unwrap_or (raw_protected_paths RawConfig_default) [])"
    by (simp add: RawConfig_default_def)
  ultimately show ?thesis
    using v from_raw_sound [OF v, of "ConfigGeneration 1"] by blast
qed

text \<open>Validation never rejects with anything but a configuration error, except that a cache
  threshold above 10240 MiB makes it panic once the interval and temperature checks have passed:
  the byte count is built by the asserting constructor before the remaining checks.\<close>

theorem from_raw_panics_iff:
  "(\<exists>m. from_raw raw = Inl (Panic m)) \<longleftrightarrow>
    early_checks raw \<and> unat (unwrap_or (raw_app_cache_threshold_mb raw) 50) > 10240"
proof (cases "early_checks raw \<and> unat (unwrap_or (raw_app_cache_threshold_mb raw) 50) \<le> 10240")
  case True
  then show ?thesis
    using from_raw_late(2) [of raw] by fastforce
next
  case False
  then show ?thesis
    using from_raw_early [of raw] from_raw_panic [of raw] by fastforce
qed

end
