(* ===== verification/Safety_Gate.thy ===== *)
theory Safety_Gate
  imports Config_Pipeline
begin

text \<open>
  The safety gate of \<open>safety/mod.rs\<close>: the check of a candidate before policy, the check of an
  operation right before its mutation, and the proof token the latter issues.  The lemmas give the
  exact condition of each check, and what acceptance means for the absolute path that is mutated.
\<close>

record SafetyProof =
  sp_target_id :: TargetId
  sp_expected_identity :: FileIdentity
  sp_operation_id :: OperationId
  sp_catalog_generation :: CatalogGeneration
  sp_config_generation :: ConfigGeneration
  sp_validated_at :: UnixTimestamp
  sp_expires_at :: UnixTimestamp

definition is_expired :: "SafetyProof \<Rightarrow> UnixTimestamp \<Rightarrow> bool" where
  "is_expired p now = (now > sp_expires_at p)"

definition is_valid_for ::
  "SafetyProof \<Rightarrow> OperationId \<Rightarrow> UnixTimestamp \<Rightarrow> CatalogGeneration \<Rightarrow> ConfigGeneration \<Rightarrow> bool" where
  "is_valid_for p oi now cat cfg =
    (sp_operation_id p = oi \<and> sp_catalog_generation p = cat \<and> sp_config_generation p = cfg \<and>
     \<not> is_expired p now)"

definition verify_target_root_safety :: "string \<Rightarrow> (unit, CleanerError) result" where
  "verify_target_root_safety path =
    (let path_comps = components path
     in if path_comps = [] \<or> (length path_comps = 1 \<and> path_comps ! 0 = RootDir)
        then Inl (SafetyViolation ''Root must never be targeted for mutation'')
        else if list_ex (\<lambda>prot. let prot_comps = components prot in
               length path_comps \<ge> length prot_comps \<and> prot_comps \<noteq> [] \<and>
               take (length prot_comps) path_comps = prot_comps) PLATFORM_INVARIANT_PROTECTED_PATHS
        then Inl (SafetyViolation ''Protected system root must never be targeted for mutation'')
        else Inr ())"

definition validate_candidate ::
  "UnixTimestamp \<Rightarrow> Candidate \<Rightarrow> TargetDescriptor \<Rightarrow> (SafetyValidatedCandidate, CleanerError) result" where
  "validate_candidate now c t =
    (if \<not> is_mutation_allowed t
       then Inl (SafetyViolation ''Target safety tier strictly forbids mutation'')
     else if cand_target_id c \<noteq> td_target_id t
       then Inl (SafetyViolation ''Candidate target ID mismatch'')
     else if fid_dev (cand_identity c) \<noteq> td_dev t
       then Inl (SafetyViolation ''Mount boundary violation'')
     else if rp_str (cand_rel_path c) = []
       then Inl (SafetyViolation ''Attempted to validate root target directory itself as a deletion candidate'')
     else bind_result (verify_target_root_safety (td_base_path t))
       (\<lambda>_. Inr (SafetyValidatedCandidate_new now c (td_dev t) (td_ino t))))"

definition validate_mutation_boundary ::
  "UnixTimestamp \<Rightarrow> TargetDescriptor \<Rightarrow> string \<Rightarrow> FileIdentity \<Rightarrow> OperationId \<Rightarrow> CatalogGeneration
    \<Rightarrow> ConfigGeneration \<Rightarrow> (SafetyProof, CleanerError) result" where
  "validate_mutation_boundary now t rel_path expected oi cat cfg =
    (if \<not> is_mutation_allowed t
       then Inl (SafetyViolation ''Mutation boundary rejected: Target safety tier is read-only'')
     else bind_result (verify_target_root_safety (td_base_path t)) (\<lambda>_.
       if rel_path = []
         then Inl (SafetyViolation ''Mutation boundary rejected: Attempted to mutate target root directory directly'')
       else if fid_dev expected \<noteq> td_dev t
         then Inl (SafetyViolation ''Mutation boundary rejected: Device mismatch'')
       else if td_catalog_generation t \<noteq> cat
         then Inl (SafetyViolation ''Catalog generation mismatch'')
       else Inr \<lparr> sp_target_id = td_target_id t, sp_expected_identity = expected,
                  sp_operation_id = oi, sp_catalog_generation = cat, sp_config_generation = cfg,
                  sp_validated_at = now, sp_expires_at = saturating_add now 30 \<rparr>))"

section \<open>The exact condition of each check\<close>

text \<open>A base path the gate refuses: no components, the root alone, or beneath a platform path.\<close>

definition unsafe_root :: "string \<Rightarrow> bool" where
  "unsafe_root path \<longleftrightarrow> components path = [] \<or> components path = [RootDir] \<or>
    (\<exists>prot\<in>set PLATFORM_INVARIANT_PROTECTED_PATHS. path_starts_with path prot)"

lemma platform_path_components:
  "prot \<in> set PLATFORM_INVARIANT_PROTECTED_PATHS \<Longrightarrow> components prot \<noteq> []"
  by (auto simp: PLATFORM_INVARIANT_PROTECTED_PATHS_def components_def is_absolute_def)

lemma prefix_take_iff: "prefix xs ys \<longleftrightarrow> length xs \<le> length ys \<and> take (length xs) ys = xs"
  by (metis append_eq_conv_conj prefix_def prefix_length_le take_is_prefix)

lemma verify_target_root_safety_iff:
  "verify_target_root_safety path = Inr () \<longleftrightarrow> \<not> unsafe_root path"
proof -
  have "components path = [] \<or> (length (components path) = 1 \<and> components path ! 0 = RootDir)
      \<longleftrightarrow> components path = [] \<or> components path = [RootDir]"
    by (cases "components path") auto
  then show ?thesis
    using platform_path_components
    by (auto simp: verify_target_root_safety_def unsafe_root_def list_ex_iff path_starts_with_def
        prefix_take_iff Let_def)
qed

lemma validate_candidate_iff:
  "(\<exists>sc. validate_candidate now c t = Inr sc) \<longleftrightarrow>
    is_mutation_allowed t \<and> cand_target_id c = td_target_id t \<and>
    fid_dev (cand_identity c) = td_dev t \<and> rp_str (cand_rel_path c) \<noteq> [] \<and>
    \<not> unsafe_root (td_base_path t)"
  by (auto simp: validate_candidate_def verify_target_root_safety_iff)

lemma validate_candidate_result:
  "validate_candidate now c t = Inr sc \<Longrightarrow>
    sc = SafetyValidatedCandidate_new now c (td_dev t) (td_ino t)"
  by (auto simp: validate_candidate_def split: if_splits)

lemma validate_mutation_boundary_Inr_iff:
  "validate_mutation_boundary now t rel f oi cat cfg = Inr p \<longleftrightarrow>
    is_mutation_allowed t \<and> \<not> unsafe_root (td_base_path t) \<and> rel \<noteq> [] \<and> fid_dev f = td_dev t \<and>
    td_catalog_generation t = cat \<and>
    p = \<lparr> sp_target_id = td_target_id t, sp_expected_identity = f, sp_operation_id = oi,
          sp_catalog_generation = cat, sp_config_generation = cfg, sp_validated_at = now,
          sp_expires_at = saturating_add now 30 \<rparr>"
  by (auto simp: validate_mutation_boundary_def verify_target_root_safety_iff split: if_splits)

text \<open>Appending components to a path outside a protected one can only enter it when the protected
  path lies beneath the base.\<close>

lemma prefix_append_new:
  "prefix ps (bs @ rs) \<Longrightarrow> \<not> prefix ps bs \<Longrightarrow> prefix bs ps"
  by (metis prefix_def prefix_same_cases)

lemma safe_base_full_path:
  assumes "\<not> unsafe_root base" "rel_wf rel"
    and prot: "prot \<in> set PLATFORM_INVARIANT_PROTECTED_PATHS" "path_starts_with (path_push base rel) prot"
  shows "path_starts_with prot base"
  using assms prefix_append_new [of "components prot" "components base" "components rel"]
  by (auto simp: unsafe_root_def path_starts_with_def components_path_push)

section \<open>Properties\<close>

text \<open>C16.  The gate in front of a mutation issues a proof exactly when the target's tier allows
  mutation, its base is neither the root nor at or beneath a platform path, the path is not the base
  itself, the expected device is the target's and the target is of the expected catalog generation.
  The proof is then valid for exactly that operation and those generations, from its issue until
  thirty seconds later.\<close>


theorem mutation_boundary_proof:
  "case validate_mutation_boundary now t rel f oi cat cfg of
     Inr p \<Rightarrow>
       (is_mutation_allowed t \<and> \<not> unsafe_root (td_base_path t) \<and> rel \<noteq> [] \<and>
        fid_dev f = td_dev t \<and> td_catalog_generation t = cat) \<and>
       sp_target_id p = td_target_id t \<and> sp_expected_identity p = f \<and>
       (\<forall>oi' tm cat' cfg'. is_valid_for p oi' tm cat' cfg' \<longleftrightarrow>
          oi' = oi \<and> cat' = cat \<and> cfg' = cfg \<and> unat tm \<le> min (unat now + 30) (2 ^ 64 - 1))
   | Inl e \<Rightarrow>
       \<not> (is_mutation_allowed t \<and> \<not> unsafe_root (td_base_path t) \<and> rel \<noteq> [] \<and>
          fid_dev f = td_dev t \<and> td_catalog_generation t = cat) \<and>
       (\<exists>m. e = SafetyViolation m)"
proof (cases "validate_mutation_boundary now t rel f oi cat cfg")
  case (Inl e)
  have "\<exists>m. e = SafetyViolation m"
    using Inl by (auto simp: validate_mutation_boundary_def verify_target_root_safety_def
        bind_result_Inl_iff Let_def split: if_splits)
  with Inl show ?thesis
    using validate_mutation_boundary_Inr_iff [of now t rel f oi cat cfg] by force
next
  case (Inr p)
  then have cond: "is_mutation_allowed t \<and> \<not> unsafe_root (td_base_path t) \<and> rel \<noteq> [] \<and>
      fid_dev f = td_dev t \<and> td_catalog_generation t = cat"
    and p: "p = \<lparr> sp_target_id = td_target_id t, sp_expected_identity = f, sp_operation_id = oi,
          sp_catalog_generation = cat, sp_config_generation = cfg, sp_validated_at = now,
          sp_expires_at = saturating_add now 30 \<rparr>"
    unfolding validate_mutation_boundary_Inr_iff by auto
  have "is_valid_for p oi' tm cat' cfg' \<longleftrightarrow>
      oi' = oi \<and> cat' = cat \<and> cfg' = cfg \<and> unat tm \<le> min (unat now + 30) (2 ^ 64 - 1)"
    for oi' tm cat' cfg'
    by (auto simp: p is_valid_for_def is_expired_def not_less word_le_nat_alt arith_unat)
  with Inr cond p show ?thesis
    by simp
qed

text \<open>C17.  When a candidate passes the gate and no platform path lies beneath the target's base, the
  absolute path that a deletion would touch is outside every platform path, whatever its relative
  path is.\<close>

theorem validated_candidate_outside_platform:
  assumes "validate_candidate now c t = Inr sc"
    and "\<not> list_ex (\<lambda>prot. path_starts_with prot (td_base_path t)) PLATFORM_INVARIANT_PROTECTED_PATHS"
    and "rel_wf (rp_str (cand_rel_path c))"
  shows "list_all (\<lambda>prot. \<not> path_starts_with (path_push (td_base_path t) (rp_str (cand_rel_path c))) prot)
      PLATFORM_INVARIANT_PROTECTED_PATHS \<and>
    path_starts_with (path_push (td_base_path t) (rp_str (cand_rel_path c))) (td_base_path t)"
proof -
  have "\<not> unsafe_root (td_base_path t)"
    using assms(1) validate_candidate_iff [of now c t] by blast
  then show ?thesis
    using assms(2,3) safe_base_full_path path_push_starts_with
    by (fastforce simp: list_ex_iff list_all_iff)
qed

definition example_target :: "string \<Rightarrow> TargetDescriptor" where
  "example_target base = \<lparr> td_target_id = TargetId ''t'', td_class = AppCache, td_base_path = base,
     td_dev = 7, td_ino = 11, td_owner_uid = 10010, td_owner_gid = 10010,
     td_package_name = Some ''com.example'', td_safety_tier = StandardCache,
     td_catalog_generation = CatalogGeneration 1 \<rparr>"

definition example_candidate :: "string \<Rightarrow> Candidate" where
  "example_candidate rel = \<lparr> cand_id = CandidateId 1, cand_target_id = TargetId ''t'',
     cand_rel_path = RelativePath rel, cand_identity = \<lparr> fid_dev = 7, fid_ino = 12 \<rparr>,
     cand_size_bytes = 4096, cand_mtime = 1000, cand_atime = None, cand_is_dir = False,
     cand_is_symlink = False \<rparr>"

lemmas path_eval = path_starts_with_def components_def is_absolute_def component_of_def
  PLATFORM_INVARIANT_PROTECTED_PATHS_def

lemma example_accepted:
  "validate_candidate 5 (example_candidate ''a/b.tmp'') (example_target ''/data/data/com.example/cache'') =
    Inr (SafetyValidatedCandidate_new 5 (example_candidate ''a/b.tmp'') 7 11)"
  by (simp add: validate_candidate_def example_candidate_def example_target_def is_mutation_allowed_def
      verify_target_root_safety_def path_eval)

theorem validated_candidate_outside_platform_witness:
  "list_all (\<lambda>prot. \<not> path_starts_with ''/data/data/com.example/cache/a/b.tmp'' prot)
     PLATFORM_INVARIANT_PROTECTED_PATHS"
proof -
  let ?t = "example_target ''/data/data/com.example/cache''"
  have "\<not> list_ex (\<lambda>prot. path_starts_with prot (td_base_path ?t)) PLATFORM_INVARIANT_PROTECTED_PATHS"
    by (simp add: example_target_def path_eval)
  moreover have "rel_wf (rp_str (cand_rel_path (example_candidate ''a/b.tmp'')))"
    by (simp add: example_candidate_def rel_wf_def path_eval)
  ultimately show ?thesis
    using validated_candidate_outside_platform [OF example_accepted]
    by (simp add: example_target_def example_candidate_def path_push_def is_absolute_def)
qed

text \<open>The gate looks at the target's base only: a target based at an ancestor of a platform path
  passes both checks, and the mutated path is then a platform path.\<close>

theorem gate_ignores_protected_descendants:
  "\<exists>t c oi sc p. validate_candidate 5 c t = Inr sc \<and>
     validate_mutation_boundary 5 t (rp_str (cand_rel_path c)) (cand_identity c) oi
       (CatalogGeneration 1) (ConfigGeneration 1) = Inr p \<and>
     path_starts_with (path_push (td_base_path t) (rp_str (cand_rel_path c))) ''/data/system''"
proof -
  let ?t = "example_target ''/data''" and ?c = "example_candidate ''system/packages.xml''"
  have "validate_candidate 5 ?c ?t = Inr (SafetyValidatedCandidate_new 5 ?c 7 11)"
    by (simp add: validate_candidate_def example_candidate_def example_target_def
        is_mutation_allowed_def verify_target_root_safety_def path_eval)
  moreover have "\<exists>p. validate_mutation_boundary 5 ?t (rp_str (cand_rel_path ?c)) (cand_identity ?c)
      (OperationId 1) (CatalogGeneration 1) (ConfigGeneration 1) = Inr p"
    by (simp add: validate_mutation_boundary_def example_candidate_def example_target_def
        is_mutation_allowed_def verify_target_root_safety_def path_eval)
  moreover have "path_starts_with (path_push (td_base_path ?t) (rp_str (cand_rel_path ?c))) ''/data/system''"
    by (simp add: example_candidate_def example_target_def path_push_def path_eval)
  ultimately show ?thesis
    by blast
qed

end
