(* ===== verification/Policy.thy ===== *)
theory Policy
  imports Safety_Gate
begin

text \<open>
  The policy engine of \<open>policy/mod.rs\<close>: four rules in order over a candidate that passed the safety
  gate.  The lemmas give the exact condition of a permit and the reason of every denial, and show
  which settings of the configuration the decision reads.
\<close>

definition category_disabled :: "TargetDescriptor \<Rightarrow> EffectiveConfig \<Rightarrow> bool" where
  "category_disabled t c = (case td_class t of
      Tombstones \<Rightarrow> \<not> clean_tombstones (validated c)
    | LogArchive \<Rightarrow> \<not> clean_oem_logs (validated c)
    | TempDir \<Rightarrow> \<not> clean_temp_apks (validated c)
    | CodeCache \<Rightarrow> \<not> clean_code_cache (validated c)
    | _ \<Rightarrow> False)"

definition target_whitelisted :: "TargetDescriptor \<Rightarrow> EffectiveConfig \<Rightarrow> bool" where
  "target_whitelisted t c =
    (case td_package_name t of None \<Rightarrow> False | Some pkg \<Rightarrow> is_package_whitelisted c pkg)"

definition protected_bytecode :: "string \<Rightarrow> bool" where
  "protected_bytecode rel =
    (ends_with rel ''.dex'' \<or> ends_with rel ''.oat'' \<or> ends_with rel ''.art'' \<or>
     ends_with rel ''.vdex'' \<or> contains_str rel ''code_cache'')"

definition evaluate_candidate_with_freezer ::
  "UnixTimestamp \<Rightarrow> SafetyValidatedCandidate \<Rightarrow> TargetDescriptor \<Rightarrow> EffectiveConfig \<Rightarrow> UnixTimestamp
    \<Rightarrow> bool \<Rightarrow> PolicyDecision" where
  "evaluate_candidate_with_freezer decided_at sc t c now is_frozen =
    (let deny = (\<lambda>r. Deny \<lparr> pd_candidate = sc, pd_reason = r, pd_decided_at = decided_at \<rparr>)
     in
     if category_disabled t c then deny CategoryDisabled
     else if target_whitelisted t c then deny PackageWhitelisted
     else if protected_bytecode (rp_str (cand_rel_path (svc_candidate sc))) then deny ProtectedBytecode
     else if \<not> cand_is_dir (svc_candidate sc) \<and>
             age_secs (cand_mtime (svc_candidate sc)) now < min_app_cache_age_secs (validated c)
       then deny WithinRetentionGracePeriod
     else Allow \<lparr> pp_candidate = sc, pp_priority = (if is_frozen then 200 else 100),
                  pp_reason = ExceedsRetentionAge, pp_decided_at = decided_at \<rparr>)"

definition evaluate_candidate ::
  "UnixTimestamp \<Rightarrow> SafetyValidatedCandidate \<Rightarrow> TargetDescriptor \<Rightarrow> EffectiveConfig \<Rightarrow> UnixTimestamp
    \<Rightarrow> PolicyDecision" where
  "evaluate_candidate decided_at sc t c now =
    evaluate_candidate_with_freezer decided_at sc t c now False"

section \<open>Which candidates are permitted\<close>

definition permitted :: "SafetyValidatedCandidate \<Rightarrow> TargetDescriptor \<Rightarrow> EffectiveConfig \<Rightarrow> UnixTimestamp \<Rightarrow> bool" where
  "permitted sc t c now \<longleftrightarrow>
    \<not> category_disabled t c \<and> \<not> target_whitelisted t c \<and>
    \<not> protected_bytecode (rp_str (cand_rel_path (svc_candidate sc))) \<and>
    (cand_is_dir (svc_candidate sc) \<or>
     unat (min_app_cache_age_secs (validated c)) + unat (cand_mtime (svc_candidate sc)) \<le> unat now \<or>
     min_app_cache_age_secs (validated c) = 0)"

lemma age_secs_lt_iff:
  "age_secs m now < k \<longleftrightarrow> unat now < unat k + unat m \<and> k \<noteq> 0"
  by (auto simp: age_secs_def word_less_nat_alt arith_unat unat_eq_0 [symmetric])

lemma evaluate_permit_iff:
  "(\<exists>p. evaluate_candidate_with_freezer d sc t c now fz = Allow p) \<longleftrightarrow> permitted sc t c now"
  by (auto simp: evaluate_candidate_with_freezer_def permitted_def age_secs_lt_iff Let_def not_less)

lemma evaluate_permit:
  "evaluate_candidate_with_freezer d sc t c now fz = Allow p \<Longrightarrow>
    p = \<lparr> pp_candidate = sc, pp_priority = (if fz then 200 else 100),
          pp_reason = ExceedsRetentionAge, pp_decided_at = d \<rparr>"
  by (auto simp: evaluate_candidate_with_freezer_def Let_def split: if_splits)

section \<open>Properties\<close>


text \<open>The decision reads neither the switch for application caches, nor the protected paths, nor
  the size threshold of the configuration: changing them changes no decision, so application caches
  are cleaned with the switch off and beneath the paths the user listed as protected.\<close>

theorem policy_ignores_settings:
  "evaluate_candidate_with_freezer d sc t
     \<lparr> generation = g', validated = v\<lparr>clean_app_cache := b, protected_paths := ps,
        app_cache_threshold_bytes := th, dry_run := dr\<rparr> \<rparr> now fz =
   evaluate_candidate_with_freezer d sc t \<lparr> generation = g, validated = v \<rparr> now fz"
proof -
  let ?c = "\<lparr> generation = g, validated = v \<rparr>"
    and ?c' = "\<lparr> generation = g', validated = v\<lparr>clean_app_cache := b, protected_paths := ps,
        app_cache_threshold_bytes := th, dry_run := dr\<rparr> \<rparr>"
  have "category_disabled t ?c' = category_disabled t ?c"
    by (cases "td_class t") (simp_all add: category_disabled_def)
  moreover have "target_whitelisted t ?c' = target_whitelisted t ?c"
    by (cases "td_package_name t") (simp_all add: target_whitelisted_def is_package_whitelisted_def)
  ultimately show ?thesis
    by (simp add: evaluate_candidate_with_freezer_def)
qed

end
