(* ===== verification/Planner.thy ===== *)
theory Planner
  imports Policy "HOL-Library.AList" "HOL-Library.Product_Lexorder" "HOL-Library.Multiset"
begin

text \<open>
  The planner of \<open>planner/mod.rs\<close>.  Permits are split into files and directories, each sorted by
  target, depth (deepest first) and path, and numbered from one; a directory depends on every
  operation planned beneath it.  The hash map from paths to operations is an association list: the
  only loop over it sorts what it collects, so its order does not matter.  The lemmas show that
  building a plan fails only over budget, that the plan is a permutation of the permits, that a
  directory's dependencies are exactly the planned operations beneath it and precede it, and that the
  plan does not depend on the order of the permits.
\<close>

definition DEFAULT_MAX_OPERATIONS_PER_PLAN :: nat where
  "DEFAULT_MAX_OPERATIONS_PER_PLAN = 10000"

text \<open>The locals of \<open>build_plan\<close>.\<close>

record PlannerState =
  pst_operations :: "PlannedOperation list"
  pst_total_reclaim :: ByteCount
  pst_op_id_counter :: u64
  pst_path_to_op_id :: "((TargetId \<times> string) \<times> OperationId) list"
  pst_defined_ops :: "OperationId set"

definition permit_cand :: "PolicyPermit \<Rightarrow> Candidate" where
  "permit_cand p = svc_candidate (pp_candidate p)"

definition path_depth :: "string \<Rightarrow> nat" where
  "path_depth s = length (split_slash s)"

definition sort_key_of :: "PolicyPermit \<Rightarrow> string \<times> int \<times> string" where
  "sort_key_of p =
    (target_str (cand_target_id (permit_cand p)),
     - int (path_depth (rp_str (cand_rel_path (permit_cand p)))),
     rp_str (cand_rel_path (permit_cand p)))"

definition plan_file :: "PolicyPermit \<Rightarrow> PlannerState \<Rightarrow> PlannerState" where
  "plan_file permit st =
    (let cand = permit_cand permit;
         oi = OperationId (pst_op_id_counter st)
     in st\<lparr>pst_op_id_counter := pst_op_id_counter st + 1,
           pst_total_reclaim := saturating_add (pst_total_reclaim st) (cand_size_bytes cand),
           pst_path_to_op_id :=
             AList.update (cand_target_id cand, rp_str (cand_rel_path cand)) oi (pst_path_to_op_id st),
           pst_defined_ops := insert oi (pst_defined_ops st),
           pst_operations := pst_operations st @
             [\<lparr> op_id = oi,
                op_type = DeleteFile (cand_target_id cand) (cand_rel_path cand)
                  (cand_identity cand) (cand_size_bytes cand),
                dependencies = [],
                estimated_reclaim = cand_size_bytes cand \<rparr>]\<rparr>)"

definition collect_dependencies ::
  "((TargetId \<times> string) \<times> OperationId) list \<Rightarrow> OperationId set \<Rightarrow> Candidate \<Rightarrow> OperationId list" where
  "collect_dependencies paths defined cand =
    (let dir_prefix = rp_str (cand_rel_path cand) @ ''/'';
         found = map snd (filter (\<lambda>((t, path), _).
                   t = cand_target_id cand \<and> prefix dir_prefix path) paths)
     in filter (\<lambda>dep. dep \<in> defined) (sort_dedup found))"

definition plan_dir :: "PolicyPermit \<Rightarrow> PlannerState \<Rightarrow> PlannerState" where
  "plan_dir permit st =
    (let cand = permit_cand permit;
         oi = OperationId (pst_op_id_counter st);
         deps = collect_dependencies (pst_path_to_op_id st) (pst_defined_ops st) cand
     in st\<lparr>pst_op_id_counter := pst_op_id_counter st + 1,
           pst_path_to_op_id :=
             AList.update (cand_target_id cand, rp_str (cand_rel_path cand)) oi (pst_path_to_op_id st),
           pst_defined_ops := insert oi (pst_defined_ops st),
           pst_operations := pst_operations st @
             [\<lparr> op_id = oi,
                op_type = DeleteDirEmpty (cand_target_id cand) (cand_rel_path cand) (cand_identity cand),
                dependencies = deps,
                estimated_reclaim = 0 \<rparr>]\<rparr>)"

fun validate_ops :: "OperationId set \<Rightarrow> PlannedOperation list \<Rightarrow> (unit, CleanerError) result" where
  "validate_ops seen [] = Inr ()"
| "validate_ops seen (p # ps) =
    (if op_id p \<in> seen then Inl (PlanValidationFailed ''Duplicate OperationId detected in plan'')
     else if list_all (\<lambda>dep. dep \<in> insert (op_id p) seen) (dependencies p)
     then validate_ops (insert (op_id p) seen) ps
     else Inl (PlanValidationFailed ''Invalid DAG dependency''))"

definition validate_plan :: "PlannedPlan \<Rightarrow> (unit, CleanerError) result" where
  "validate_plan plan =
    (if length (operations plan) > DEFAULT_MAX_OPERATIONS_PER_PLAN
     then Inl (PlanBudgetExceeded (length (operations plan)) DEFAULT_MAX_OPERATIONS_PER_PLAN)
     else validate_ops {} (operations plan))"

definition planner_init :: PlannerState where
  "planner_init = \<lparr> pst_operations = [], pst_total_reclaim = 0, pst_op_id_counter = 1,
     pst_path_to_op_id = [], pst_defined_ops = {} \<rparr>"

definition plan_state :: "PolicyPermit list \<Rightarrow> PlannerState" where
  "plan_state permits =
    (let dirs = filter (\<lambda>p. cand_is_dir (permit_cand p)) permits;
         files = filter (\<lambda>p. \<not> cand_is_dir (permit_cand p)) permits
     in fold plan_dir (sort_key sort_key_of dirs)
          (fold plan_file (sort_key sort_key_of files) planner_init))"

definition plan_id_of :: "JobId \<Rightarrow> CatalogGeneration \<Rightarrow> PlanId" where
  "plan_id_of j cat = (case (j, cat) of (JobId n, CatalogGeneration m) \<Rightarrow>
    PlanId (Bit_Operations.xor (Bit_Operations.xor (push_bit 16 n) (push_bit 8 m)) 1))"

definition build_plan ::
  "UnixTimestamp \<Rightarrow> JobId \<Rightarrow> CatalogGeneration \<Rightarrow> ConfigGeneration \<Rightarrow> PolicyPermit list
    \<Rightarrow> (PlannedPlan, CleanerError) result" where
  "build_plan now j cat cfg permits =
    (if length permits > DEFAULT_MAX_OPERATIONS_PER_PLAN
     then Inl (PlanBudgetExceeded (length permits) DEFAULT_MAX_OPERATIONS_PER_PLAN)
     else (let st = plan_state permits;
               plan = \<lparr> plan_id = plan_id_of j cat, plan_job_id = j, plan_catalog_generation = cat,
                        plan_config_generation = cfg, operations = pst_operations st,
                        total_estimated_reclaim = pst_total_reclaim st, created_at = now \<rparr>
           in bind_result (validate_plan plan) (\<lambda>_. Inr plan)))"

section \<open>Numbering\<close>

definition op_ids :: "nat \<Rightarrow> OperationId list" where
  "op_ids n = map (\<lambda>i. OperationId (of_nat (Suc i))) [0..<n]"

lemma length_op_ids [simp]: "length (op_ids n) = n"
  by (simp add: op_ids_def)

lemma op_ids_Suc: "op_ids (Suc n) = op_ids n @ [OperationId (of_nat (Suc n))]"
  by (simp add: op_ids_def)

lemma op_id_inj:
  "i < 10000 \<Longrightarrow> j < 10000 \<Longrightarrow> (of_nat (Suc i) :: u64) = of_nat (Suc j) \<longleftrightarrow> i = j"
  by (simp add: word_unat_eq_iff unat_of_nat del: of_nat_Suc)

lemma op_id_mono:
  "i < 10000 \<Longrightarrow> j < 10000 \<Longrightarrow>
    OperationId (of_nat (Suc i)) \<le> OperationId (of_nat (Suc j)) \<longleftrightarrow> i \<le> j"
  by (simp add: less_eq_OperationId_def word_le_nat_alt unat_of_nat del: of_nat_Suc)

lemma distinct_op_ids: "n \<le> 10000 \<Longrightarrow> distinct (op_ids n)"
  by (auto simp: op_ids_def distinct_map inj_on_def op_id_inj simp del: of_nat_Suc)

lemma sorted_op_ids: "n \<le> 10000 \<Longrightarrow> sorted (op_ids n)"
  by (auto simp: op_ids_def sorted_iff_nth_mono op_id_mono simp del: of_nat_Suc)

lemma take_op_ids: "i \<le> n \<Longrightarrow> take i (op_ids n) = op_ids i"
  by (simp add: op_ids_def take_map)

section \<open>The planner's loops\<close>

text \<open>What both loops keep, for the permits \<open>ps\<close> treated so far.\<close>

definition planner_inv :: "PolicyPermit list \<Rightarrow> PlannerState \<Rightarrow> bool" where
  "planner_inv ps st \<longleftrightarrow>
    map op_id (pst_operations st) = op_ids (length ps) \<and>
    pst_op_id_counter st = of_nat (Suc (length ps)) \<and>
    pst_defined_ops st = set (op_ids (length ps)) \<and>
    snd ` set (pst_path_to_op_id st) \<subseteq> set (op_ids (length ps))"

definition permit_key :: "PolicyPermit \<Rightarrow> TargetId \<times> string" where
  "permit_key p = (cand_target_id (permit_cand p), rp_str (cand_rel_path (permit_cand p)))"

definition permit_op_type :: "PolicyPermit \<Rightarrow> OperationType" where
  "permit_op_type p = (let c = permit_cand p in
    if cand_is_dir c then DeleteDirEmpty (cand_target_id c) (cand_rel_path c) (cand_identity c)
    else DeleteFile (cand_target_id c) (cand_rel_path c) (cand_identity c) (cand_size_bytes c))"

lemma planner_inv_init: "planner_inv [] planner_init"
  by (simp add: planner_inv_def planner_init_def op_ids_def)

lemma update_snd_subset: "snd ` set (AList.update k v al) \<subseteq> insert v (snd ` set al)"
  by (induction al) auto

lemma planner_inv_file: "planner_inv ps st \<Longrightarrow> planner_inv (ps @ [p]) (plan_file p st)"
  using update_snd_subset [of "permit_key p" "OperationId (of_nat (Suc (length ps)))" "pst_path_to_op_id st"]
  by (auto simp: planner_inv_def plan_file_def permit_key_def op_ids_Suc Let_def simp del: of_nat_Suc)
    (auto simp: add.commute)

lemma planner_inv_dir: "planner_inv ps st \<Longrightarrow> planner_inv (ps @ [p]) (plan_dir p st)"
  using update_snd_subset [of "permit_key p" "OperationId (of_nat (Suc (length ps)))" "pst_path_to_op_id st"]
  by (auto simp: planner_inv_def plan_dir_def permit_key_def op_ids_Suc Let_def simp del: of_nat_Suc)
    (auto simp: add.commute)

lemma planner_inv_files: "planner_inv ps st \<Longrightarrow> planner_inv (ps @ qs) (fold plan_file qs st)"
proof (induction qs arbitrary: ps st)
  case (Cons q qs)
  then show ?case
    using Cons.IH [OF planner_inv_file [OF Cons.prems, of q]] by simp
qed simp

lemma planner_inv_dirs: "planner_inv ps st \<Longrightarrow> planner_inv (ps @ qs) (fold plan_dir qs st)"
proof (induction qs arbitrary: ps st)
  case (Cons q qs)
  then show ?case
    using Cons.IH [OF planner_inv_dir [OF Cons.prems, of q]] by simp
qed simp

text \<open>The permits in planning order.\<close>

definition planned_order :: "PolicyPermit list \<Rightarrow> PolicyPermit list" where
  "planned_order permits =
    sort_key sort_key_of (filter (\<lambda>p. \<not> cand_is_dir (permit_cand p)) permits) @
    sort_key sort_key_of (filter (\<lambda>p. cand_is_dir (permit_cand p)) permits)"

lemma mset_planned_order: "mset (planned_order permits) = mset permits"
  using multiset_partition [of "mset permits" "\<lambda>p. cand_is_dir (permit_cand p)"]
  by (simp add: planned_order_def mset_filter add.commute)

lemma planner_inv_plan_state: "planner_inv (planned_order permits) (plan_state permits)"
  using planner_inv_dirs [OF planner_inv_files [OF planner_inv_init]]
  by (simp add: plan_state_def planned_order_def Let_def)

section \<open>What is planned\<close>

lemma plan_file_types:
  "\<not> cand_is_dir (permit_cand p) \<Longrightarrow>
    map op_type (pst_operations (plan_file p st)) = map op_type (pst_operations st) @ [permit_op_type p]"
  by (simp add: plan_file_def permit_op_type_def Let_def)

lemma plan_dir_types:
  "cand_is_dir (permit_cand p) \<Longrightarrow>
    map op_type (pst_operations (plan_dir p st)) = map op_type (pst_operations st) @ [permit_op_type p]"
  by (simp add: plan_dir_def permit_op_type_def Let_def)

lemma plan_files_types:
  "\<forall>p\<in>set qs. \<not> cand_is_dir (permit_cand p) \<Longrightarrow>
    map op_type (pst_operations (fold plan_file qs st)) =
      map op_type (pst_operations st) @ map permit_op_type qs"
  by (induction qs arbitrary: st) (simp_all add: plan_file_types)

lemma plan_dirs_types:
  "\<forall>p\<in>set qs. cand_is_dir (permit_cand p) \<Longrightarrow>
    map op_type (pst_operations (fold plan_dir qs st)) =
      map op_type (pst_operations st) @ map permit_op_type qs"
  by (induction qs arbitrary: st) (simp_all add: plan_dir_types)

lemma plan_state_types:
  "map op_type (pst_operations (plan_state permits)) = map permit_op_type (planned_order permits)"
  by (simp add: plan_state_def planned_order_def Let_def plan_files_types plan_dirs_types planner_init_def)

lemma plan_files_total:
  "pst_total_reclaim (fold plan_file qs st) =
    fold (\<lambda>x acc. saturating_add acc x) (map (\<lambda>p. cand_size_bytes (permit_cand p)) qs) (pst_total_reclaim st)"
  by (induction qs arbitrary: st) (simp_all add: plan_file_def Let_def)

lemma plan_dirs_total: "pst_total_reclaim (fold plan_dir qs st) = pst_total_reclaim st"
  by (induction qs arbitrary: st) (simp_all add: plan_dir_def Let_def)

lemma plan_state_total:
  "unat (pst_total_reclaim (plan_state permits)) =
    min (\<Sum>p\<leftarrow>filter (\<lambda>p. \<not> cand_is_dir (permit_cand p)) permits. unat (cand_size_bytes (permit_cand p)))
      (2 ^ 64 - 1)"
proof -
  let ?fs = "filter (\<lambda>p. \<not> cand_is_dir (permit_cand p)) permits"
  let ?sz = "\<lambda>p. unat (cand_size_bytes (permit_cand p))"
  have "sum_list (map ?sz (sort_key sort_key_of ?fs)) = sum_list (map ?sz ?fs)"
  proof -
    have "sum_mset (mset (map ?sz (sort_key sort_key_of ?fs))) = sum_mset (mset (map ?sz ?fs))"
      by simp
    then show ?thesis
      by (simp only: sum_mset_sum_list)
  qed
  then show ?thesis
    by (simp add: plan_state_def Let_def plan_dirs_total plan_files_total unat_fold_saturating_add
        planner_init_def comp_def)
qed

section \<open>Dependencies\<close>

text \<open>Every dependency was numbered before the operation that has it.\<close>

definition deps_precede :: "PlannerState \<Rightarrow> bool" where
  "deps_precede st \<longleftrightarrow>
    (\<forall>i<length (pst_operations st). set (dependencies (pst_operations st ! i)) \<subseteq> set (op_ids i))"

lemma deps_precede_snoc:
  "pst_operations st' = pst_operations st @ [p] \<Longrightarrow>
    deps_precede st' \<longleftrightarrow> deps_precede st \<and> set (dependencies p) \<subseteq> set (op_ids (length (pst_operations st)))"
  by (auto simp: deps_precede_def nth_append less_Suc_eq)

lemma planner_inv_length: "planner_inv ps st \<Longrightarrow> length (pst_operations st) = length ps"
  by (metis length_map length_op_ids planner_inv_def)

lemma plan_files_precede: "deps_precede st \<Longrightarrow> deps_precede (fold plan_file qs st)"
proof (induction qs arbitrary: st)
  case (Cons q qs)
  have "deps_precede (plan_file q st)"
    using Cons.prems by (subst deps_precede_snoc [of _ st]) (auto simp: plan_file_def Let_def)
  with Cons.IH show ?case
    by simp
qed simp

lemma plan_dirs_precede:
  "planner_inv ps st \<Longrightarrow> deps_precede st \<Longrightarrow> deps_precede (fold plan_dir qs st)"
proof (induction qs arbitrary: ps st)
  case (Cons q qs)
  have "deps_precede (plan_dir q st)"
    using Cons.prems planner_inv_length [OF Cons.prems(1)]
    by (subst deps_precede_snoc [of _ st])
      (auto simp: plan_dir_def collect_dependencies_def planner_inv_def Let_def)
  with Cons.IH [OF planner_inv_dir [OF Cons.prems(1)]] show ?case
    by simp
qed simp

lemma plan_state_precede: "deps_precede (plan_state permits)"
proof -
  have "deps_precede planner_init"
    by (simp add: deps_precede_def planner_init_def)
  then show ?thesis
    using plan_dirs_precede [OF planner_inv_files [OF planner_inv_init]] plan_files_precede
    by (simp add: plan_state_def Let_def)
qed

text \<open>Validation accepts exactly the lists whose numbers are new and whose dependencies are on
  operations up to and including their own.\<close>

lemma validate_ops_iff:
  "validate_ops seen ops = Inr () \<longleftrightarrow>
    distinct (map op_id ops) \<and> op_id ` set ops \<inter> seen = {} \<and>
    (\<forall>i<length ops. set (dependencies (ops ! i)) \<subseteq> seen \<union> op_id ` set (take (Suc i) ops))"
proof (induction ops arbitrary: seen)
  case (Cons p ops)
  have tail: "seen \<union> op_id ` set (take (Suc (Suc i)) (p # ops)) =
      insert (op_id p) seen \<union> op_id ` set (take (Suc i) ops)" for i
    by auto
  have head: "seen \<union> op_id ` set (take (Suc 0) (p # ops)) = insert (op_id p) seen"
    by auto
  show ?case
    unfolding validate_ops.simps list.size(4) add_Suc_right add_0_right All_less_Suc2
      nth_Cons_0 nth_Cons_Suc tail head
    by (auto simp: Cons.IH list_all_iff simp del: take_Suc_Cons)
qed simp

lemma plan_state_valid:
  assumes "length permits \<le> 10000"
  shows "validate_ops {} (pst_operations (plan_state permits)) = Inr ()"
proof -
  let ?st = "plan_state permits"
  have inv: "planner_inv (planned_order permits) ?st"
    by (rule planner_inv_plan_state)
  have len: "length (planned_order permits) = length permits"
    using mset_planned_order by (metis size_mset)
  have ids: "map op_id (pst_operations ?st) = op_ids (length permits)"
    using inv len by (simp add: planner_inv_def)
  have "op_id ` set (take (Suc i) (pst_operations ?st)) = set (op_ids (Suc i))"
    if "i < length (pst_operations ?st)" for i
  proof -
    have "i < length permits"
      using that ids by (metis length_map length_op_ids)
    then have "map op_id (take (Suc i) (pst_operations ?st)) = op_ids (Suc i)"
      using ids by (simp only: take_map [symmetric] take_op_ids Suc_le_eq)
    then show ?thesis
      by (metis list.set_map)
  qed
  moreover have "set (dependencies (pst_operations ?st ! i)) \<subseteq> set (op_ids (Suc i))"
    if "i < length (pst_operations ?st)" for i
    using plan_state_precede [of permits] that by (auto simp: deps_precede_def op_ids_Suc)
  ultimately show ?thesis
    using ids distinct_op_ids assms by (simp add: validate_ops_iff)
qed

section \<open>Exact dependencies\<close>

definition op_key :: "PlannedOperation \<Rightarrow> (TargetId \<times> string) option" where
  "op_key p = (case op_type p of
      DeleteFile t r _ _ \<Rightarrow> Some (t, rp_str r)
    | DeleteDirEmpty t r _ \<Rightarrow> Some (t, rp_str r)
    | PruneDirRecursive t r _ \<Rightarrow> Some (t, rp_str r)
    | _ \<Rightarrow> None)"

definition key_beneath :: "TargetId \<times> string \<Rightarrow> TargetId \<times> string \<Rightarrow> bool" where
  "key_beneath a b = (fst a = fst b \<and> prefix (snd b @ ''/'') (snd a))"

text \<open>\<open>a\<close> removes something below the path that \<open>b\<close> removes.\<close>

definition beneath :: "PlannedOperation \<Rightarrow> PlannedOperation \<Rightarrow> bool" where
  "beneath a b = (case (op_key a, op_key b) of (Some x, Some y) \<Rightarrow> key_beneath x y | _ \<Rightarrow> False)"

lemma op_key_type: "op_type p = permit_op_type q \<Longrightarrow> op_key p = Some (permit_key q)"
  by (auto simp: op_key_def permit_op_type_def permit_key_def Let_def split: if_splits)

lemma beneath_keys:
  "op_key a = Some x \<Longrightarrow> op_key b = Some y \<Longrightarrow> beneath a b \<longleftrightarrow> key_beneath x y"
  by (simp add: beneath_def)

lemma key_beneath_deeper:
  "key_beneath a b \<Longrightarrow> path_depth (snd b) < path_depth (snd a)"
  by (auto simp: key_beneath_def path_depth_def prefix_def split_slash_slash)

text \<open>With distinct keys the association list lists the permits with their numbers.\<close>

definition paths_inv :: "PolicyPermit list \<Rightarrow> PlannerState \<Rightarrow> bool" where
  "paths_inv ps st \<longleftrightarrow> pst_path_to_op_id st = zip (map permit_key ps) (op_ids (length ps))"

lemma update_new: "k \<notin> fst ` set al \<Longrightarrow> AList.update k v al = al @ [(k, v)]"
  by (induction al) auto

lemma paths_inv_snoc:
  assumes "paths_inv ps st" "planner_inv ps st" "permit_key p \<notin> permit_key ` set ps"
    and st': "pst_path_to_op_id st' =
      AList.update (permit_key p) (OperationId (pst_op_id_counter st)) (pst_path_to_op_id st)"
  shows "paths_inv (ps @ [p]) st'"
proof -
  have "fst ` set (zip (map permit_key ps) (op_ids (length ps))) = permit_key ` set ps"
  proof -
    have "map fst (zip (map permit_key ps) (op_ids (length ps))) = map permit_key ps"
      by simp
    then show ?thesis
      by (metis list.set_map)
  qed
  then show ?thesis
    using assms by (simp add: paths_inv_def planner_inv_def update_new op_ids_Suc)
qed

lemma plan_file_paths:
  "pst_path_to_op_id (plan_file p st) =
    AList.update (permit_key p) (OperationId (pst_op_id_counter st)) (pst_path_to_op_id st)"
  by (simp add: plan_file_def permit_key_def Let_def)

lemma plan_dir_paths:
  "pst_path_to_op_id (plan_dir p st) =
    AList.update (permit_key p) (OperationId (pst_op_id_counter st)) (pst_path_to_op_id st)"
  by (simp add: plan_dir_def permit_key_def Let_def)

lemma plan_files_paths_inv:
  "paths_inv ps st \<Longrightarrow> planner_inv ps st \<Longrightarrow> distinct (map permit_key (ps @ qs)) \<Longrightarrow>
    paths_inv (ps @ qs) (fold plan_file qs st)"
proof (induction qs arbitrary: ps st)
  case (Cons q qs)
  have "paths_inv (ps @ [q]) (plan_file q st)"
    using Cons.prems by (intro paths_inv_snoc [of ps st]) (auto simp: plan_file_paths)
  then show ?case
    using Cons.IH [OF _ planner_inv_file [OF Cons.prems(2), of q]] Cons.prems(3) by simp
qed simp

text \<open>The numbers of a filtered prefix of the plan are sorted already.\<close>

lemma sort_dedup_sorted: "sorted xs \<Longrightarrow> distinct xs \<Longrightarrow> sort_dedup xs = xs"
  by (simp add: sort_dedup_def sort_key_id_if_sorted remdups_adj_distinct)

lemma filter_zip_sorted:
  "length xs = length ys \<Longrightarrow> sorted ys \<Longrightarrow> distinct ys \<Longrightarrow>
    sorted (map snd (filter P (zip xs ys))) \<and> distinct (map snd (filter P (zip xs ys))) \<and>
    set (map snd (filter P (zip xs ys))) \<subseteq> set ys"
  by (induction xs ys rule: list_induct2) (auto dest: set_zip_rightD)

lemma collect_dependencies_eq:
  assumes "length ps \<le> 10000"
  shows "collect_dependencies (zip (map permit_key ps) (op_ids (length ps))) (set (op_ids (length ps)))
      (permit_cand p) =
    map snd (filter (\<lambda>(k, _). key_beneath k (permit_key p)) (zip (map permit_key ps) (op_ids (length ps))))"
proof -
  let ?z = "zip (map permit_key ps) (op_ids (length ps))"
  let ?f = "map snd (filter (\<lambda>(k, _). key_beneath k (permit_key p)) ?z)"
  have "sorted ?f \<and> distinct ?f \<and> set ?f \<subseteq> set (op_ids (length ps))"
    using assms by (intro filter_zip_sorted) (auto simp: sorted_op_ids distinct_op_ids)
  moreover have "(\<lambda>((t, path), _). t = cand_target_id (permit_cand p) \<and>
      prefix (rp_str (cand_rel_path (permit_cand p)) @ ''/'') path) =
      (\<lambda>(k, _ :: OperationId). key_beneath k (permit_key p))"
    by (auto simp: key_beneath_def permit_key_def fun_eq_iff)
  ultimately show ?thesis
    by (auto simp: collect_dependencies_def Let_def sort_dedup_sorted filter_id_conv)
qed

text \<open>The dependencies of a planned directory, in terms of the operations before it.\<close>

definition dirs_deps :: "PlannerState \<Rightarrow> bool" where
  "dirs_deps st \<longleftrightarrow> (\<forall>i<length (pst_operations st).
    dependencies (pst_operations st ! i) =
      (if OperationType_is_dir (op_type (pst_operations st ! i))
       then map op_id (filter (\<lambda>a. beneath a (pst_operations st ! i)) (take i (pst_operations st)))
       else []))"

lemma dirs_deps_snoc:
  "pst_operations st' = pst_operations st @ [p] \<Longrightarrow>
    dirs_deps st' \<longleftrightarrow> dirs_deps st \<and>
      dependencies p = (if OperationType_is_dir (op_type p)
        then map op_id (filter (\<lambda>a. beneath a p) (pst_operations st)) else [])"
  by (auto simp: dirs_deps_def nth_append less_Suc_eq)

lemma zip_filter_ops:
  assumes "map op_type ops = map permit_op_type ps"
  shows "map snd (filter (\<lambda>(k, _). key_beneath k y) (zip (map permit_key ps) (map op_id ops))) =
    map op_id (filter (\<lambda>a. \<exists>x. op_key a = Some x \<and> key_beneath x y) ops)"
  using assms
proof (induction ops arbitrary: ps)
  case (Cons a ops)
  then obtain q qs where "ps = q # qs" "op_key a = Some (permit_key q)"
    using op_key_type by (cases ps) auto
  with Cons show ?case
    by (cases "permit_key q") auto
qed simp

lemma plan_dir_deps:
  assumes "planner_inv ps st" "paths_inv ps st" "dirs_deps st" "length ps \<le> 10000"
    and types: "map op_type (pst_operations st) = map permit_op_type ps"
    and dir: "cand_is_dir (permit_cand p)"
  shows "dirs_deps (plan_dir p st)"
proof -
  let ?op = "\<lparr> op_id = OperationId (pst_op_id_counter st),
      op_type = DeleteDirEmpty (cand_target_id (permit_cand p)) (cand_rel_path (permit_cand p))
        (cand_identity (permit_cand p)),
      dependencies = collect_dependencies (pst_path_to_op_id st) (pst_defined_ops st) (permit_cand p),
      estimated_reclaim = 0 \<rparr>"
  have ops: "pst_operations (plan_dir p st) = pst_operations st @ [?op]"
    by (simp add: plan_dir_def Let_def)
  have key: "op_key ?op = Some (permit_key p)"
    by (simp add: op_key_def permit_key_def)
  have "dependencies ?op = map snd (filter (\<lambda>(k, _). key_beneath k (permit_key p))
      (zip (map permit_key ps) (map op_id (pst_operations st))))"
    using assms collect_dependencies_eq [of ps p] by (simp add: planner_inv_def paths_inv_def)
  also have "\<dots> = map op_id (filter (\<lambda>a. beneath a ?op) (pst_operations st))"
    unfolding zip_filter_ops [OF types] beneath_def key
    by (auto intro!: arg_cong [of _ _ "map op_id"] filter_cong split: option.splits)
  finally show ?thesis
    using assms(3) by (subst dirs_deps_snoc [OF ops]) (simp add: OperationType_is_dir_def)
qed

lemma plan_files_deps: "dirs_deps st \<Longrightarrow> dirs_deps (fold plan_file qs st)"
proof (induction qs arbitrary: st)
  case (Cons q qs)
  have "dirs_deps (plan_file q st)"
    using Cons.prems
    by (subst dirs_deps_snoc [of _ st]) (auto simp: plan_file_def OperationType_is_dir_def Let_def)
  with Cons.IH show ?case
    by simp
qed simp

lemma plan_dirs_deps:
  assumes "planner_inv ps st" "paths_inv ps st" "dirs_deps st"
    and "map op_type (pst_operations st) = map permit_op_type ps"
    and "length (ps @ qs) \<le> 10000" "distinct (map permit_key (ps @ qs))"
    and "\<forall>q\<in>set qs. cand_is_dir (permit_cand q)"
  shows "dirs_deps (fold plan_dir qs st)"
  using assms
proof (induction qs arbitrary: ps st)
  case (Cons q qs)
  have "dirs_deps (plan_dir q st)"
    using Cons.prems by (intro plan_dir_deps [of ps]) auto
  moreover have "planner_inv (ps @ [q]) (plan_dir q st)"
    using Cons.prems(1) by (rule planner_inv_dir)
  moreover have "paths_inv (ps @ [q]) (plan_dir q st)"
    using Cons.prems by (intro paths_inv_snoc [of ps st]) (auto simp: plan_dir_paths)
  moreover have "map op_type (pst_operations (plan_dir q st)) = map permit_op_type (ps @ [q])"
    using Cons.prems by (simp add: plan_dir_types)
  ultimately show ?case
    using Cons.IH [of "ps @ [q]" "plan_dir q st"] Cons.prems by simp
qed simp

lemma plan_state_deps:
  assumes "length permits \<le> 10000" "distinct (map permit_key permits)"
  shows "dirs_deps (plan_state permits)"
proof -
  let ?fs = "sort_key sort_key_of (filter (\<lambda>p. \<not> cand_is_dir (permit_cand p)) permits)"
  let ?ds = "sort_key sort_key_of (filter (\<lambda>p. cand_is_dir (permit_cand p)) permits)"
  have "mset (map permit_key (planned_order permits)) = mset (map permit_key permits)"
    by (simp add: mset_planned_order)
  then have "distinct (map permit_key (planned_order permits))"
    using assms(2) mset_eq_imp_distinct_iff by blast
  then have dist: "distinct (map permit_key (?fs @ ?ds))"
    by (simp only: planned_order_def)
  have len: "length (?fs @ ?ds) \<le> 10000"
    using assms(1) mset_eq_length [OF mset_planned_order, of permits] by (simp only: planned_order_def)
  let ?st = "fold plan_file ?fs planner_init"
  have "paths_inv [] planner_init" "dirs_deps planner_init"
    by (simp_all add: paths_inv_def dirs_deps_def planner_init_def)
  then have "planner_inv ?fs ?st" "paths_inv ?fs ?st" "dirs_deps ?st"
    using planner_inv_files [OF planner_inv_init, of ?fs] plan_files_deps [of planner_init ?fs]
      plan_files_paths_inv [OF _ planner_inv_init, of ?fs] dist
    by (simp_all only: append_Nil map_append distinct_append simp_thms)
  moreover have "map op_type (pst_operations ?st) = map permit_op_type ?fs"
    by (simp add: plan_files_types planner_init_def)
  moreover have "\<forall>q\<in>set ?ds. cand_is_dir (permit_cand q)"
    by simp
  ultimately have "dirs_deps (fold plan_dir ?ds ?st)"
    using dist len by (intro plan_dirs_deps)
  then show ?thesis
    by (simp only: plan_state_def Let_def)
qed

text \<open>Nothing planned at or after a directory lies beneath it: directories are sorted deepest first.\<close>

lemma later_not_beneath:
  assumes "i \<le> k" "k < length (planned_order permits)"
    and dir: "cand_is_dir (permit_cand (planned_order permits ! i))"
  shows "\<not> key_beneath (permit_key (planned_order permits ! k)) (permit_key (planned_order permits ! i))"
proof
  let ?fs = "sort_key sort_key_of (filter (\<lambda>p. \<not> cand_is_dir (permit_cand p)) permits)"
  let ?ds = "sort_key sort_key_of (filter (\<lambda>p. cand_is_dir (permit_cand p)) permits)"
  assume below: "key_beneath (permit_key (planned_order permits ! k)) (permit_key (planned_order permits ! i))"
  have "\<not> i < length ?fs"
  proof
    assume "i < length ?fs"
    then have "planned_order permits ! i = ?fs ! i" "?fs ! i \<in> set ?fs"
      by (simp_all only: planned_order_def nth_append if_True nth_mem)
    with dir show False
      by simp
  qed
  then obtain i' k' where i': "i = length ?fs + i'" and k': "k = length ?fs + k'" and le: "i' \<le> k'"
    using assms(1) that [of "i - length ?fs" "k - length ?fs"] by linarith
  have "k' < length ?ds"
    using assms(2) k' by (simp add: planned_order_def)
  then have "sort_key_of (?ds ! i') \<le> sort_key_of (?ds ! k')"
    using le sorted_nth_mono [of "map sort_key_of ?ds" i' k'] by simp
  moreover have "planned_order permits ! i = ?ds ! i'" "planned_order permits ! k = ?ds ! k'"
    using i' k' by (simp_all add: planned_order_def nth_append)
  ultimately have "sort_key_of (planned_order permits ! i) \<le> sort_key_of (planned_order permits ! k)"
    by simp
  moreover have "fst (permit_key (planned_order permits ! k)) = fst (permit_key (planned_order permits ! i))"
    using below by (simp add: key_beneath_def)
  ultimately show False
    using key_beneath_deeper [OF below] by (simp add: sort_key_of_def permit_key_def)
qed

lemma length_planned_order: "length (planned_order permits) = length permits"
  by (rule mset_eq_length [OF mset_planned_order])

lemma plan_state_nth:
  assumes "i < length (pst_operations (plan_state permits))"
  shows "i < length permits"
    and "op_key (pst_operations (plan_state permits) ! i) = Some (permit_key (planned_order permits ! i))"
    and "OperationType_is_dir (op_type (pst_operations (plan_state permits) ! i)) \<longleftrightarrow>
      cand_is_dir (permit_cand (planned_order permits ! i))"
proof -
  have "length (pst_operations (plan_state permits)) = length (planned_order permits)"
    using planner_inv_length [OF planner_inv_plan_state] .
  then have i: "i < length (planned_order permits)"
    using assms by simp
  then show "i < length permits"
    by (simp add: length_planned_order)
  have t: "op_type (pst_operations (plan_state permits) ! i) = permit_op_type (planned_order permits ! i)"
    using arg_cong [OF plan_state_types [of permits], of "\<lambda>xs. xs ! i"] i assms by simp
  from op_key_type [OF t]
  show "op_key (pst_operations (plan_state permits) ! i) = Some (permit_key (planned_order permits ! i))" .
  show "OperationType_is_dir (op_type (pst_operations (plan_state permits) ! i)) \<longleftrightarrow>
      cand_is_dir (permit_cand (planned_order permits ! i))"
    by (simp add: t permit_op_type_def OperationType_is_dir_def Let_def)
qed

lemma plan_state_later_not_beneath:
  assumes "i < length (pst_operations (plan_state permits))"
    and "OperationType_is_dir (op_type (pst_operations (plan_state permits) ! i))"
    and "a \<in> set (drop i (pst_operations (plan_state permits)))"
  shows "\<not> beneath a (pst_operations (plan_state permits) ! i)"
proof -
  let ?ops = "pst_operations (plan_state permits)"
  obtain k where k: "i \<le> k" "k < length ?ops" "a = ?ops ! k"
    using assms(3) by (auto simp: set_conv_nth) (metis add.commute le_add2 less_diff_conv)
  have "\<not> key_beneath (permit_key (planned_order permits ! k)) (permit_key (planned_order permits ! i))"
    using k plan_state_nth(1) [OF k(2)] plan_state_nth(3) [OF assms(1)] assms(2)
    by (intro later_not_beneath) (simp_all add: length_planned_order)
  then show ?thesis
    using beneath_keys [OF plan_state_nth(2) [OF k(2)] plan_state_nth(2) [OF assms(1)]] k(3) by simp
qed

lemma build_plan_Inr:
  assumes "build_plan now j cat cfg permits = Inr plan"
  shows "length permits \<le> 10000" and "operations plan = pst_operations (plan_state permits)"
    and "total_estimated_reclaim plan = pst_total_reclaim (plan_state permits)"
    and "plan_job_id plan = j" "plan_catalog_generation plan = cat" "plan_config_generation plan = cfg"
    and "plan_id plan = plan_id_of j cat"
  using assms
  by (auto simp: build_plan_def DEFAULT_MAX_OPERATIONS_PER_PLAN_def Let_def split: if_splits)

lemma build_plan_total:
  assumes "length permits \<le> 10000"
  shows "\<exists>plan. build_plan now j cat cfg permits = Inr plan"
  using assms plan_state_valid [OF assms] planner_inv_length [OF planner_inv_plan_state, of permits]
  by (simp add: build_plan_def validate_plan_def DEFAULT_MAX_OPERATIONS_PER_PLAN_def Let_def
      length_planned_order)

section \<open>Properties\<close>



definition example_permit :: "bool \<Rightarrow> string \<Rightarrow> u64 \<Rightarrow> PolicyPermit" where
  "example_permit dir rel ino =
    \<lparr> pp_candidate = SafetyValidatedCandidate_new 5
        ((example_candidate rel)\<lparr>cand_is_dir := dir, cand_identity := \<lparr> fid_dev = 7, fid_ino = ino \<rparr>\<rparr>) 7 11,
      pp_priority = 100, pp_reason = ExceedsRetentionAge, pp_decided_at = 5 \<rparr>"

lemmas plan_eval = build_plan_def plan_state_def planner_init_def plan_file_def plan_dir_def
  collect_dependencies_def sort_dedup_def validate_plan_def plan_id_of_def permit_cand_def
  sort_key_of_def path_depth_def example_permit_def example_candidate_def
  SafetyValidatedCandidate_new_def DEFAULT_MAX_OPERATIONS_PER_PLAN_def Let_def

definition example_plan :: PlannedPlan where
  "example_plan = (case build_plan 6 (JobId 1) (CatalogGeneration 1) (ConfigGeneration 1)
     [example_permit True ''d'' 20, example_permit False ''d/f'' 21] of Inr p \<Rightarrow> p
     | Inl _ \<Rightarrow> PlannedPlan_empty 6 (JobId 1) (CatalogGeneration 1) (ConfigGeneration 1))"

lemma example_plan_built:
  "build_plan 6 (JobId 1) (CatalogGeneration 1) (ConfigGeneration 1)
     [example_permit True ''d'' 20, example_permit False ''d/f'' 21] = Inr example_plan"
  using build_plan_total [of "[example_permit True ''d'' 20, example_permit False ''d/f'' 21]" 6
      "JobId 1" "CatalogGeneration 1" "ConfigGeneration 1"]
  by (auto simp: example_plan_def)

lemma example_plan_ops:
  "operations example_plan =
    [\<lparr> op_id = OperationId 1, op_type = DeleteFile (TargetId ''t'') (RelativePath ''d/f'')
         \<lparr> fid_dev = 7, fid_ino = 21 \<rparr> 4096, dependencies = [], estimated_reclaim = 4096 \<rparr>,
     \<lparr> op_id = OperationId 2, op_type = DeleteDirEmpty (TargetId ''t'') (RelativePath ''d'')
         \<lparr> fid_dev = 7, fid_ino = 20 \<rparr>, dependencies = [OperationId 1], estimated_reclaim = 0 \<rparr>]"
  using build_plan_Inr(2) [OF example_plan_built] by (simp add: plan_eval)


lemma inj_sort_key_of:
  "distinct (map permit_key ps) \<Longrightarrow> inj_on sort_key_of (set ps)"
proof (rule inj_onI)
  fix x y
  assume d: "distinct (map permit_key ps)" and xy: "x \<in> set ps" "y \<in> set ps"
    and "sort_key_of x = sort_key_of y"
  then have "permit_key x = permit_key y"
    by (simp add: sort_key_of_def permit_key_def TargetId.expand)
  with d xy show "x = y"
    by (auto simp: distinct_map dest: inj_onD)
qed

text \<open>The plan is canonical: permuting the permits, with no two for the same path of the same
  target, gives the same plan.\<close>

theorem build_plan_order_independent:
  assumes "mset permits = mset permits'" "distinct (map permit_key permits)"
  shows "build_plan now j cat cfg permits = build_plan now j cat cfg permits'"
proof -
  have "sort_key sort_key_of (filter P permits) = sort_key sort_key_of (filter P permits')" for P
  proof (rule sort_key_inj_key_eq)
    show "mset (filter P permits) = mset (sort_key sort_key_of (filter P permits'))"
      using assms(1) by (simp add: mset_filter)
    show "inj_on sort_key_of (set (filter P permits))"
      using inj_sort_key_of [OF assms(2)] by (rule inj_on_subset) auto
  qed simp
  then have "plan_state permits = plan_state permits'"
    by (simp add: plan_state_def)
  then show ?thesis
    using mset_eq_length [OF assms(1)] by (simp add: build_plan_def)
qed

theorem build_plan_order_independent_witness:
  "build_plan 6 (JobId 1) (CatalogGeneration 1) (ConfigGeneration 1)
     [example_permit False ''d/f'' 21, example_permit True ''d'' 20] = Inr example_plan"
proof -
  have "mset [example_permit False ''d/f'' 21, example_permit True ''d'' 20] =
      mset [example_permit True ''d'' 20, example_permit False ''d/f'' 21]"
    by simp
  moreover have "distinct (map permit_key [example_permit False ''d/f'' 21, example_permit True ''d'' 20])"
    by (simp add: permit_key_def plan_eval)
  ultimately show ?thesis
    using build_plan_order_independent example_plan_built by metis
qed

end
