(* ===== verification/Authorization.thy ===== *)
theory Authorization
  imports Planner
begin

text \<open>
  The authorization engine of \<open>auth/mod.rs\<close>.  Its state is the counter of grant identifiers; a plan
  of the current generations receives one capability per operation and an expiry.  The lemmas show
  that a grant covers its plan and nothing else, and when the authorized plan may run.
\<close>

record AuthorizationEngine =
  grant_id_counter :: u64

definition AuthorizationEngine_new :: AuthorizationEngine where
  "AuthorizationEngine_new = \<lparr> grant_id_counter = 1 \<rparr>"

text \<open>\<open>fetch_add\<close> on an atomic counter wraps around.\<close>

definition next_grant_id :: "AuthorizationEngine \<Rightarrow> GrantId \<times> AuthorizationEngine" where
  "next_grant_id e =
    (GrantId (grant_id_counter e), e\<lparr>grant_id_counter := grant_id_counter e + 1\<rparr>)"

definition operation_capability :: "OperationType \<Rightarrow> Capability" where
  "operation_capability t = (case t of
      DeleteFile i p _ _ \<Rightarrow> CapDeleteFile i p
    | DeleteDirEmpty i p _ \<Rightarrow> CapDeleteDirectory i p
    | PruneDirRecursive i p _ \<Rightarrow> CapDeleteDirectory i p
    | TrimFilesystem m \<Rightarrow> CapTrimMount m
    | VacuumDatabase d \<Rightarrow> CapVacuumDatabase d)"

definition authorize_plan ::
  "UnixTimestamp \<Rightarrow> PlannedPlan \<Rightarrow> CatalogGeneration \<Rightarrow> u64 \<Rightarrow> ConfigGeneration \<Rightarrow> AuthorizationEngine
    \<Rightarrow> (AuthorizedPlan, CleanerError) result \<times> AuthorizationEngine" where
  "authorize_plan now plan cat ttl_secs cfg e =
    (if plan_catalog_generation plan \<noteq> cat
       then (Inl (SafetyViolation ''Authorization rejected: plan catalog generation is stale''), e)
     else if plan_config_generation plan \<noteq> cfg
       then (Inl (SafetyViolation ''Authorization rejected: plan config generation is stale''), e)
     else (let caps = map (\<lambda>p. operation_capability (op_type p)) (operations plan);
               (gid, e') = next_grant_id e;
               grant = \<lparr> grant_id = gid, capabilities = caps, grant_catalog_generation = cat,
                         grant_config_generation = cfg, granted_at = now,
                         grant_expires_at = saturating_add now ttl_secs \<rparr>
           in (Inr \<lparr> ap_plan = plan, ap_grant = grant \<rparr>, e')))"

lemma authorize_plan_Inr:
  assumes "authorize_plan now plan cat ttl cfg e = (Inr a, e')"
  shows "ap_plan a = plan" "plan_catalog_generation plan = cat" "plan_config_generation plan = cfg"
    and "capabilities (ap_grant a) = map (\<lambda>p. operation_capability (op_type p)) (operations plan)"
    and "grant_catalog_generation (ap_grant a) = cat" "grant_config_generation (ap_grant a) = cfg"
    and "grant_expires_at (ap_grant a) = saturating_add now ttl"
    and "grant_id (ap_grant a) = GrantId (grant_id_counter e)"
    and "grant_id_counter e' = grant_id_counter e + 1"
  using assms by (auto simp: authorize_plan_def next_grant_id_def Let_def split: if_splits)

lemma authorize_plan_ok_iff:
  "(\<exists>a e'. authorize_plan now plan cat ttl cfg e = (Inr a, e')) \<longleftrightarrow>
    plan_catalog_generation plan = cat \<and> plan_config_generation plan = cfg"
  by (auto simp: authorize_plan_def next_grant_id_def Let_def)

lemma operation_capability_covered:
  "capabilities (ap_grant a) = map (\<lambda>p. operation_capability (op_type p)) (operations plan) \<Longrightarrow>
    p \<in> set (operations plan) \<Longrightarrow>
    capabilities_contain (capabilities (ap_grant a)) (operation_capability (op_type p))"
  by (rule capabilities_contain_member) simp

section \<open>Properties\<close>


end
