(* ===== verification/Resource_Manager.thy ===== *)
theory Resource_Manager
  imports Domain_Entities Rate_Limiter
begin

text \<open>
  The resource manager of \<open>resource/mod.rs\<close>: a pool of file-descriptor permits, exclusive locks on
  targets, storages and mounts identified by reservation numbers, and the rate limiter.  A permit is
  the value its holder keeps; dropping it is the release operation.  The three lock tables share one
  contract, stated as a locale whose client lemma is mutual exclusion for any sequence of operations,
  and each table is an interpretation of it.
\<close>

datatype ReservationId = ReservationId u64
datatype StorageId = StorageId string
datatype MountId = MountId string

record ResourceManager =
  active_fds :: nat
  max_fds :: nat
  locked_targets :: "TargetId \<Rightarrow> (AttemptId \<times> ReservationId) option"
  locked_storages :: "StorageId \<Rightarrow> ReservationId option"
  locked_mounts :: "MountId \<Rightarrow> ReservationId option"
  reservation_counter :: u64
  rate_limiter :: BucketState

definition ResourceManager_new :: "rat \<Rightarrow> nat \<Rightarrow> ThrottleMode \<Rightarrow> ResourceManager" where
  "ResourceManager_new now n m =
    \<lparr> active_fds = 0, max_fds = n, locked_targets = (\<lambda>_. None), locked_storages = (\<lambda>_. None),
      locked_mounts = (\<lambda>_. None), reservation_counter = 1, rate_limiter = TokenBucket_new now m \<rparr>"

section \<open>File-descriptor permits\<close>

text \<open>What a waiting thread sees at one wake-up: the number of permits other threads hold then,
  whether the wait timed out, and whether the deadline has passed at the loop's next test.\<close>

record FdWake =
  wake_active :: nat
  wake_timed_out :: bool
  wake_deadline_passed :: bool

text \<open>The waiting loop.  A script that runs out stands for a wait that ends at the deadline.\<close>

fun fd_wait :: "FdWake list \<Rightarrow> bool \<Rightarrow> nat \<Rightarrow> nat \<Rightarrow> (unit, CleanerError) result \<times> nat" where
  "fd_wait ws passed active limit =
    (if active < limit then (Inr (), active + 1)
     else if passed
     then (Inl (ResourceExhausted ''maximum concurrent FD limit reached after waiting''), active)
     else case ws of
       [] \<Rightarrow> (Inl (ResourceExhausted ''maximum concurrent FD limit reached after waiting''), active)
     | w # ws' \<Rightarrow>
         if wake_timed_out w \<and> wake_active w \<ge> limit
         then (Inl (ResourceExhausted ''maximum concurrent FD limit reached''), wake_active w)
         else fd_wait ws' (wake_deadline_passed w) (wake_active w) limit)"

declare fd_wait.simps [simp del]

text \<open>The pool afterwards counts the permits seen at the last wake-up, plus the new one on success.\<close>

definition acquire_fd_permit_timeout ::
  "FdWake list \<Rightarrow> bool \<Rightarrow> ResourceManager \<Rightarrow> (unit, CleanerError) result \<times> ResourceManager" where
  "acquire_fd_permit_timeout ws passed rm =
    (case fd_wait ws passed (active_fds rm) (max_fds rm) of
       (r, n) \<Rightarrow> (r, rm\<lparr>active_fds := n\<rparr>))"

definition drop_fd_permit :: "ResourceManager \<Rightarrow> ResourceManager" where
  "drop_fd_permit rm = rm\<lparr>active_fds := active_fds rm - 1\<rparr>"

lemma fd_wait_result:
  "fd_wait ws p active limit = (r, n) \<Longrightarrow>
    (case r of Inr _ \<Rightarrow> 0 < n \<and> n \<le> limit | Inl e \<Rightarrow> limit \<le> n \<and> (\<exists>m. e = ResourceExhausted m))"
proof (induction ws arbitrary: p active)
  case Nil
  then show ?case
    by (auto simp: fd_wait.simps [of "[]"] split: if_splits)
next
  case (Cons w ws)
  then show ?case
    by (auto simp: fd_wait.simps [of "w # ws"] split: if_splits)
qed

lemma fd_wait_free: "active < limit \<Longrightarrow> fd_wait ws p active limit = (Inr (), active + 1)"
  by (simp add: fd_wait.simps)

section \<open>Exclusive locks\<close>

definition next_reservation :: "ResourceManager \<Rightarrow> ReservationId \<times> ResourceManager" where
  "next_reservation rm =
    (ReservationId (reservation_counter rm),
     rm\<lparr>reservation_counter := reservation_counter rm + 1\<rparr>)"

definition acquire_target_lock_for_attempt ::
  "TargetId \<Rightarrow> AttemptId \<Rightarrow> ResourceManager \<Rightarrow> (ReservationId, CleanerError) result \<times> ResourceManager" where
  "acquire_target_lock_for_attempt t a rm =
    (case locked_targets rm t of
       Some _ \<Rightarrow> (Inl (SafetyViolation ''Concurrent mutation collision: Target is already locked''), rm)
     | None \<Rightarrow>
         (let (r, rm1) = next_reservation rm
          in (Inr r, rm1\<lparr>locked_targets := (locked_targets rm1)(t := Some (a, r))\<rparr>)))"

definition acquire_target_lock ::
  "TargetId \<Rightarrow> ResourceManager \<Rightarrow> (ReservationId, CleanerError) result \<times> ResourceManager" where
  "acquire_target_lock t rm = acquire_target_lock_for_attempt t (AttemptId 0) rm"

definition drop_target_lock :: "TargetId \<Rightarrow> ReservationId \<Rightarrow> ResourceManager \<Rightarrow> ResourceManager" where
  "drop_target_lock t r rm =
    (case locked_targets rm t of
       Some (_, r') \<Rightarrow> if r' = r then rm\<lparr>locked_targets := (locked_targets rm)(t := None)\<rparr> else rm
     | None \<Rightarrow> rm)"

definition acquire_storage_lock ::
  "StorageId \<Rightarrow> ResourceManager \<Rightarrow> (ReservationId, CleanerError) result \<times> ResourceManager" where
  "acquire_storage_lock s rm =
    (if locked_storages rm s \<noteq> None
     then (Inl (SafetyViolation ''Storage is already locked''), rm)
     else (let (r, rm1) = next_reservation rm
           in (Inr r, rm1\<lparr>locked_storages := (locked_storages rm1)(s := Some r)\<rparr>)))"

definition drop_storage_lock :: "StorageId \<Rightarrow> ReservationId \<Rightarrow> ResourceManager \<Rightarrow> ResourceManager" where
  "drop_storage_lock s r rm =
    (case locked_storages rm s of
       Some r' \<Rightarrow> if r' = r then rm\<lparr>locked_storages := (locked_storages rm)(s := None)\<rparr> else rm
     | None \<Rightarrow> rm)"

definition acquire_mount_lock ::
  "MountId \<Rightarrow> ResourceManager \<Rightarrow> (ReservationId, CleanerError) result \<times> ResourceManager" where
  "acquire_mount_lock m rm =
    (if locked_mounts rm m \<noteq> None
     then (Inl (SafetyViolation ''Mount is already locked''), rm)
     else (let (r, rm1) = next_reservation rm
           in (Inr r, rm1\<lparr>locked_mounts := (locked_mounts rm1)(m := Some r)\<rparr>)))"

definition drop_mount_lock :: "MountId \<Rightarrow> ReservationId \<Rightarrow> ResourceManager \<Rightarrow> ResourceManager" where
  "drop_mount_lock m r rm =
    (case locked_mounts rm m of
       Some r' \<Rightarrow> if r' = r then rm\<lparr>locked_mounts := (locked_mounts rm)(m := None)\<rparr> else rm
     | None \<Rightarrow> rm)"

definition is_target_locked :: "ResourceManager \<Rightarrow> TargetId \<Rightarrow> bool" where
  "is_target_locked rm t = (locked_targets rm t \<noteq> None)"

text \<open>\<open>throttle_mutation\<close> discards the limiter's answer.\<close>

definition throttle_mutation :: "rat list \<Rightarrow> ResourceManager \<Rightarrow> ResourceManager" where
  "throttle_mutation instants rm = rm\<lparr>rate_limiter := snd (acquire instants (rate_limiter rm))\<rparr>"

definition set_throttle_mode :: "ThrottleMode \<Rightarrow> ResourceManager \<Rightarrow> ResourceManager" where
  "set_throttle_mode m rm = rm\<lparr>rate_limiter := set_mode m (rate_limiter rm)\<rparr>"

section \<open>The contract of a lock table\<close>

text \<open>Operations on one table, as any thread may issue them.\<close>

datatype 'k lock_op = LockAcquire 'k | LockDrop 'k ReservationId

fun run_lock_op ::
  "('k \<Rightarrow> 's \<Rightarrow> (ReservationId, CleanerError) result \<times> 's) \<Rightarrow> ('k \<Rightarrow> ReservationId \<Rightarrow> 's \<Rightarrow> 's)
    \<Rightarrow> 'k lock_op \<Rightarrow> 's \<Rightarrow> 's" where
  "run_lock_op acq rel (LockAcquire k) s = snd (acq k s)"
| "run_lock_op acq rel (LockDrop k r) s = rel k r s"

definition run_locks ::
  "('k \<Rightarrow> 's \<Rightarrow> (ReservationId, CleanerError) result \<times> 's) \<Rightarrow> ('k \<Rightarrow> ReservationId \<Rightarrow> 's \<Rightarrow> 's)
    \<Rightarrow> 'k lock_op list \<Rightarrow> 's \<Rightarrow> 's" where
  "run_locks acq rel ops s = fold (run_lock_op acq rel) ops s"

text \<open>\<open>holder s k\<close> is the reservation that holds \<open>k\<close>.\<close>

locale lock_table =
  fixes holder :: "'s \<Rightarrow> 'k \<Rightarrow> ReservationId option"
    and acq :: "'k \<Rightarrow> 's \<Rightarrow> (ReservationId, CleanerError) result \<times> 's"
    and rel :: "'k \<Rightarrow> ReservationId \<Rightarrow> 's \<Rightarrow> 's"
  assumes acq_free: "holder s k = None \<Longrightarrow> acq k s = (x, s') \<Longrightarrow>
      \<exists>r. x = Inr r \<and> holder s' = (holder s)(k := Some r)"
    and acq_held: "holder s k = Some r \<Longrightarrow> \<exists>e. acq k s = (Inl e, s)"
    and rel_holder: "holder (rel k r s) = (if holder s k = Some r then (holder s)(k := None) else holder s)"
begin

lemma holder_kept:
  assumes "holder s k = Some r" "oper \<noteq> LockDrop k r"
  shows "holder (run_lock_op acq rel oper s) k = Some r"
proof (cases oper)
  case (LockAcquire k')
  obtain x s' where acq: "acq k' s = (x, s')"
    by (cases "acq k' s")
  show ?thesis
  proof (cases "holder s k'")
    case None
    then show ?thesis
      using acq_free [OF None acq] assms LockAcquire acq by auto
  next
    case (Some r')
    then show ?thesis
      using acq_held [OF Some] assms LockAcquire by auto
  qed
next
  case (LockDrop k' r')
  then show ?thesis
    using assms by (auto simp: rel_holder)
qed

lemma holder_kept_run:
  "holder s k = Some r \<Longrightarrow> LockDrop k r \<notin> set ops \<Longrightarrow> holder (run_locks acq rel ops s) k = Some r"
  unfolding run_locks_def by (induction ops arbitrary: s) (auto simp: holder_kept)

text \<open>Between an acquisition and the drop of its permit nobody else gets the lock, and afterwards it
  is free.\<close>

lemma mutual_exclusion:
  assumes "acq k s = (Inr r, s1)" "LockDrop k r \<notin> set ops"
  shows "holder (run_locks acq rel ops s1) k = Some r \<and>
    (\<exists>e. acq k (run_locks acq rel ops s1) = (Inl e, run_locks acq rel ops s1)) \<and>
    holder (rel k r (run_locks acq rel ops s1)) k = None"
proof -
  have "holder s k = None"
    using assms(1) acq_held [of s k] by (cases "holder s k") auto
  then have "holder s1 k = Some r"
    using acq_free [OF _ assms(1)] by auto
  then have kept: "holder (run_locks acq rel ops s1) k = Some r"
    using assms(2) by (rule holder_kept_run)
  then show ?thesis
    using acq_held [OF kept] by (simp add: rel_holder)
qed

end

definition target_holder :: "ResourceManager \<Rightarrow> TargetId \<Rightarrow> ReservationId option" where
  "target_holder rm t = map_option snd (locked_targets rm t)"

interpretation target_locks: lock_table target_holder "\<lambda>t. acquire_target_lock_for_attempt t a" drop_target_lock
  by unfold_locales
    (auto simp: target_holder_def acquire_target_lock_for_attempt_def drop_target_lock_def
      next_reservation_def fun_eq_iff Let_def split: option.splits)

interpretation storage_locks: lock_table locked_storages acquire_storage_lock drop_storage_lock
  by unfold_locales
    (auto simp: acquire_storage_lock_def drop_storage_lock_def next_reservation_def fun_eq_iff Let_def
      split: option.splits)

interpretation mount_locks: lock_table locked_mounts acquire_mount_lock drop_mount_lock
  by unfold_locales
    (auto simp: acquire_mount_lock_def drop_mount_lock_def next_reservation_def fun_eq_iff Let_def
      split: option.splits)

lemma is_target_locked_holder: "is_target_locked rm t \<longleftrightarrow> target_holder rm t \<noteq> None"
  by (simp add: is_target_locked_def target_holder_def)

section \<open>Properties\<close>

text \<open>Once an attempt holds the lock on a target, it keeps it through any sequence of
  acquisitions and of drops of other reservations on any targets, every further acquisition of that
  target is refused and changes nothing, and dropping its own reservation frees the target.  In
  particular a stale permit cannot release a lock that somebody else has taken since.\<close>

theorem target_lock_exclusive:
  assumes "acquire_target_lock_for_attempt t a rm = (Inr r, rm1)" "LockDrop t r \<notin> set ops"
  shows "let rm2 = run_locks (\<lambda>k. acquire_target_lock_for_attempt k b) drop_target_lock ops rm1
    in target_holder rm2 t = Some r \<and>
       (\<exists>e. acquire_target_lock_for_attempt t c rm2 = (Inl e, rm2)) \<and>
       \<not> is_target_locked (drop_target_lock t r rm2) t"
proof -
  have "target_holder rm1 t = Some r"
    using assms(1)
    by (auto simp: acquire_target_lock_for_attempt_def target_holder_def next_reservation_def Let_def
        split: option.splits)
  note kept = target_locks.holder_kept_run [OF this assms(2), of b]
  show ?thesis
    unfolding Let_def
    using kept target_locks.acq_held [OF kept, of c]
    by (simp add: is_target_locked_holder target_locks.rel_holder del: not_None_eq)
qed

theorem target_lock_exclusive_witness:
  "let rm0 = ResourceManager_new 0 64 TNormal;
       rm1 = snd (acquire_target_lock_for_attempt (TargetId ''a'') (AttemptId 1) rm0);
       rm2 = run_locks (\<lambda>k. acquire_target_lock_for_attempt k (AttemptId 2)) drop_target_lock
         [LockAcquire (TargetId ''a''), LockDrop (TargetId ''a'') (ReservationId 9)] rm1
   in target_holder rm2 (TargetId ''a'') = Some (ReservationId 1)"
proof -
  let ?rm1 = "snd (acquire_target_lock_for_attempt (TargetId ''a'') (AttemptId 1) (ResourceManager_new 0 64 TNormal))"
  have "acquire_target_lock_for_attempt (TargetId ''a'') (AttemptId 1) (ResourceManager_new 0 64 TNormal) =
      (Inr (ReservationId 1), ?rm1)"
    by (simp add: acquire_target_lock_for_attempt_def ResourceManager_new_def next_reservation_def)
  from target_lock_exclusive [OF this, of "[LockAcquire (TargetId ''a''), LockDrop (TargetId ''a'') (ReservationId 9)]" "AttemptId 2"]
  show ?thesis
    by (simp add: Let_def)
qed

text \<open>A descriptor permit is granted only when fewer permits than the limit are out, at the
  start or at the wake-up after which it is granted, so a grant never takes the count over the limit;
  it is refused only when the limit is reached, with the exhaustion error; a pool with room grants
  without waiting, and dropping the permit then restores the count.\<close>

theorem fd_pool_bounded:
  "case acquire_fd_permit_timeout ws passed rm of
     (Inr _, rm') \<Rightarrow> 0 < active_fds rm' \<and> active_fds rm' \<le> max_fds rm \<and>
       (if active_fds rm < max_fds rm then drop_fd_permit rm' = rm else True)
   | (Inl e, rm') \<Rightarrow> max_fds rm \<le> active_fds rm' \<and> max_fds rm \<le> active_fds rm \<and>
       (\<exists>m. e = ResourceExhausted m)"
proof (cases "active_fds rm < max_fds rm")
  case True
  have "rm\<lparr>active_fds := active_fds rm\<rparr> = rm"
    by (cases rm) simp
  with True show ?thesis
    by (simp add: acquire_fd_permit_timeout_def drop_fd_permit_def fd_wait_free)
next
  case False
  obtain r n where wait: "fd_wait ws passed (active_fds rm) (max_fds rm) = (r, n)"
    by (cases "fd_wait ws passed (active_fds rm) (max_fds rm)")
  from fd_wait_result [OF wait] show ?thesis
    using False by (cases r) (simp_all add: acquire_fd_permit_timeout_def wait)
qed

end
