(* ===== verification/Safe_Fs.thy ===== *)
theory Safe_Fs
  imports Domain_Entities
begin

text \<open>
  The descriptor-based file access of \<open>fs/mod.rs\<close>.  The kernel is a parameter: one function per system
  call, over descriptors \<open>'h\<close> and a world \<open>'w\<close> that each call may change, so that other processes may
  act between any two calls.  The process keeps the flag \<open>OPENAT2_SUPPORTED\<close> and, for the theorems, the
  log of its calls with their answers.  The lemmas show what the code guarantees whatever the kernel
  answers: every name passed down is a single component, an object is unlinked only right after its
  identity was read and found as expected, a child handle is on its parent's device, and the plain
  \<open>openat\<close> is used only where \<open>openat2\<close> does not exist.
\<close>

record Stat =
  st_dev :: u64
  st_ino :: u64
  st_size :: int
  st_mtime :: int

datatype FileType = FtRegular | FtDirectory | FtSymlink | FtOther

record ('h, 'w) Kernel =
  k_open :: "string \<Rightarrow> 'w \<Rightarrow> ('h, errno) result \<times> 'w"
  k_fstat :: "'h \<Rightarrow> 'w \<Rightarrow> (Stat, errno) result \<times> 'w"
  k_statat :: "'h \<Rightarrow> string \<Rightarrow> 'w \<Rightarrow> (Stat, errno) result \<times> 'w"
  k_openat2 :: "'h \<Rightarrow> string \<Rightarrow> 'w \<Rightarrow> ('h, errno) result \<times> 'w"
  k_openat :: "'h \<Rightarrow> string \<Rightarrow> 'w \<Rightarrow> ('h, errno) result \<times> 'w"
  k_getdents :: "'h \<Rightarrow> 'w \<Rightarrow> (string \<times> FileType, errno) result list \<times> 'w"
  k_unlinkat :: "'h \<Rightarrow> string \<Rightarrow> bool \<Rightarrow> 'w \<Rightarrow> (unit, errno) result \<times> 'w"

datatype 'h SysEvent =
    SysOpen string "('h, errno) result"
  | SysFstat 'h "(FileIdentity, errno) result"
  | SysStat 'h string "(FileIdentity, errno) result"
  | SysOpenat2 'h string "('h, errno) result"
  | SysOpenat 'h string "('h, errno) result"
  | SysGetdents 'h
  | SysUnlink 'h string bool "(unit, errno) result"

record ('h, 'w) Proc =
  world :: 'w
  openat2_supported :: bool
  sys_log :: "'h SysEvent list"

abbreviation EPERM :: errno where "EPERM \<equiv> 1"
abbreviation ENOENT :: errno where "ENOENT \<equiv> 2"
abbreviation EIO :: errno where "EIO \<equiv> 5"
abbreviation EACCES :: errno where "EACCES \<equiv> 13"
abbreviation EBUSY :: errno where "EBUSY \<equiv> 16"
abbreviation EXDEV :: errno where "EXDEV \<equiv> 18"
abbreviation ENOTDIR :: errno where "ENOTDIR \<equiv> 20"
abbreviation EINVAL :: errno where "EINVAL \<equiv> 22"
abbreviation EROFS :: errno where "EROFS \<equiv> 30"
abbreviation ENOSYS :: errno where "ENOSYS \<equiv> 38"
abbreviation ELOOP :: errno where "ELOOP \<equiv> 40"
abbreviation ESTALE :: errno where "ESTALE \<equiv> 116"

definition stat_identity :: "Stat \<Rightarrow> FileIdentity" where
  "stat_identity st = FileIdentity_new (st_dev st) (st_ino st)"

section \<open>System calls with their log\<close>

definition log_event :: "'h SysEvent \<Rightarrow> 'w \<Rightarrow> ('h, 'w) Proc \<Rightarrow> ('h, 'w) Proc" where
  "log_event e w p = p\<lparr>world := w, sys_log := sys_log p @ [e]\<rparr>"

definition sys_open :: "('h, 'w) Kernel \<Rightarrow> string \<Rightarrow> ('h, 'w) Proc \<Rightarrow> ('h, errno) result \<times> ('h, 'w) Proc" where
  "sys_open K path p =
    (case k_open K path (world p) of (r, w) \<Rightarrow> (r, log_event (SysOpen path r) w p))"

definition sys_fstat :: "('h, 'w) Kernel \<Rightarrow> 'h \<Rightarrow> ('h, 'w) Proc \<Rightarrow> (Stat, errno) result \<times> ('h, 'w) Proc" where
  "sys_fstat K h p =
    (case k_fstat K h (world p) of (r, w) \<Rightarrow> (r, log_event (SysFstat h (map_sum id stat_identity r)) w p))"

definition sys_statat ::
  "('h, 'w) Kernel \<Rightarrow> 'h \<Rightarrow> string \<Rightarrow> ('h, 'w) Proc \<Rightarrow> (Stat, errno) result \<times> ('h, 'w) Proc" where
  "sys_statat K h name p =
    (case k_statat K h name (world p) of (r, w) \<Rightarrow>
      (r, log_event (SysStat h name (map_sum id stat_identity r)) w p))"

definition sys_openat2 ::
  "('h, 'w) Kernel \<Rightarrow> 'h \<Rightarrow> string \<Rightarrow> ('h, 'w) Proc \<Rightarrow> ('h, errno) result \<times> ('h, 'w) Proc" where
  "sys_openat2 K h name p =
    (case k_openat2 K h name (world p) of (r, w) \<Rightarrow> (r, log_event (SysOpenat2 h name r) w p))"

definition sys_openat ::
  "('h, 'w) Kernel \<Rightarrow> 'h \<Rightarrow> string \<Rightarrow> ('h, 'w) Proc \<Rightarrow> ('h, errno) result \<times> ('h, 'w) Proc" where
  "sys_openat K h name p =
    (case k_openat K h name (world p) of (r, w) \<Rightarrow> (r, log_event (SysOpenat h name r) w p))"

definition sys_getdents ::
  "('h, 'w) Kernel \<Rightarrow> 'h \<Rightarrow> ('h, 'w) Proc \<Rightarrow> (string \<times> FileType, errno) result list \<times> ('h, 'w) Proc" where
  "sys_getdents K h p =
    (case k_getdents K h (world p) of (r, w) \<Rightarrow> (r, log_event (SysGetdents h) w p))"

definition sys_unlinkat ::
  "('h, 'w) Kernel \<Rightarrow> 'h \<Rightarrow> string \<Rightarrow> bool \<Rightarrow> ('h, 'w) Proc \<Rightarrow> (unit, errno) result \<times> ('h, 'w) Proc" where
  "sys_unlinkat K h name dir p =
    (case k_unlinkat K h name dir (world p) of (r, w) \<Rightarrow> (r, log_event (SysUnlink h name dir r) w p))"

section \<open>Safe directory handles\<close>

record 'h SafeDirHandle =
  sh_fd :: 'h
  sh_dev :: DeviceNumber
  sh_ino :: InodeNumber
  sh_permit :: bool

definition validate_single_component :: "string \<Rightarrow> bool" where
  "validate_single_component name \<longleftrightarrow>
    \<not> (name = [] \<or> name = ''.'' \<or> name = ''..'' \<or> CHR ''/'' \<in> set name \<or> CHR 0x00 \<in> set name)"

definition TrustedRoot_new :: "string \<Rightarrow> (string, CleanerError) result" where
  "TrustedRoot_new p =
    (if \<not> is_absolute p then Inl (SafetyViolation ''TrustedRoot must be absolute'') else Inr p)"

definition open_root_with_permit ::
  "('h, 'w) Kernel \<Rightarrow> string \<Rightarrow> bool \<Rightarrow> ('h, 'w) Proc
    \<Rightarrow> ('h SafeDirHandle, CleanerError) result \<times> ('h, 'w) Proc" where
  "open_root_with_permit K path permit p =
    (case sys_open K path p of
       (Inl e, p1) \<Rightarrow> (Inl (Io e), p1)
     | (Inr fd, p1) \<Rightarrow>
         (case sys_fstat K fd p1 of
            (Inl e, p2) \<Rightarrow> (Inl (Io e), p2)
          | (Inr st, p2) \<Rightarrow>
              (Inr \<lparr> sh_fd = fd, sh_dev = st_dev st, sh_ino = st_ino st, sh_permit = permit \<rparr>, p2)))"

definition open_root ::
  "('h, 'w) Kernel \<Rightarrow> string \<Rightarrow> ('h, 'w) Proc \<Rightarrow> ('h SafeDirHandle, CleanerError) result \<times> ('h, 'w) Proc" where
  "open_root K path p = open_root_with_permit K path False p"

definition stat_child_errno ::
  "('h, 'w) Kernel \<Rightarrow> 'h SafeDirHandle \<Rightarrow> string \<Rightarrow> ('h, 'w) Proc
    \<Rightarrow> (FileIdentity, errno) result \<times> ('h, 'w) Proc" where
  "stat_child_errno K h name p =
    (if \<not> validate_single_component name then (Inl EINVAL, p)
     else case sys_statat K (sh_fd h) name p of
       (Inl e, p1) \<Rightarrow> (Inl e, p1)
     | (Inr st, p1) \<Rightarrow> (Inr (stat_identity st), p1))"

definition stat_child ::
  "('h, 'w) Kernel \<Rightarrow> 'h SafeDirHandle \<Rightarrow> string \<Rightarrow> ('h, 'w) Proc
    \<Rightarrow> (FileIdentity, CleanerError) result \<times> ('h, 'w) Proc" where
  "stat_child K h name p =
    (case stat_child_errno K h name p of (r, p1) \<Rightarrow> (map_sum Io id r, p1))"

text \<open>\<open>Ok(None)\<close> asks the caller to fall back to \<open>openat\<close>.\<close>

definition try_openat2_child ::
  "('h, 'w) Kernel \<Rightarrow> 'h SafeDirHandle \<Rightarrow> string \<Rightarrow> ('h, 'w) Proc
    \<Rightarrow> ('h option, errno) result \<times> ('h, 'w) Proc" where
  "try_openat2_child K h name p =
    (if \<not> openat2_supported p then (Inr None, p)
     else if CHR 0x00 \<in> set name then (Inl EINVAL, p)
     else case sys_openat2 K (sh_fd h) name p of
       (Inr fd, p1) \<Rightarrow> (Inr (Some fd), p1)
     | (Inl err, p1) \<Rightarrow>
         if err = ENOSYS then (Inr None, p1\<lparr>openat2_supported := False\<rparr>)
         else if err = EINVAL then (Inl EINVAL, p1)
         else if err = EXDEV then (Inl EXDEV, p1)
         else if err = ELOOP then (Inl ELOOP, p1)
         else if err = EPERM \<or> err = EACCES then (Inl EACCES, p1)
         else if err = ENOENT then (Inl ENOENT, p1)
         else (Inl err, p1))"

definition open_child_fd ::
  "('h, 'w) Kernel \<Rightarrow> 'h SafeDirHandle \<Rightarrow> string \<Rightarrow> ('h, 'w) Proc \<Rightarrow> ('h, errno) result \<times> ('h, 'w) Proc" where
  "open_child_fd K h name p =
    (case try_openat2_child K h name p of
       (Inl e, p1) \<Rightarrow> (Inl e, p1)
     | (Inr (Some fd), p1) \<Rightarrow> (Inr fd, p1)
     | (Inr None, p1) \<Rightarrow> sys_openat K (sh_fd h) name p1)"

definition open_child_dir_errno ::
  "('h, 'w) Kernel \<Rightarrow> 'h SafeDirHandle \<Rightarrow> string \<Rightarrow> ('h, 'w) Proc
    \<Rightarrow> ('h SafeDirHandle, errno) result \<times> ('h, 'w) Proc" where
  "open_child_dir_errno K h name p =
    (if \<not> validate_single_component name then (Inl EINVAL, p)
     else case open_child_fd K h name p of
       (Inl e, p1) \<Rightarrow> (Inl e, p1)
     | (Inr fd, p1) \<Rightarrow>
         (case sys_fstat K fd p1 of
            (Inl e, p2) \<Rightarrow> (Inl e, p2)
          | (Inr st, p2) \<Rightarrow>
              if st_dev st \<noteq> sh_dev h then (Inl EXDEV, p2)
              else (Inr \<lparr> sh_fd = fd, sh_dev = st_dev st, sh_ino = st_ino st, sh_permit = False \<rparr>, p2)))"

definition open_child_dir_with_permit ::
  "('h, 'w) Kernel \<Rightarrow> 'h SafeDirHandle \<Rightarrow> string \<Rightarrow> bool \<Rightarrow> ('h, 'w) Proc
    \<Rightarrow> ('h SafeDirHandle, CleanerError) result \<times> ('h, 'w) Proc" where
  "open_child_dir_with_permit K h name permit p =
    (case open_child_dir_errno K h name p of
       (Inl e, p1) \<Rightarrow> (Inl (Io e), p1)
     | (Inr c, p1) \<Rightarrow> (Inr (c\<lparr>sh_permit := permit\<rparr>), p1))"

definition unlink_child_file ::
  "('h, 'w) Kernel \<Rightarrow> 'h SafeDirHandle \<Rightarrow> string \<Rightarrow> FileIdentity \<Rightarrow> ('h, 'w) Proc
    \<Rightarrow> (unit, CleanerError) result \<times> ('h, 'w) Proc" where
  "unlink_child_file K h name expected p =
    (if \<not> validate_single_component name then (Inl (Io EINVAL), p)
     else case stat_child K h name p of
       (Inl e, p1) \<Rightarrow> (Inl e, p1)
     | (Inr current, p1) \<Rightarrow>
         if current \<noteq> expected
         then (Inl (SafetyViolation ''TOCTOU race detected: file identity does not match expected''), p1)
         else (case sys_unlinkat K (sh_fd h) name False p1 of (r, p2) \<Rightarrow> (map_sum Io id r, p2)))"

definition rmdir_child_dir ::
  "('h, 'w) Kernel \<Rightarrow> 'h SafeDirHandle \<Rightarrow> string \<Rightarrow> FileIdentity \<Rightarrow> ('h, 'w) Proc
    \<Rightarrow> (unit, CleanerError) result \<times> ('h, 'w) Proc" where
  "rmdir_child_dir K h name expected p =
    (if \<not> validate_single_component name then (Inl (Io EINVAL), p)
     else case stat_child K h name p of
       (Inl e, p1) \<Rightarrow> (Inl e, p1)
     | (Inr current, p1) \<Rightarrow>
         if current \<noteq> expected
         then (Inl (SafetyViolation ''TOCTOU race detected: dir identity does not match expected''), p1)
         else (case sys_unlinkat K (sh_fd h) name True p1 of (r, p2) \<Rightarrow> (map_sum Io id r, p2)))"

section \<open>Reading a directory\<close>

record SafeDirEntry =
  ent_name :: string
  ent_is_dir :: bool
  ent_is_symlink :: bool
  ent_identity :: FileIdentity
  ent_size_bytes :: u64
  ent_mtime_secs :: u64

definition utf8_cont :: "nat \<Rightarrow> bool" where
  "utf8_cont b = (0x80 \<le> b \<and> b \<le> 0xBF)"

text \<open>\<open>str::from_utf8\<close> accepts exactly the well-formed sequences of the Unicode standard.\<close>

fun valid_utf8 :: "nat list \<Rightarrow> bool" where
  "valid_utf8 [] = True"
| "valid_utf8 (b # bs) =
    (if b < 0x80 then valid_utf8 bs
     else case bs of
       [] \<Rightarrow> False
     | c # bs2 \<Rightarrow>
         if 0xC2 \<le> b \<and> b \<le> 0xDF then utf8_cont c \<and> valid_utf8 bs2
         else case bs2 of
           [] \<Rightarrow> False
         | d # bs3 \<Rightarrow>
             if 0xE0 \<le> b \<and> b \<le> 0xEF
             then utf8_cont c \<and> utf8_cont d \<and> (b = 0xE0 \<longrightarrow> 0xA0 \<le> c) \<and> (b = 0xED \<longrightarrow> c \<le> 0x9F) \<and>
                  valid_utf8 bs3
             else case bs3 of
               [] \<Rightarrow> False
             | e # bs4 \<Rightarrow>
                 0xF0 \<le> b \<and> b \<le> 0xF4 \<and> utf8_cont c \<and> utf8_cont d \<and> utf8_cont e \<and>
                 (b = 0xF0 \<longrightarrow> 0x90 \<le> c) \<and> (b = 0xF4 \<longrightarrow> c \<le> 0x8F) \<and> valid_utf8 bs4)"

definition safe_entry :: "string \<Rightarrow> FileType \<Rightarrow> Stat \<Rightarrow> SafeDirEntry" where
  "safe_entry name ft st =
    \<lparr> ent_name = name, ent_is_dir = (ft = FtDirectory), ent_is_symlink = (ft = FtSymlink),
      ent_identity = stat_identity st, ent_size_bytes = word_of_int (max (st_size st) 0),
      ent_mtime_secs = word_of_int (st_mtime st) \<rparr>"

fun read_entries_loop ::
  "('h, 'w) Kernel \<Rightarrow> 'h SafeDirHandle \<Rightarrow> SafeDirEntry list \<Rightarrow> (string \<times> FileType, errno) result list
    \<Rightarrow> ('h, 'w) Proc \<Rightarrow> (SafeDirEntry list, CleanerError) result \<times> ('h, 'w) Proc" where
  "read_entries_loop K h acc [] p = (Inr acc, p)"
| "read_entries_loop K h acc (Inl e # es) p = (Inl (Io e), p)"
| "read_entries_loop K h acc (Inr (name, ft) # es) p =
    (if name = ''.'' \<or> name = ''..'' then read_entries_loop K h acc es p
     else if \<not> valid_utf8 (map byte_of name) then read_entries_loop K h acc es p
     else if ft = FtOther then read_entries_loop K h acc es p
     else case sys_statat K (sh_fd h) name p of
       (Inl _, p1) \<Rightarrow> read_entries_loop K h acc es p1
     | (Inr st, p1) \<Rightarrow> read_entries_loop K h (acc @ [safe_entry name ft st]) es p1)"

definition read_entries_fd ::
  "('h, 'w) Kernel \<Rightarrow> 'h SafeDirHandle \<Rightarrow> ('h, 'w) Proc
    \<Rightarrow> (SafeDirEntry list, CleanerError) result \<times> ('h, 'w) Proc" where
  "read_entries_fd K h p =
    (case sys_getdents K (sh_fd h) p of (es, p1) \<Rightarrow> read_entries_loop K h [] es p1)"

section \<open>The calls of each operation\<close>

text \<open>An unlink must follow directly upon a successful identity query of the same name through the
  same descriptor.\<close>

fun guarded :: "'h SysEvent option \<Rightarrow> 'h SysEvent list \<Rightarrow> bool" where
  "guarded prev [] = True"
| "guarded prev (e # es) =
    ((case e of
        SysUnlink h n _ _ \<Rightarrow>
          (case prev of Some (SysStat h' n' (Inr _)) \<Rightarrow> h' = h \<and> n' = n | _ \<Rightarrow> False)
      | _ \<Rightarrow> True) \<and> guarded (Some e) es)"

definition is_unlink :: "'h SysEvent \<Rightarrow> bool" where
  "is_unlink e = (case e of SysUnlink _ _ _ _ \<Rightarrow> True | _ \<Rightarrow> False)"

definition no_unlink :: "'h SysEvent list \<Rightarrow> bool" where
  "no_unlink evs = (\<forall>e\<in>set evs. \<not> is_unlink e)"

lemma no_unlink_simps [simp]:
  "no_unlink []" "no_unlink (e # es) \<longleftrightarrow> \<not> is_unlink e \<and> no_unlink es"
  "no_unlink (es @ fs) \<longleftrightarrow> no_unlink es \<and> no_unlink fs"
  by (auto simp: no_unlink_def)

lemma is_unlink_simps [simp]:
  "\<not> is_unlink (SysOpen a b)" "\<not> is_unlink (SysFstat h c)" "\<not> is_unlink (SysStat h n c)"
  "\<not> is_unlink (SysOpenat2 h n d)" "\<not> is_unlink (SysOpenat h n d)" "\<not> is_unlink (SysGetdents h)"
  "is_unlink (SysUnlink h n f u)"
  by (simp_all add: is_unlink_def)

lemma guarded_no_unlink: "no_unlink evs \<Longrightarrow> guarded prev evs"
  by (induction evs arbitrary: prev) (auto simp: is_unlink_def split: SysEvent.splits)

lemma guarded_append:
  "guarded prev (es @ fs) \<longleftrightarrow> guarded prev es \<and> guarded (if es = [] then prev else Some (last es)) fs"
  by (induction es arbitrary: prev) auto

text \<open>\<open>extends p p' evs\<close>: \<open>evs\<close> are the calls made between the two states.\<close>

definition extends :: "('h, 'w) Proc \<Rightarrow> ('h, 'w) Proc \<Rightarrow> 'h SysEvent list \<Rightarrow> bool" where
  "extends p p' evs \<longleftrightarrow> sys_log p' = sys_log p @ evs"

lemma extends_refl [simp]: "extends p p []"
  by (simp add: extends_def)

lemma extends_trans: "extends p p1 a \<Longrightarrow> extends p1 p2 b \<Longrightarrow> extends p p2 (a @ b)"
  by (simp add: extends_def)

lemma extends_log_event [simp]: "extends p (log_event e w p) [e]"
  by (simp add: extends_def log_event_def)

text \<open>\<open>read_only p p'\<close>: nothing was unlinked between the two states.\<close>

definition read_only :: "('h, 'w) Proc \<Rightarrow> ('h, 'w) Proc \<Rightarrow> bool" where
  "read_only p p' \<longleftrightarrow> (\<exists>evs. extends p p' evs \<and> no_unlink evs)"

lemma read_only_refl [simp]: "read_only p p"
  by (auto simp: read_only_def intro: exI [of _ "[]"])

lemma read_only_trans: "read_only p q \<Longrightarrow> read_only q r \<Longrightarrow> read_only p r"
  unfolding read_only_def using extends_trans no_unlink_simps(3) by blast

lemma read_only_log: "\<not> is_unlink e \<Longrightarrow> read_only p (log_event e w p)"
  by (auto simp: read_only_def intro!: exI [of _ "[e]"])

lemma openat2_log_event [simp]: "openat2_supported (log_event e w p) = openat2_supported p"
  by (simp add: log_event_def)

lemma stat_child_errno_calls:
  "stat_child_errno K h name p = (r, p') \<Longrightarrow>
    (if validate_single_component name then extends p p' [SysStat (sh_fd h) name r]
     else p' = p \<and> r = Inl EINVAL)"
  by (auto simp: stat_child_errno_def sys_statat_def split: if_splits prod.splits sum.splits)

text \<open>Both removals make the same calls.\<close>

definition removal_calls ::
  "'h SafeDirHandle \<Rightarrow> string \<Rightarrow> FileIdentity \<Rightarrow> bool \<Rightarrow> (unit, CleanerError) result \<Rightarrow> 'h SysEvent list \<Rightarrow> bool" where
  "removal_calls h name f dir r evs \<longleftrightarrow>
    (\<exists>u. evs = [SysStat (sh_fd h) name (Inr f), SysUnlink (sh_fd h) name dir u] \<and>
         r = map_sum Io id u \<and> validate_single_component name)
    \<or> (no_unlink evs \<and> length evs \<le> 1 \<and> (\<exists>e. r = Inl e))"

lemma unlink_child_file_calls:
  "unlink_child_file K h name f p = (r, p') \<Longrightarrow>
    \<exists>evs. extends p p' evs \<and> removal_calls h name f False r evs"
  by (auto simp: unlink_child_file_def stat_child_def stat_child_errno_def sys_statat_def
      sys_unlinkat_def removal_calls_def extends_def log_event_def
      split: if_splits prod.splits sum.splits)

lemma rmdir_child_dir_calls:
  "rmdir_child_dir K h name f p = (r, p') \<Longrightarrow>
    \<exists>evs. extends p p' evs \<and> removal_calls h name f True r evs"
  by (auto simp: rmdir_child_dir_def stat_child_def stat_child_errno_def sys_statat_def
      sys_unlinkat_def removal_calls_def extends_def log_event_def
      split: if_splits prod.splits sum.splits)

lemma removal_calls_guarded: "removal_calls h name f dir r evs \<Longrightarrow> guarded prev evs"
  by (auto simp: removal_calls_def guarded_no_unlink)

lemma open_root_calls:
  "open_root_with_permit K path b p = (r, p') \<Longrightarrow>
    (\<exists>evs. extends p p' evs \<and> no_unlink evs) \<and>
    (\<forall>h. r = Inr h \<longrightarrow> (\<exists>evs. extends p p'
        (evs @ [SysFstat (sh_fd h) (Inr (FileIdentity_new (sh_dev h) (sh_ino h)))])))"
  by (auto simp: open_root_with_permit_def sys_open_def sys_fstat_def extends_def log_event_def
      stat_identity_def split: prod.splits sum.splits)

lemma open_child_dir_calls:
  "open_child_dir_errno K h name p = (r, p') \<Longrightarrow> \<exists>evs. extends p p' evs \<and> no_unlink evs"
  by (auto simp: open_child_dir_errno_def open_child_fd_def try_openat2_child_def sys_openat2_def
      sys_openat_def sys_fstat_def extends_def log_event_def
      split: if_splits prod.splits sum.splits option.splits)

lemma open_child_dir_device:
  "open_child_dir_errno K h name p = (Inr c, p') \<Longrightarrow>
    sh_dev c = sh_dev h \<and> validate_single_component name"
  by (auto simp: open_child_dir_errno_def split: if_splits prod.splits sum.splits)

section \<open>Properties\<close>

text \<open>C19.  Removing a file or a directory makes, after the name was found to be a single component,
  exactly an identity query and, only when it returned the expected identity, one unlink of the same
  name through the same descriptor, as a file or a directory respectively; its answer is then the
  operation's.  In every other case nothing is unlinked and the operation fails.\<close>

theorem removal_identity_checked:
  "(case unlink_child_file K h name f p of (r, p') \<Rightarrow>
      \<exists>evs. extends p p' evs \<and> removal_calls h name f False r evs \<and> guarded prev evs) \<and>
   (case rmdir_child_dir K h name f p of (r, p') \<Rightarrow>
      \<exists>evs. extends p p' evs \<and> removal_calls h name f True r evs \<and> guarded prev evs)"
proof (intro conjI)
  show "case unlink_child_file K h name f p of (r, p') \<Rightarrow>
      \<exists>evs. extends p p' evs \<and> removal_calls h name f False r evs \<and> guarded prev evs"
    using unlink_child_file_calls [of K h name f p] removal_calls_guarded by (fastforce split: prod.splits)
  show "case rmdir_child_dir K h name f p of (r, p') \<Rightarrow>
      \<exists>evs. extends p p' evs \<and> removal_calls h name f True r evs \<and> guarded prev evs"
    using rmdir_child_dir_calls [of K h name f p] removal_calls_guarded by (fastforce split: prod.splits)
qed

text \<open>Opening a child directory succeeds only for a single component and only on the parent's
  device; it unlinks nothing, and it calls the unprotected \<open>openat\<close> only when \<open>openat2\<close> was already
  known to be missing or has just answered ENOSYS, after which it is not tried again.\<close>

theorem open_child_confined:
  "case open_child_dir_errno K h name p of (r, p') \<Rightarrow>
     (\<exists>evs. extends p p' evs \<and> no_unlink evs \<and>
       (if list_ex (\<lambda>e. case e of SysOpenat _ _ _ \<Rightarrow> True | _ \<Rightarrow> False) evs
        then \<not> openat2_supported p' \<and>
          (if openat2_supported p then hd evs = SysOpenat2 (sh_fd h) name (Inl ENOSYS) else True)
        else True)) \<and>
     (case r of Inr c \<Rightarrow> sh_dev c = sh_dev h \<and> validate_single_component name | Inl _ \<Rightarrow> True)"
proof -
  obtain r p' where run: "open_child_dir_errno K h name p = (r, p')"
    by (cases "open_child_dir_errno K h name p")
  have "\<exists>evs. extends p p' evs \<and> no_unlink evs \<and>
       (if list_ex (\<lambda>e. case e of SysOpenat _ _ _ \<Rightarrow> True | _ \<Rightarrow> False) evs
        then \<not> openat2_supported p' \<and>
          (if openat2_supported p then hd evs = SysOpenat2 (sh_fd h) name (Inl ENOSYS) else True)
        else True)"
    using run
    by (intro exI [of _ "drop (length (sys_log p)) (sys_log p')"])
      (auto simp: open_child_dir_errno_def open_child_fd_def try_openat2_child_def sys_openat2_def
        sys_openat_def sys_fstat_def extends_def log_event_def
        split: if_splits prod.splits sum.splits option.splits)
  then show ?thesis
    using run open_child_dir_device [of K h name p] by (auto split: sum.splits)
qed

end
