(* ===== verification/Verifier.thy ===== *)
theory Verifier
  imports Safe_Fs
begin

text \<open>
  The postcondition verifier of \<open>verifier/mod.rs\<close> and the catalog snapshot it reads.  A snapshot's
  hash map is an association list whose order stands for the map's iteration order.  The lemmas relate
  each outcome to the kernel's answer, and, for a kernel whose \<open>fstatat\<close> tells the truth about the
  directory, to the directory itself.
\<close>

record CatalogSnapshot =
  snap_generation :: CatalogGeneration
  snap_targets :: "(TargetId \<times> TargetDescriptor) list"

definition snapshot_get :: "CatalogSnapshot \<Rightarrow> TargetId \<Rightarrow> TargetDescriptor option" where
  "snapshot_get s t = map_of (snap_targets s) t"

datatype VerificationOutcome =
    ConfirmedDeleted
  | AlreadyGone
  | StillPresent
  | IdentityMismatch
  | ParentUnavailable
  | TargetUnavailable
  | StaleOutcome
  | UnknownOutcome

definition is_successful_deletion :: "VerificationOutcome \<Rightarrow> bool" where
  "is_successful_deletion v = (case v of ConfirmedDeleted \<Rightarrow> True | AlreadyGone \<Rightarrow> True | _ \<Rightarrow> False)"

definition verify_with_parent_handle ::
  "('h, 'w) Kernel \<Rightarrow> 'h SafeDirHandle \<Rightarrow> string \<Rightarrow> FileIdentity \<Rightarrow> ('h, 'w) Proc
    \<Rightarrow> VerificationOutcome \<times> ('h, 'w) Proc" where
  "verify_with_parent_handle K h leaf expected p =
    (case stat_child_errno K h leaf p of
       (Inr current, p1) \<Rightarrow> (if current = expected then StillPresent else IdentityMismatch, p1)
     | (Inl e, p1) \<Rightarrow>
         (if e = ENOENT then ConfirmedDeleted
          else if e = EROFS \<or> e = EBUSY then TargetUnavailable
          else if e = ENOTDIR \<or> e = ESTALE then ParentUnavailable
          else UnknownOutcome, p1))"

text \<open>\<open>Component::as_os_str\<close>.\<close>

definition component_str :: "component \<Rightarrow> string" where
  "component_str c = (case c of RootDir \<Rightarrow> ''/'' | CurDir \<Rightarrow> ''.'' | ParentDir \<Rightarrow> ''..'' | Normal s \<Rightarrow> s)"

text \<open>The walk down to the parent directory: the handle reached, or the outcome of a failed step.\<close>

fun verify_walk ::
  "('h, 'w) Kernel \<Rightarrow> 'h SafeDirHandle \<Rightarrow> component list \<Rightarrow> ('h, 'w) Proc
    \<Rightarrow> ('h SafeDirHandle, VerificationOutcome) result \<times> ('h, 'w) Proc" where
  "verify_walk K h [] p = (Inr h, p)"
| "verify_walk K h (c # cs) p =
    (case open_child_dir_errno K h (component_str c) p of
       (Inr h', p1) \<Rightarrow> verify_walk K h' cs p1
     | (Inl e, p1) \<Rightarrow>
         (Inl (if e = ENOENT then AlreadyGone
               else if e = EACCES \<or> e = EPERM then ParentUnavailable
               else if e = EIO \<or> e = ESTALE then UnknownOutcome
               else if e = EBUSY \<or> e = EROFS then TargetUnavailable
               else ParentUnavailable), p1))"

definition verify_operation_postcondition ::
  "('h, 'w) Kernel \<Rightarrow> string \<Rightarrow> string \<Rightarrow> FileIdentity \<Rightarrow> ('h, 'w) Proc
    \<Rightarrow> VerificationOutcome \<times> ('h, 'w) Proc" where
  "verify_operation_postcondition K base rel expected p =
    (case open_root K base p of
       (Inl _, p1) \<Rightarrow> (TargetUnavailable, p1)
     | (Inr root, p1) \<Rightarrow>
         if components rel = [] then (UnknownOutcome, p1)
         else (case verify_walk K root (butlast (components rel)) p1 of
                 (Inl v, p2) \<Rightarrow> (v, p2)
               | (Inr parent, p2) \<Rightarrow>
                   verify_with_parent_handle K parent (component_str (last (components rel))) expected p2))"

text \<open>The outcome map of a whole plan, in the order the operations are verified.\<close>

fun verify_ops ::
  "('h, 'w) Kernel \<Rightarrow> CatalogSnapshot \<Rightarrow> PlannedOperation list \<Rightarrow> ('h, 'w) Proc
    \<Rightarrow> (OperationId \<times> VerificationOutcome) list \<times> ('h, 'w) Proc" where
  "verify_ops K cat [] p = ([], p)"
| "verify_ops K cat (oper # ops) p =
    (let check = (\<lambda>t rel f. case snapshot_get cat t of
           None \<Rightarrow> (TargetUnavailable, p)
         | Some d \<Rightarrow> verify_operation_postcondition K (td_base_path d) (rp_str rel) f p)
     in case op_type oper of
          DeleteFile t rel f _ \<Rightarrow>
            (case check t rel f of (v, p1) \<Rightarrow>
             case verify_ops K cat ops p1 of (vs, p2) \<Rightarrow> ((op_id oper, v) # vs, p2))
        | DeleteDirEmpty t rel f \<Rightarrow>
            (case check t rel f of (v, p1) \<Rightarrow>
             case verify_ops K cat ops p1 of (vs, p2) \<Rightarrow> ((op_id oper, v) # vs, p2))
        | _ \<Rightarrow> verify_ops K cat ops p)"

definition verify_plan_postcondition ::
  "('h, 'w) Kernel \<Rightarrow> PlannedPlan \<Rightarrow> CatalogSnapshot \<Rightarrow> ('h, 'w) Proc
    \<Rightarrow> (OperationId \<times> VerificationOutcome) list \<times> ('h, 'w) Proc" where
  "verify_plan_postcondition K plan cat p =
    (if plan_catalog_generation plan \<noteq> snap_generation cat
     then (map (\<lambda>oper. (op_id oper, StaleOutcome)) (operations plan), p)
     else verify_ops K cat (operations plan) p)"

section \<open>Verification makes no change\<close>

lemma verify_with_parent_handle_calls:
  "verify_with_parent_handle K h leaf f p = (v, p') \<Longrightarrow>
    \<exists>evs. extends p p' evs \<and> no_unlink evs \<and>
      (v = ConfirmedDeleted \<longrightarrow> evs = [SysStat (sh_fd h) leaf (Inl ENOENT)])"
proof -
  assume run: "verify_with_parent_handle K h leaf f p = (v, p')"
  obtain r p1 where stat: "stat_child_errno K h leaf p = (r, p1)"
    by (cases "stat_child_errno K h leaf p")
  have p1: "p' = p1" and v: "v = ConfirmedDeleted \<Longrightarrow> r = Inl ENOENT"
    using run stat by (auto simp: verify_with_parent_handle_def split: sum.splits if_splits)
  show ?thesis
  proof (cases "validate_single_component leaf")
    case True
    then show ?thesis
      using stat_child_errno_calls [OF stat] p1 v by (intro exI [of _ "[SysStat (sh_fd h) leaf r]"]) simp
  next
    case False
    then show ?thesis
      using stat_child_errno_calls [OF stat] p1 v by (intro exI [of _ "[]"]) auto
  qed
qed

lemma verify_walk_calls:
  "verify_walk K h cs p = (r, p') \<Longrightarrow> \<exists>evs. extends p p' evs \<and> no_unlink evs"
proof (induction cs arbitrary: h p)
  case Nil
  then show ?case
    by (intro exI [of _ "[]"]) simp
next
  case (Cons c cs)
  obtain x p1 where opn: "open_child_dir_errno K h (component_str c) p = (x, p1)"
    by (cases "open_child_dir_errno K h (component_str c) p")
  obtain evs where evs: "extends p p1 evs" "no_unlink evs"
    using open_child_dir_calls [OF opn] by blast
  show ?case
  proof (cases x)
    case (Inl e)
    then show ?thesis
      using Cons.prems opn evs by auto
  next
    case (Inr h')
    then obtain evs' where "extends p1 p' evs'" "no_unlink evs'"
      using Cons.prems opn Cons.IH [of h' p1] by auto
    then show ?thesis
      using evs extends_trans [of p p1 evs p' evs'] no_unlink_simps(3) by blast
  qed
qed

lemma verify_walk_device: "verify_walk K h cs p = (Inr h', p') \<Longrightarrow> sh_dev h' = sh_dev h"
proof (induction cs arbitrary: h p)
  case (Cons c cs)
  then show ?case
    using open_child_dir_device [of K h "component_str c" p]
    by (auto split: prod.splits sum.splits)
qed simp

lemma verify_operation_postcondition_calls:
  assumes "verify_operation_postcondition K base rel f p = (v, p')"
  shows "\<exists>evs. extends p p' evs \<and> no_unlink evs"
proof -
  obtain x p1 where opn: "open_root_with_permit K base False p = (x, p1)"
    by (cases "open_root_with_permit K base False p")
  obtain e1 where e1: "extends p p1 e1" "no_unlink e1"
    using open_root_calls [OF opn] by blast
  show ?thesis
  proof (cases "\<exists>root. x = Inr root \<and> components rel \<noteq> []")
    case False
    then show ?thesis
      using assms opn e1
      by (auto simp: verify_operation_postcondition_def open_root_def split: sum.splits)
  next
    case True
    then obtain root where root: "x = Inr root" "components rel \<noteq> []"
      by blast
    obtain y p2 where walk: "verify_walk K root (butlast (components rel)) p1 = (y, p2)"
      by (cases "verify_walk K root (butlast (components rel)) p1")
    obtain e2 where e2: "extends p1 p2 e2" "no_unlink e2"
      using verify_walk_calls [OF walk] by blast
    note e12 = extends_trans [OF e1(1) e2(1)]
    show ?thesis
    proof (cases y)
      case (Inl w)
      then show ?thesis
        using assms opn root walk e12 e1(2) e2(2)
        by (intro exI [of _ "e1 @ e2"]) (auto simp: verify_operation_postcondition_def open_root_def)
    next
      case (Inr parent)
      then have "verify_with_parent_handle K parent (component_str (last (components rel))) f p2 = (v, p')"
        using assms opn root walk by (simp add: verify_operation_postcondition_def open_root_def)
      from verify_with_parent_handle_calls [OF this] obtain e3 where "extends p2 p' e3" "no_unlink e3"
        by blast
      then show ?thesis
        using extends_trans [OF e12] e1(2) e2(2) by fastforce
    qed
  qed
qed

section \<open>A kernel that tells the truth\<close>

text \<open>\<open>dir w h n\<close> is the identity the directory behind \<open>h\<close> lists under \<open>n\<close>.  The documented behaviour of
  \<open>fstatat\<close> with \<open>AT_SYMLINK_NOFOLLOW\<close>: it changes nothing, reports the entry's identity when it
  succeeds, and answers ENOENT only when there is no such entry.\<close>

definition stat_truthful :: "('h, 'w) Kernel \<Rightarrow> ('w \<Rightarrow> 'h \<Rightarrow> string \<Rightarrow> FileIdentity option) \<Rightarrow> bool" where
  "stat_truthful K dir \<longleftrightarrow>
    (\<forall>h n w. case k_statat K h n w of (r, w') \<Rightarrow> w' = w \<and>
      (case r of Inr st \<Rightarrow> dir w h n = Some (stat_identity st)
               | Inl e \<Rightarrow> (e = ENOENT \<longrightarrow> dir w h n = None)))"

lemma stat_child_truth:
  assumes "stat_truthful K dir" "stat_child_errno K h n p = (r, p')"
  shows "world p' = world p"
    and "r = Inr f \<Longrightarrow> dir (world p) (sh_fd h) n = Some f"
    and "r = Inl ENOENT \<Longrightarrow> dir (world p) (sh_fd h) n = None"
proof -
  obtain x w where stat: "k_statat K (sh_fd h) n (world p) = (x, w)"
    by (cases "k_statat K (sh_fd h) n (world p)")
  then have truth: "w = world p"
    "case x of Inr st \<Rightarrow> dir (world p) (sh_fd h) n = Some (stat_identity st)
       | Inl e \<Rightarrow> (e = ENOENT \<longrightarrow> dir (world p) (sh_fd h) n = None)"
    using assms(1) by (auto simp: stat_truthful_def dest!: spec [of _ "sh_fd h"] spec [of _ n] spec [of _ "world p"])
  show "world p' = world p"
    using assms(2) stat truth
    by (auto simp: stat_child_errno_def sys_statat_def log_event_def split: if_splits sum.splits)
  show "r = Inr f \<Longrightarrow> dir (world p) (sh_fd h) n = Some f"
    using assms(2) stat truth
    by (auto simp: stat_child_errno_def sys_statat_def split: if_splits sum.splits)
  show "r = Inl ENOENT \<Longrightarrow> dir (world p) (sh_fd h) n = None"
    using assms(2) stat truth
    by (auto simp: stat_child_errno_def sys_statat_def split: if_splits sum.splits)
qed

section \<open>Properties\<close>

text \<open>Verification through a parent handle reads one name and changes nothing; with a truthful
  kernel, a confirmed deletion means the name is gone, still present means it carries the expected
  identity, and an identity mismatch means it carries another one.\<close>

theorem verification_truthful:
  assumes "stat_truthful K dir" "verify_with_parent_handle K h leaf f p = (v, p')"
  shows "world p' = world p \<and>
    (case v of
       ConfirmedDeleted \<Rightarrow> dir (world p) (sh_fd h) leaf = None
     | StillPresent \<Rightarrow> dir (world p) (sh_fd h) leaf = Some f
     | IdentityMismatch \<Rightarrow> (\<exists>g. dir (world p) (sh_fd h) leaf = Some g \<and> g \<noteq> f)
     | AlreadyGone \<Rightarrow> False
     | StaleOutcome \<Rightarrow> False
     | _ \<Rightarrow> True)"
proof -
  obtain r p1 where stat: "stat_child_errno K h leaf p = (r, p1)"
    by (cases "stat_child_errno K h leaf p")
  note truth = stat_child_truth [OF assms(1) stat]
  have "p' = p1"
    using assms(2) stat by (auto simp: verify_with_parent_handle_def split: sum.splits)
  then show ?thesis
    using assms(2) stat truth
    by (auto simp: verify_with_parent_handle_def split: sum.splits if_splits)
qed

text \<open>A kernel over a single directory, given by its entries.\<close>

definition one_dir_kernel :: "(unit, (string \<times> u64) list) Kernel" where
  "one_dir_kernel =
    \<lparr> k_open = (\<lambda>_ w. (Inr (), w)),
      k_fstat = (\<lambda>_ w. (Inr \<lparr> st_dev = 7, st_ino = 11, st_size = 0, st_mtime = 0 \<rparr>, w)),
      k_statat = (\<lambda>_ n w. case map_of w n of
          None \<Rightarrow> (Inl ENOENT, w)
        | Some i \<Rightarrow> (Inr \<lparr> st_dev = 7, st_ino = i, st_size = 4096, st_mtime = 1000 \<rparr>, w)),
      k_openat2 = (\<lambda>_ n w. (Inl ENOENT, w)),
      k_openat = (\<lambda>_ n w. (Inl ENOENT, w)),
      k_getdents = (\<lambda>_ w. (map (\<lambda>(n, _). Inr (n, FtRegular)) w, w)),
      k_unlinkat = (\<lambda>_ n _ w. if map_of w n = None then (Inl ENOENT, w)
          else (Inr (), filter (\<lambda>e. fst e \<noteq> n) w)) \<rparr>"

definition one_dir :: "(string \<times> u64) list \<Rightarrow> unit \<Rightarrow> string \<Rightarrow> FileIdentity option" where
  "one_dir w _ n = map_option (\<lambda>i. \<lparr> fid_dev = 7, fid_ino = i \<rparr>) (map_of w n)"

lemma one_dir_truthful: "stat_truthful one_dir_kernel one_dir"
  by (auto simp: stat_truthful_def one_dir_kernel_def one_dir_def stat_identity_def
      FileIdentity_new_def split: option.splits)

theorem verification_truthful_witness:
  "let p = \<lparr> world = [(''f'', 21)], openat2_supported = True, sys_log = [] \<rparr>;
       h = \<lparr> sh_fd = (), sh_dev = 7, sh_ino = 11, sh_permit = False \<rparr>
   in fst (verify_with_parent_handle one_dir_kernel h ''f'' \<lparr> fid_dev = 7, fid_ino = 21 \<rparr> p) = StillPresent \<and>
      one_dir (world p) () ''f'' = Some \<lparr> fid_dev = 7, fid_ino = 21 \<rparr>"
proof -
  let ?p = "\<lparr> world = [(''f'', 21)], openat2_supported = True, sys_log = [] \<rparr>
      :: (unit, (string \<times> u64) list) Proc"
  let ?h = "\<lparr> sh_fd = (), sh_dev = 7, sh_ino = 11, sh_permit = False \<rparr>"
  have "fst (verify_with_parent_handle one_dir_kernel ?h ''f'' \<lparr> fid_dev = 7, fid_ino = 21 \<rparr> ?p) = StillPresent"
    by (simp add: verify_with_parent_handle_def stat_child_errno_def validate_single_component_def
        sys_statat_def one_dir_kernel_def log_event_def stat_identity_def FileIdentity_new_def)
  then obtain p' where run: "verify_with_parent_handle one_dir_kernel ?h ''f'' \<lparr> fid_dev = 7, fid_ino = 21 \<rparr> ?p
      = (StillPresent, p')"
    by (metis prod.collapse)
  show ?thesis
    using verification_truthful [OF one_dir_truthful run] run by simp
qed

text \<open>Verifying an operation of an earlier attempt, from the target's base down to its parent,
  only opens directories and queries names: whatever the kernel answers, it unlinks nothing.\<close>

theorem verification_read_only:
  "case verify_operation_postcondition K base rel f p of
     (v, p') \<Rightarrow> \<exists>evs. extends p p' evs \<and> no_unlink evs \<and> v \<noteq> StaleOutcome"
proof -
  obtain v p' where run: "verify_operation_postcondition K base rel f p = (v, p')"
    by (cases "verify_operation_postcondition K base rel f p")
  have walk: "verify_walk K h cs q = (Inl w, q') \<Longrightarrow> w \<noteq> StaleOutcome" for h cs q w q'
    by (induction cs arbitrary: h q) (auto split: prod.splits sum.splits if_splits)
  have "v \<noteq> StaleOutcome"
    using run walk
    by (auto simp: verify_operation_postcondition_def verify_with_parent_handle_def
        split: prod.splits sum.splits if_splits)
  then show ?thesis
    using run verify_operation_postcondition_calls [OF run] by auto
qed

end
