(* ===== verification/Store.thy ===== *)
theory Store
  imports Domain_Entities
begin

text \<open>
  The durable store of \<open>store/mod.rs\<close> with the schema of \<open>store/schema.rs\<close>.  A table with a textual or
  composite primary key is a map, the others are lists in row order.  Every SQL statement may fail: the
  store carries a script that says, statement by statement, whether the engine reports an error; a
  failed statement changes nothing, and an error inside a transaction rolls it back.  Constraint
  violations (foreign key to \<open>jobs\<close>, uniqueness of attempt and operation) are errors of the model.
  Numbers the engine cannot store (above 63 bits) are statements that fail, so they are in the script.
  The lemmas give an invariant that every operation preserves, the contract of leases, and the round
  trip of operation intents.
\<close>

record JobRow =
  jb_id :: JobId
  jb_type :: string
  jb_state :: string
  jb_catalog :: CatalogGeneration
  jb_config :: ConfigGeneration
  jb_estimated :: ByteCount
  jb_reclaimed :: ByteCount
  jb_created :: UnixTimestamp
  jb_updated :: UnixTimestamp

record AttemptRow =
  ar_id :: AttemptId
  ar_job :: JobId
  ar_worker :: WorkerId
  ar_state :: string
  ar_lease_expires :: u64
  ar_started :: UnixTimestamp
  ar_finished :: "UnixTimestamp option"

record IntentRow =
  ir_id :: int
  ir_job :: JobId
  ir_attempt :: AttemptId
  ir_op :: OperationId
  ir_target :: string
  ir_rel_path :: string
  ir_dev :: u64
  ir_ino :: u64
  ir_estimated :: ByteCount
  ir_mutation :: string
  ir_state :: string
  ir_catalog :: CatalogGeneration
  ir_config :: ConfigGeneration
  ir_committed :: UnixTimestamp
  ir_resolved :: "UnixTimestamp option"

record OperationRow =
  or_plan :: PlanId
  or_target :: string
  or_op_type :: string
  or_rel_path :: string
  or_dev :: u64
  or_ino :: u64
  or_estimated :: ByteCount
  or_status :: string
  or_reclaimed :: ByteCount
  or_error :: "string option"
  or_executed :: UnixTimestamp

record LeaseRow =
  lr_worker :: WorkerId
  lr_token :: string
  lr_acquired :: u64
  lr_expires :: u64

record IdemRow =
  id_job :: JobId
  id_response :: "string option"
  id_created :: u64
  id_expires :: u64

record SqliteStore =
  st_jobs :: "JobRow list"
  st_attempts :: "AttemptRow list"
  st_intents :: "IntentRow list"
  st_next_intent :: int
  st_operations :: "JobId \<times> OperationId \<Rightarrow> OperationRow option"
  st_leases :: "string \<Rightarrow> LeaseRow option"
  st_idem :: "string \<Rightarrow> IdemRow option"
  st_outbox :: "(string \<times> string \<times> string \<times> u64) list"
  st_faults :: "bool list"

definition Store_empty :: "bool list \<Rightarrow> SqliteStore" where
  "Store_empty faults =
    \<lparr> st_jobs = [], st_attempts = [], st_intents = [], st_next_intent = 1,
      st_operations = (\<lambda>_. None), st_leases = (\<lambda>_. None), st_idem = (\<lambda>_. None), st_outbox = [],
      st_faults = faults \<rparr>"

text \<open>Whether the next statement fails, and the store with the script advanced.\<close>

definition sql_fault :: "SqliteStore \<Rightarrow> bool \<times> SqliteStore" where
  "sql_fault s = (case st_faults s of [] \<Rightarrow> (False, s) | f # fs \<Rightarrow> (f, s\<lparr>st_faults := fs\<rparr>))"

definition job_exists :: "SqliteStore \<Rightarrow> JobId \<Rightarrow> bool" where
  "job_exists s j = list_ex (\<lambda>r. jb_id r = j) (st_jobs s)"

definition JobId_num :: "JobId \<Rightarrow> u64" where
  "JobId_num j = (case j of JobId n \<Rightarrow> n)"

definition AttemptId_num :: "AttemptId \<Rightarrow> u64" where
  "AttemptId_num a = (case a of AttemptId n \<Rightarrow> n)"

section \<open>Jobs and attempts\<close>

text \<open>A failing query is read as an empty table.\<close>

definition get_max_job_id :: "SqliteStore \<Rightarrow> u64 \<times> SqliteStore" where
  "get_max_job_id s = (case sql_fault s of (f, s1) \<Rightarrow>
    (if f then 0 else fold (\<lambda>r m. max m (JobId_num (jb_id r))) (st_jobs s1) 0, s1))"

definition register_job ::
  "UnixTimestamp \<Rightarrow> JobId \<Rightarrow> string \<Rightarrow> CatalogGeneration \<Rightarrow> ConfigGeneration \<Rightarrow> SqliteStore
    \<Rightarrow> (unit, CleanerError) result \<times> SqliteStore" where
  "register_job now j ty cat cfg s = (case sql_fault s of (f, s1) \<Rightarrow>
    if f then (Inl (Storage ''Failed to register job''), s1)
    else if job_exists s1 j
    then (Inr (), s1\<lparr>st_jobs := map (\<lambda>r. if jb_id r = j then r\<lparr>jb_updated := now\<rparr> else r) (st_jobs s1)\<rparr>)
    else (Inr (), s1\<lparr>st_jobs := st_jobs s1 @
      [\<lparr> jb_id = j, jb_type = ty, jb_state = ''ADMITTED'', jb_catalog = cat, jb_config = cfg,
         jb_estimated = 0, jb_reclaimed = 0, jb_created = now, jb_updated = now \<rparr>]\<rparr>))"

definition update_job_state ::
  "UnixTimestamp \<Rightarrow> JobId \<Rightarrow> string \<Rightarrow> ByteCount \<Rightarrow> SqliteStore
    \<Rightarrow> (unit, CleanerError) result \<times> SqliteStore" where
  "update_job_state now j state reclaimed s = (case sql_fault s of (f, s1) \<Rightarrow>
    if f then (Inl (Storage ''Failed to update job state''), s1)
    else (Inr (), s1\<lparr>st_jobs := map (\<lambda>r. if jb_id r = j
      then r\<lparr>jb_state := state, jb_reclaimed := reclaimed, jb_updated := now\<rparr> else r) (st_jobs s1)\<rparr>))"

definition get_max_attempt_id :: "SqliteStore \<Rightarrow> u64 \<times> SqliteStore" where
  "get_max_attempt_id s = (case sql_fault s of (f, s1) \<Rightarrow>
    (if f then 0 else fold (\<lambda>r m. max m (AttemptId_num (ar_id r))) (st_attempts s1) 0, s1))"

definition create_attempt ::
  "UnixTimestamp \<Rightarrow> AttemptId \<Rightarrow> JobId \<Rightarrow> WorkerId \<Rightarrow> u64 \<Rightarrow> SqliteStore
    \<Rightarrow> (unit, CleanerError) result \<times> SqliteStore" where
  "create_attempt now a j w lease_duration_secs s = (case sql_fault s of (f, s1) \<Rightarrow>
    if f then (Inl (Storage ''Failed to create attempt''), s1)
    else if list_ex (\<lambda>r. ar_id r = a) (st_attempts s1)
    then (Inr (), s1\<lparr>st_attempts := map (\<lambda>r. if ar_id r = a
      then r\<lparr>ar_state := ''RUNNING'', ar_lease_expires := now + lease_duration_secs\<rparr> else r) (st_attempts s1)\<rparr>)
    else if \<not> job_exists s1 j then (Inl (Storage ''Failed to create attempt''), s1)
    else (Inr (), s1\<lparr>st_attempts := st_attempts s1 @
      [\<lparr> ar_id = a, ar_job = j, ar_worker = w, ar_state = ''RUNNING'',
         ar_lease_expires = now + lease_duration_secs, ar_started = now, ar_finished = None \<rparr>]\<rparr>))"

definition update_attempt_state ::
  "UnixTimestamp \<Rightarrow> AttemptId \<Rightarrow> string \<Rightarrow> SqliteStore \<Rightarrow> (unit, CleanerError) result \<times> SqliteStore" where
  "update_attempt_state now a state s = (case sql_fault s of (f, s1) \<Rightarrow>
    if f then (Inl (Storage ''Failed to update attempt state''), s1)
    else (Inr (), s1\<lparr>st_attempts := map (\<lambda>r. if ar_id r = a
      then r\<lparr>ar_state := state, ar_finished := Some now\<rparr> else r) (st_attempts s1)\<rparr>))"

section \<open>Operation intents\<close>

definition intent_row :: "int \<Rightarrow> OperationIntent \<Rightarrow> IntentRow" where
  "intent_row i it =
    \<lparr> ir_id = i, ir_job = in_job_id it, ir_attempt = in_attempt_id it, ir_op = in_op_id it,
      ir_target = target_str (in_target_id it), ir_rel_path = rp_str (in_rel_path it),
      ir_dev = fid_dev (in_expected_identity it), ir_ino = fid_ino (in_expected_identity it),
      ir_estimated = in_estimated_bytes it,
      ir_mutation = MutationType_display (in_mutation_type it),
      ir_state = IntentState_display (in_state it),
      ir_catalog = in_catalog_generation it, ir_config = in_config_generation it,
      ir_committed = in_committed_at it, ir_resolved = None \<rparr>"

definition intent_exists :: "SqliteStore \<Rightarrow> AttemptId \<Rightarrow> OperationId \<Rightarrow> bool" where
  "intent_exists s a oi = list_ex (\<lambda>r. ir_attempt r = a \<and> ir_op r = oi) (st_intents s)"

definition commit_operation_intent ::
  "OperationIntent \<Rightarrow> SqliteStore \<Rightarrow> (int, CleanerError) result \<times> SqliteStore" where
  "commit_operation_intent it s = (case sql_fault s of (f, s1) \<Rightarrow>
    if f \<or> \<not> job_exists s1 (in_job_id it) \<or> intent_exists s1 (in_attempt_id it) (in_op_id it)
    then (Inl (Storage ''Failed to commit operation intent''), s1)
    else (Inr (st_next_intent s1),
          s1\<lparr>st_intents := st_intents s1 @ [intent_row (st_next_intent s1) it],
             st_next_intent := st_next_intent s1 + 1\<rparr>))"

text \<open>A batch runs in one transaction: the statements that begin and end it may fail as well, and on
  any failure the tables are as before.\<close>

fun insert_intents :: "OperationIntent list \<Rightarrow> SqliteStore \<Rightarrow> (unit, CleanerError) result \<times> SqliteStore" where
  "insert_intents [] s = (Inr (), s)"
| "insert_intents (it # its) s =
    (case commit_operation_intent it s of
       (Inl _, s1) \<Rightarrow> (Inl (Storage ''Failed to insert intent in batch''), s1)
     | (Inr _, s1) \<Rightarrow> insert_intents its s1)"

definition rollback :: "SqliteStore \<Rightarrow> SqliteStore \<Rightarrow> SqliteStore" where
  "rollback before now_state = before\<lparr>st_faults := st_faults now_state\<rparr>"

definition commit_operation_intents_batch ::
  "OperationIntent list \<Rightarrow> SqliteStore \<Rightarrow> (unit, CleanerError) result \<times> SqliteStore" where
  "commit_operation_intents_batch its s =
    (if its = [] then (Inr (), s)
     else case sql_fault s of (f, s1) \<Rightarrow>
       if f then (Inl (Storage ''Failed to begin transaction''), s1)
       else case insert_intents its s1 of
         (Inl e, s2) \<Rightarrow> (Inl e, rollback s1 s2)
       | (Inr _, s2) \<Rightarrow>
           (case sql_fault s2 of (f, s3) \<Rightarrow>
             if f then (Inl (Storage ''Failed to commit intent batch transaction''), rollback s1 s3)
             else (Inr (), s3)))"

definition update_intent_state ::
  "UnixTimestamp \<Rightarrow> AttemptId \<Rightarrow> OperationId \<Rightarrow> string \<Rightarrow> SqliteStore
    \<Rightarrow> (unit, CleanerError) result \<times> SqliteStore" where
  "update_intent_state now a oi state s = (case sql_fault s of (f, s1) \<Rightarrow>
    if f then (Inl (Storage ''Failed to update intent state''), s1)
    else (Inr (), s1\<lparr>st_intents := map (\<lambda>r. if ir_attempt r = a \<and> ir_op r = oi
      then r\<lparr>ir_state := state, ir_resolved := Some now\<rparr> else r) (st_intents s1)\<rparr>))"

definition get_job_summary ::
  "JobId \<Rightarrow> SqliteStore \<Rightarrow> ((string \<times> u64 \<times> u64) option, CleanerError) result \<times> SqliteStore" where
  "get_job_summary j s = (case sql_fault s of (f, s1) \<Rightarrow>
    if f then (Inl (Storage ''Failed to query job''), s1)
    else (Inr (case filter (\<lambda>r. jb_id r = j) (st_jobs s1) of
                 [] \<Rightarrow> None
               | r # _ \<Rightarrow> Some (jb_state r, jb_reclaimed r, jb_updated r)), s1))"

definition status_strings :: "OperationStatus \<Rightarrow> string \<times> string option" where
  "status_strings st = (case st of
      Success \<Rightarrow> (''SUCCESS'', None)
    | OpFailed e \<Rightarrow> (''FAILED'', Some e)
    | VerificationFailed r \<Rightarrow> (''VERIFICATION_FAILED'', Some r)
    | Preempted \<Rightarrow> (''PREEMPTED'', None)
    | Skipped r \<Rightarrow> (''SKIPPED'', Some r))"

definition record_operation_result ::
  "JobId \<Rightarrow> PlanId \<Rightarrow> TargetId \<Rightarrow> string \<Rightarrow> string \<Rightarrow> FileIdentity \<Rightarrow> ByteCount \<Rightarrow> OperationFinalResult
    \<Rightarrow> SqliteStore \<Rightarrow> (unit, CleanerError) result \<times> SqliteStore" where
  "record_operation_result j pl t ty rel f est res s = (case sql_fault s of (flt, s1) \<Rightarrow>
    if flt \<or> \<not> job_exists s1 j then (Inl (Storage ''Failed to record operation result''), s1)
    else (Inr (), s1\<lparr>st_operations := (st_operations s1)((j, res_op_id res) := Some
      \<lparr> or_plan = pl, or_target = target_str t, or_op_type = ty, or_rel_path = rel,
        or_dev = fid_dev f, or_ino = fid_ino f, or_estimated = est,
        or_status = fst (status_strings (res_status res)), or_reclaimed = reclaimed_bytes res,
        or_error = snd (status_strings (res_status res)), or_executed = executed_at res \<rparr>)\<rparr>))"

definition get_uncompleted_attempts ::
  "SqliteStore \<Rightarrow> ((AttemptId \<times> JobId) list, CleanerError) result \<times> SqliteStore" where
  "get_uncompleted_attempts s = (case sql_fault s of (f, s1) \<Rightarrow>
    if f then (Inl (Storage ''query failed''), s1)
    else (Inr (map (\<lambda>r. (ar_id r, ar_job r)) (filter (\<lambda>r. ar_state r = ''RUNNING'') (st_attempts s1))), s1))"

definition parse_mutation_type :: "string \<Rightarrow> MutationType" where
  "parse_mutation_type s =
    (if s = ''DELETE_DIR_EMPTY'' then MtDeleteDirEmpty
     else if s = ''PRUNE_DIR_RECURSIVE'' then MtPruneDirRecursive
     else MtDeleteFile)"

definition parse_intent_state :: "string \<Rightarrow> IntentState" where
  "parse_intent_state s =
    (if s = ''MUTATING'' then Mutating
     else if s = ''VERIFIED_SUCCESS'' then VerifiedSuccess
     else if s = ''VERIFIED_FAILED'' then VerifiedFailed
     else if s = ''RESOLVED_UNKNOWN'' then ResolvedUnknown
     else Committed)"

text \<open>Reading a row panics where \<open>TargetId::new\<close> does.\<close>

definition row_intent :: "IntentRow \<Rightarrow> (OperationIntent, Failure) result" where
  "row_intent r = (case TargetId_new (ir_target r) of
      None \<Rightarrow> Inl (Panic ''TargetId must be non-empty, <=512, no NUL/newline'')
    | Some t \<Rightarrow> Inr
        \<lparr> intent_id = Some (ir_id r), in_job_id = ir_job r, in_attempt_id = ir_attempt r,
          in_op_id = ir_op r, in_target_id = t,
          in_rel_path = unwrap_or (RelativePath_parse (ir_rel_path r)) (RelativePath []),
          in_expected_identity = \<lparr> fid_dev = ir_dev r, fid_ino = ir_ino r \<rparr>,
          in_estimated_bytes = ir_estimated r,
          in_mutation_type = parse_mutation_type (ir_mutation r),
          in_state = parse_intent_state (ir_state r),
          in_catalog_generation = ir_catalog r, in_config_generation = ir_config r,
          in_committed_at = ir_committed r, in_resolved_at = ir_resolved r \<rparr>)"

fun rows_intents :: "IntentRow list \<Rightarrow> (OperationIntent list, Failure) result" where
  "rows_intents [] = Inr []"
| "rows_intents (r # rs) =
    bind_result (row_intent r) (\<lambda>it. bind_result (rows_intents rs) (\<lambda>its. Inr (it # its)))"

definition get_operation_intents_for_attempt ::
  "AttemptId \<Rightarrow> SqliteStore \<Rightarrow> (OperationIntent list, Failure) result \<times> SqliteStore" where
  "get_operation_intents_for_attempt a s = (case sql_fault s of (f, s1) \<Rightarrow>
    if f then (Inl (Err (Storage ''query failed'')), s1)
    else (rows_intents (filter (\<lambda>r. ir_attempt r = a) (st_intents s1)), s1))"

section \<open>Leases, idempotency keys, outbox\<close>

definition lease_token :: "WorkerId \<Rightarrow> u64 \<Rightarrow> string" where
  "lease_token w now =
    (case w of WorkerId n \<Rightarrow> ''lease-'' @ decimal (unat n) @ ''-'' @ decimal (unat now))"

text \<open>A transaction of four statements between begin and commit; the answer of the first one, which
  deletes an expired lease, is ignored.\<close>

definition delete_expired :: "UnixTimestamp \<Rightarrow> string \<Rightarrow> SqliteStore \<Rightarrow> SqliteStore" where
  "delete_expired now res s = (case st_leases s res of
      Some l \<Rightarrow> if lr_expires l \<le> now then s\<lparr>st_leases := (st_leases s)(res := None)\<rparr> else s
    | None \<Rightarrow> s)"

definition acquire_lease ::
  "UnixTimestamp \<Rightarrow> string \<Rightarrow> WorkerId \<Rightarrow> u64 \<Rightarrow> SqliteStore \<Rightarrow> (bool, CleanerError) result \<times> SqliteStore" where
  "acquire_lease now res w ttl_secs s = (case sql_fault s of (f0, s0) \<Rightarrow>
    if f0 then (Inl (Storage ''begin failed''), s0)
    else case sql_fault s0 of (f1, s1) \<Rightarrow>
      case sql_fault (if f1 then s1 else delete_expired now res s1) of (f2, s3) \<Rightarrow>
        if f2 then (Inl (Storage ''query failed''), rollback s0 s3)
        else if (case st_leases s3 res of Some l \<Rightarrow> lr_worker l \<noteq> w \<and> lr_expires l > now | None \<Rightarrow> False)
        then (Inr False, rollback s0 s3)
        else case sql_fault s3 of (f3, s4) \<Rightarrow>
          if f3 then (Inl (Storage ''Failed to insert lease''), rollback s0 s4)
          else case sql_fault (s4\<lparr>st_leases := (st_leases s4)(res := Some
                 \<lparr> lr_worker = w, lr_token = lease_token w now, lr_acquired = now,
                   lr_expires = now + ttl_secs \<rparr>)\<rparr>) of (f4, s5) \<Rightarrow>
            if f4 then (Inl (Storage ''commit failed''), rollback s0 s5)
            else (Inr True, s5))"

definition release_lease ::
  "string \<Rightarrow> WorkerId \<Rightarrow> SqliteStore \<Rightarrow> (unit, CleanerError) result \<times> SqliteStore" where
  "release_lease res w s = (case sql_fault s of (f, s1) \<Rightarrow>
    if f then (Inl (Storage ''Failed to release lease''), s1)
    else (Inr (), case st_leases s1 res of
        Some l \<Rightarrow> if lr_worker l = w then s1\<lparr>st_leases := (st_leases s1)(res := None)\<rparr> else s1
      | None \<Rightarrow> s1))"

definition check_or_insert_idempotency ::
  "UnixTimestamp \<Rightarrow> string \<Rightarrow> JobId \<Rightarrow> u64 \<Rightarrow> SqliteStore
    \<Rightarrow> (string option, CleanerError) result \<times> SqliteStore" where
  "check_or_insert_idempotency now key j ttl_secs s = (case sql_fault s of (f, s1) \<Rightarrow>
    if f then (Inl (Storage ''query failed''), s1)
    else case (case st_idem s1 key of Some r \<Rightarrow> if id_expires r > now then Some r else None | None \<Rightarrow> None) of
      Some r \<Rightarrow> (Inr (id_response r), s1)
    | None \<Rightarrow>
        (case sql_fault s1 of (f2, s2) \<Rightarrow>
          if f2 then (Inl (Storage ''Failed to insert idempotency key''), s2)
          else (Inr None, s2\<lparr>st_idem := (st_idem s2)(key := Some
            \<lparr> id_job = j, id_response = None, id_created = now, id_expires = now + ttl_secs \<rparr>)\<rparr>)))"

definition set_idempotency_response ::
  "string \<Rightarrow> string \<Rightarrow> SqliteStore \<Rightarrow> (unit, CleanerError) result \<times> SqliteStore" where
  "set_idempotency_response key payload s = (case sql_fault s of (f, s1) \<Rightarrow>
    if f then (Inl (Storage ''Failed to set idempotency response''), s1)
    else (Inr (), s1\<lparr>st_idem := (st_idem s1)(key :=
      map_option (\<lambda>r. r\<lparr>id_response := Some payload\<rparr>) (st_idem s1 key))\<rparr>))"

definition append_outbox ::
  "UnixTimestamp \<Rightarrow> string \<Rightarrow> string \<Rightarrow> SqliteStore \<Rightarrow> (unit, CleanerError) result \<times> SqliteStore" where
  "append_outbox now ty payload s = (case sql_fault s of (f, s1) \<Rightarrow>
    if f then (Inl (Storage ''Failed to append outbox event''), s1)
    else (Inr (), s1\<lparr>st_outbox := st_outbox s1 @ [(ty, payload, ''PENDING'', now)]\<rparr>))"

section \<open>Scripted failures\<close>

text \<open>The tables of two stores agree.\<close>

definition same_tables :: "SqliteStore \<Rightarrow> SqliteStore \<Rightarrow> bool" where
  "same_tables s s' \<longleftrightarrow> (\<exists>fs. s' = s\<lparr>st_faults := fs\<rparr>)"

lemma same_tables_refl [simp]: "same_tables s s"
  unfolding same_tables_def by (rule exI [of _ "st_faults s"]) simp

lemma same_tables_trans: "same_tables s s1 \<Longrightarrow> same_tables s1 s2 \<Longrightarrow> same_tables s s2"
  by (auto simp: same_tables_def)

lemma same_tables_fields:
  "same_tables s s' \<Longrightarrow>
    st_jobs s' = st_jobs s \<and> st_attempts s' = st_attempts s \<and> st_intents s' = st_intents s \<and>
    st_next_intent s' = st_next_intent s \<and> st_operations s' = st_operations s \<and>
    st_leases s' = st_leases s \<and> st_idem s' = st_idem s \<and> st_outbox s' = st_outbox s"
  by (auto simp: same_tables_def)

lemma sql_fault_same: "sql_fault s = (f, s') \<Longrightarrow> same_tables s s'"
  by (auto simp: sql_fault_def split: list.splits) (auto simp: same_tables_def)

lemma same_tables_rollback: "same_tables s0 (rollback s0 s)"
  by (auto simp: same_tables_def rollback_def)

lemma sql_fault_none: "st_faults s = [] \<Longrightarrow> sql_fault s = (False, s)"
  by (simp add: sql_fault_def)

section \<open>The invariant of the tables\<close>

text \<open>The columns that keys and references use.\<close>

definition job_ids :: "SqliteStore \<Rightarrow> JobId list" where
  "job_ids s = map jb_id (st_jobs s)"

definition attempt_keys :: "SqliteStore \<Rightarrow> (AttemptId \<times> JobId) list" where
  "attempt_keys s = map (\<lambda>r. (ar_id r, ar_job r)) (st_attempts s)"

definition intent_keys :: "SqliteStore \<Rightarrow> (int \<times> JobId \<times> AttemptId \<times> OperationId) list" where
  "intent_keys s = map (\<lambda>r. (ir_id r, ir_job r, ir_attempt r, ir_op r)) (st_intents s)"

definition store_inv :: "SqliteStore \<Rightarrow> bool" where
  "store_inv s \<longleftrightarrow>
    distinct (job_ids s) \<and>
    distinct (map fst (attempt_keys s)) \<and> snd ` set (attempt_keys s) \<subseteq> set (job_ids s) \<and>
    distinct (map (\<lambda>k. snd (snd k)) (intent_keys s)) \<and>
    (\<lambda>k. fst (snd k)) ` set (intent_keys s) \<subseteq> set (job_ids s) \<and>
    sorted_wrt (<) (map fst (intent_keys s)) \<and>
    (\<forall>k\<in>set (intent_keys s). fst k < st_next_intent s) \<and>
    fst ` dom (st_operations s) \<subseteq> set (job_ids s)"

lemma store_inv_frame:
  "job_ids s' = job_ids s \<Longrightarrow> attempt_keys s' = attempt_keys s \<Longrightarrow> intent_keys s' = intent_keys s \<Longrightarrow>
    st_next_intent s' = st_next_intent s \<Longrightarrow> st_operations s' = st_operations s \<Longrightarrow>
    store_inv s' \<longleftrightarrow> store_inv s"
  by (simp add: store_inv_def)

lemmas key_columns = job_ids_def attempt_keys_def intent_keys_def

lemma store_inv_same: "same_tables s s' \<Longrightarrow> store_inv s' \<longleftrightarrow> store_inv s"
  using same_tables_fields [of s s'] by (intro store_inv_frame) (simp_all add: key_columns)

lemma store_inv_rollback [simp]: "store_inv (rollback s0 s) = store_inv s0"
  by (rule store_inv_same [OF same_tables_rollback])

lemma store_inv_fault: "sql_fault s = (f, s') \<Longrightarrow> store_inv s' \<longleftrightarrow> store_inv s"
  by (rule store_inv_same [OF sql_fault_same])

lemma store_inv_leases [simp]: "store_inv (s\<lparr>st_leases := l\<rparr>) = store_inv s"
  by (intro store_inv_frame) (simp_all add: key_columns)

lemma store_inv_idem [simp]: "store_inv (s\<lparr>st_idem := l\<rparr>) = store_inv s"
  by (intro store_inv_frame) (simp_all add: key_columns)

lemma store_inv_outbox [simp]: "store_inv (s\<lparr>st_outbox := l\<rparr>) = store_inv s"
  by (intro store_inv_frame) (simp_all add: key_columns)

lemma job_exists_iff: "job_exists s j \<longleftrightarrow> j \<in> set (job_ids s)"
  by (auto simp: job_exists_def job_ids_def list_ex_iff)

lemma intent_exists_iff:
  "intent_exists s a oi \<longleftrightarrow> (a, oi) \<in> (\<lambda>k. snd (snd k)) ` set (intent_keys s)"
  by (force simp: intent_exists_def intent_keys_def list_ex_iff)

lemma map_update_same:
  "(\<And>r. f (g r) = f r) \<Longrightarrow> map f (map (\<lambda>r. if P r then g r else r) xs) = map f xs"
  by simp

lemma store_inv_jobs_map:
  "(\<And>r. jb_id (g r) = jb_id r) \<Longrightarrow> store_inv (s\<lparr>st_jobs := map g (st_jobs s)\<rparr>) = store_inv s"
  by (intro store_inv_frame) (simp_all add: key_columns)

lemma store_inv_attempts_map:
  "(\<And>r. ar_id (g r) = ar_id r \<and> ar_job (g r) = ar_job r) \<Longrightarrow>
    store_inv (s\<lparr>st_attempts := map g (st_attempts s)\<rparr>) = store_inv s"
  by (intro store_inv_frame) (simp_all add: key_columns)

lemma store_inv_intents_map:
  "(\<And>r. ir_id (g r) = ir_id r \<and> ir_job (g r) = ir_job r \<and> ir_attempt (g r) = ir_attempt r \<and> ir_op (g r) = ir_op r) \<Longrightarrow>
    store_inv (s\<lparr>st_intents := map g (st_intents s)\<rparr>) = store_inv s"
  by (intro store_inv_frame) (simp_all add: key_columns)

lemma store_inv_add_job:
  assumes "\<not> job_exists s (jb_id r)" "store_inv s"
  shows "store_inv (s\<lparr>st_jobs := st_jobs s @ [r]\<rparr>)"
proof -
  have "job_ids (s\<lparr>st_jobs := st_jobs s @ [r]\<rparr>) = job_ids s @ [jb_id r]"
    "attempt_keys (s\<lparr>st_jobs := st_jobs s @ [r]\<rparr>) = attempt_keys s"
    "intent_keys (s\<lparr>st_jobs := st_jobs s @ [r]\<rparr>) = intent_keys s"
    by (simp_all add: key_columns)
  then show ?thesis
    using assms unfolding store_inv_def job_exists_iff by (simp add: subset_insertI2)
qed

lemma store_inv_add_attempt:
  assumes "\<not> list_ex (\<lambda>q. ar_id q = ar_id r) (st_attempts s)" "job_exists s (ar_job r)" "store_inv s"
  shows "store_inv (s\<lparr>st_attempts := st_attempts s @ [r]\<rparr>)"
proof -
  have "job_ids (s\<lparr>st_attempts := st_attempts s @ [r]\<rparr>) = job_ids s"
    "attempt_keys (s\<lparr>st_attempts := st_attempts s @ [r]\<rparr>) = attempt_keys s @ [(ar_id r, ar_job r)]"
    "intent_keys (s\<lparr>st_attempts := st_attempts s @ [r]\<rparr>) = intent_keys s"
    by (simp_all add: key_columns)
  moreover have "ar_id r \<notin> fst ` set (attempt_keys s)"
    using assms(1) by (force simp: attempt_keys_def list_ex_iff)
  ultimately show ?thesis
    using assms unfolding store_inv_def job_exists_iff by simp
qed

lemma store_inv_register: "store_inv s \<Longrightarrow> store_inv (snd (register_job now j ty cat cfg s))"
  by (cases "sql_fault s")
    (simp add: register_job_def store_inv_fault store_inv_jobs_map store_inv_add_job)

lemma store_inv_update_job: "store_inv s \<Longrightarrow> store_inv (snd (update_job_state now j st b s))"
  by (cases "sql_fault s") (simp add: update_job_state_def store_inv_fault store_inv_jobs_map)

lemma store_inv_create_attempt: "store_inv s \<Longrightarrow> store_inv (snd (create_attempt now a j w d s))"
  by (cases "sql_fault s")
    (simp add: create_attempt_def store_inv_fault store_inv_attempts_map store_inv_add_attempt)

lemma store_inv_update_attempt: "store_inv s \<Longrightarrow> store_inv (snd (update_attempt_state now a st s))"
  by (cases "sql_fault s") (simp add: update_attempt_state_def store_inv_fault store_inv_attempts_map)

lemma store_inv_add_intent:
  assumes "job_exists s (in_job_id it)" "\<not> intent_exists s (in_attempt_id it) (in_op_id it)" "store_inv s"
  shows "store_inv (s\<lparr>st_intents := st_intents s @ [intent_row (st_next_intent s) it],
      st_next_intent := st_next_intent s + 1\<rparr>)"
proof -
  have keys: "intent_keys (s\<lparr>st_intents := st_intents s @ [intent_row (st_next_intent s) it],
      st_next_intent := st_next_intent s + 1\<rparr>) =
      intent_keys s @ [(st_next_intent s, in_job_id it, in_attempt_id it, in_op_id it)]"
    by (simp add: intent_keys_def intent_row_def)
  have "(in_attempt_id it, in_op_id it) \<notin> (\<lambda>k. snd (snd k)) ` set (intent_keys s)"
    using assms(2) by (simp add: intent_exists_iff)
  moreover have "sorted_wrt (<) (map fst (intent_keys s) @ [st_next_intent s])"
    using assms(3) by (auto simp: store_inv_def sorted_wrt_append)
  moreover have "job_ids (s\<lparr>st_intents := st_intents s @ [intent_row (st_next_intent s) it],
        st_next_intent := st_next_intent s + 1\<rparr>) = job_ids s"
    "attempt_keys (s\<lparr>st_intents := st_intents s @ [intent_row (st_next_intent s) it],
        st_next_intent := st_next_intent s + 1\<rparr>) = attempt_keys s"
    by (simp_all add: key_columns)
  ultimately show ?thesis
    using assms(1,3) unfolding store_inv_def keys job_exists_iff by auto
qed

lemma store_inv_commit: "store_inv s \<Longrightarrow> store_inv (snd (commit_operation_intent it s))"
  by (cases "sql_fault s")
    (simp add: commit_operation_intent_def store_inv_fault store_inv_add_intent)

lemma store_inv_insert_intents: "store_inv s \<Longrightarrow> store_inv (snd (insert_intents its s))"
proof (induction its arbitrary: s)
  case (Cons it its)
  then show ?case
    using store_inv_commit [OF Cons.prems, of it] by (auto split: prod.splits sum.splits)
qed simp

lemma store_inv_batch:
  assumes "store_inv s"
  shows "store_inv (snd (commit_operation_intents_batch its s))"
proof -
  obtain f s1 where flt: "sql_fault s = (f, s1)" and inv: "store_inv s1"
    using assms store_inv_fault by (cases "sql_fault s") blast
  show ?thesis
    using flt inv assms store_inv_insert_intents [OF inv, of its] store_inv_fault
    by (auto simp: commit_operation_intents_batch_def split: prod.splits sum.splits if_splits)
qed

lemma store_inv_update_intent: "store_inv s \<Longrightarrow> store_inv (snd (update_intent_state now a oi st s))"
  by (cases "sql_fault s") (simp add: update_intent_state_def store_inv_fault store_inv_intents_map)

lemma store_inv_operations:
  assumes "job_exists s (fst k)" "store_inv s"
  shows "store_inv (s\<lparr>st_operations := (st_operations s)(k := Some r)\<rparr>)"
proof -
  have "job_ids (s\<lparr>st_operations := (st_operations s)(k := Some r)\<rparr>) = job_ids s"
    "attempt_keys (s\<lparr>st_operations := (st_operations s)(k := Some r)\<rparr>) = attempt_keys s"
    "intent_keys (s\<lparr>st_operations := (st_operations s)(k := Some r)\<rparr>) = intent_keys s"
    by (simp_all add: key_columns)
  then show ?thesis
    using assms unfolding store_inv_def job_exists_iff by auto
qed

lemma store_inv_record:
  "store_inv s \<Longrightarrow> store_inv (snd (record_operation_result j pl t ty rel f est res s))"
  by (cases "sql_fault s")
    (simp add: record_operation_result_def store_inv_fault store_inv_operations)

section \<open>Leases\<close>

text \<open>Who holds a resource, and until when.\<close>

definition lease_of :: "SqliteStore \<Rightarrow> string \<Rightarrow> (WorkerId \<times> u64) option" where
  "lease_of s res = map_option (\<lambda>l. (lr_worker l, lr_expires l)) (st_leases s res)"

text \<open>The lease operations change nothing but leases.\<close>

definition lease_only :: "SqliteStore \<Rightarrow> SqliteStore \<Rightarrow> bool" where
  "lease_only s s' \<longleftrightarrow> (\<exists>l fs. s' = s\<lparr>st_leases := l, st_faults := fs\<rparr>)"

lemma lease_only_fault: "sql_fault s = (f, s') \<Longrightarrow> \<exists>fs. s' = s\<lparr>st_faults := fs\<rparr>"
  using sql_fault_same by (simp add: same_tables_def)

lemma acquire_lease_cases:
  assumes "acquire_lease now res w ttl s = (r, s')"
  shows "lease_only s s' \<and>
    (case r of
       Inl _ \<Rightarrow> st_leases s' = st_leases s
     | Inr False \<Rightarrow> st_leases s' = st_leases s \<and>
         (\<exists>l. st_leases s res = Some l \<and> lr_worker l \<noteq> w \<and> now < lr_expires l)
     | Inr True \<Rightarrow> (\<forall>l. st_leases s res = Some l \<longrightarrow> lr_worker l = w \<or> lr_expires l \<le> now) \<and>
         st_leases s' = (st_leases s)(res := Some
           \<lparr> lr_worker = w, lr_token = lease_token w now, lr_acquired = now, lr_expires = now + ttl \<rparr>))"
proof -
  obtain f0 fs0 where f0: "sql_fault s = (f0, s\<lparr>st_faults := fs0\<rparr>)"
    using lease_only_fault by (cases "sql_fault s") blast
  obtain f1 fs1 where f1: "sql_fault (s\<lparr>st_faults := fs0\<rparr>) = (f1, s\<lparr>st_faults := fs1\<rparr>)"
    using lease_only_fault by (cases "sql_fault (s\<lparr>st_faults := fs0\<rparr>)") fastforce
  define L where "L = (if f1 then st_leases s else case st_leases s res of
      Some l \<Rightarrow> if lr_expires l \<le> now then (st_leases s)(res := None) else st_leases s | None \<Rightarrow> st_leases s)"
  let ?s2 = "s\<lparr>st_leases := L, st_faults := fs1\<rparr>"
  obtain f2 fs2 where f2: "sql_fault ?s2 = (f2, s\<lparr>st_leases := L, st_faults := fs2\<rparr>)"
    using lease_only_fault by (cases "sql_fault ?s2") fastforce
  obtain f3 fs3 where f3: "sql_fault (s\<lparr>st_leases := L, st_faults := fs2\<rparr>) = (f3, s\<lparr>st_leases := L, st_faults := fs3\<rparr>)"
    using lease_only_fault by (cases "sql_fault (s\<lparr>st_leases := L, st_faults := fs2\<rparr>)") fastforce
  define N where "N = L(res := Some
      \<lparr> lr_worker = w, lr_token = lease_token w now, lr_acquired = now, lr_expires = now + ttl \<rparr>)"
  obtain f4 fs4 where f4: "sql_fault (s\<lparr>st_leases := N, st_faults := fs3\<rparr>) = (f4, s\<lparr>st_leases := N, st_faults := fs4\<rparr>)"
    using lease_only_fault by (cases "sql_fault (s\<lparr>st_leases := N, st_faults := fs3\<rparr>)") fastforce
  have s2: "(if f1 then s\<lparr>st_faults := fs1\<rparr> else delete_expired now res (s\<lparr>st_faults := fs1\<rparr>)) = ?s2"
    by (auto simp: L_def delete_expired_def split: option.splits)
  have comm: "s\<lparr>st_faults := a, st_leases := b\<rparr> = s\<lparr>st_leases := b, st_faults := a\<rparr>" for a b
    by simp
  have run: "acquire_lease now res w ttl s =
     (if f0 then (Inl (Storage ''begin failed''), s\<lparr>st_faults := fs0\<rparr>)
      else if f2 then (Inl (Storage ''query failed''), s\<lparr>st_faults := fs2\<rparr>)
      else if (case L res of Some l \<Rightarrow> lr_worker l \<noteq> w \<and> lr_expires l > now | None \<Rightarrow> False)
      then (Inr False, s\<lparr>st_faults := fs2\<rparr>)
      else if f3 then (Inl (Storage ''Failed to insert lease''), s\<lparr>st_faults := fs3\<rparr>)
      else if f4 then (Inl (Storage ''commit failed''), s\<lparr>st_faults := fs4\<rparr>)
      else (Inr True, s\<lparr>st_leases := N, st_faults := fs4\<rparr>))"
    using f2 f3 f4 by (simp only: acquire_lease_def f0 f1 s2 prod.case) (simp add: rollback_def N_def comm)
  have same: "lease_only s (s\<lparr>st_faults := fs\<rparr>)" for fs
    unfolding lease_only_def by (rule exI [of _ "st_leases s"], rule exI [of _ fs]) simp
  have new: "lease_only s (s\<lparr>st_leases := N, st_faults := fs4\<rparr>)"
    unfolding lease_only_def by blast
  have N: "N = (st_leases s)(res := Some
      \<lparr> lr_worker = w, lr_token = lease_token w now, lr_acquired = now, lr_expires = now + ttl \<rparr>)"
    by (auto simp: N_def L_def split: option.splits)
  show ?thesis
    using assms same new N unfolding run
    by (auto simp: L_def not_less split: if_splits option.splits)
qed

lemma release_lease_cases:
  assumes "release_lease res w s = (r, s')"
  shows "lease_only s s' \<and> (\<forall>res'. res' \<noteq> res \<longrightarrow> st_leases s' res' = st_leases s res') \<and>
    (\<forall>l. st_leases s res = Some l \<longrightarrow> lr_worker l \<noteq> w \<longrightarrow> st_leases s' res = Some l) \<and>
    (r = Inr () \<longrightarrow> (\<forall>l. st_leases s' res = Some l \<longrightarrow> lr_worker l \<noteq> w))"
proof -
  obtain f fs where f: "sql_fault s = (f, s\<lparr>st_faults := fs\<rparr>)"
    using lease_only_fault by (cases "sql_fault s") blast
  have same: "lease_only s (s\<lparr>st_faults := fs\<rparr>)"
    unfolding lease_only_def by (rule exI [of _ "st_leases s"], rule exI [of _ fs]) simp
  have new: "lease_only s (s\<lparr>st_faults := fs, st_leases := l\<rparr>)" for l
    unfolding lease_only_def by (rule exI [of _ l], rule exI [of _ fs]) simp
  show ?thesis
    using assms same new by (auto simp: release_lease_def f split: if_splits option.splits)
qed

lemma store_inv_lease_only: "lease_only s s' \<Longrightarrow> store_inv s' \<longleftrightarrow> store_inv s"
  unfolding lease_only_def by (elim exE, intro store_inv_frame) (simp_all add: key_columns)

lemma store_inv_acquire: "store_inv s \<Longrightarrow> store_inv (snd (acquire_lease now res w ttl s))"
  using acquire_lease_cases store_inv_lease_only by (metis surjective_pairing)

lemma store_inv_release: "store_inv s \<Longrightarrow> store_inv (snd (release_lease res w s))"
  using release_lease_cases store_inv_lease_only by (metis surjective_pairing)

lemma store_inv_check_idem: "store_inv s \<Longrightarrow> store_inv (snd (check_or_insert_idempotency now key j ttl s))"
  by (auto simp: check_or_insert_idempotency_def store_inv_fault split: prod.splits option.splits if_splits)

lemma store_inv_set_idem: "store_inv s \<Longrightarrow> store_inv (snd (set_idempotency_response key p s))"
  by (cases "sql_fault s") (simp add: set_idempotency_response_def store_inv_fault)

lemma store_inv_append_outbox: "store_inv s \<Longrightarrow> store_inv (snd (append_outbox now ty p s))"
  by (cases "sql_fault s") (simp add: append_outbox_def store_inv_fault)

text \<open>What a client of leases does, as data: acquire with the clock reading of the call, or release.\<close>

datatype ('r, 'w) lease_op = LAcquire u64 'r 'w u64 | LRelease 'r 'w

fun lease_apply ::
  "(u64 \<Rightarrow> 'r \<Rightarrow> 'w \<Rightarrow> u64 \<Rightarrow> 's \<Rightarrow> (bool, 'e) result \<times> 's) \<Rightarrow> ('r \<Rightarrow> 'w \<Rightarrow> 's \<Rightarrow> (unit, 'e) result \<times> 's)
    \<Rightarrow> ('r, 'w) lease_op \<Rightarrow> 's \<Rightarrow> 's" where
  "lease_apply acq rel (LAcquire t r w ttl) s = snd (acq t r w ttl s)"
| "lease_apply acq rel (LRelease r w) s = snd (rel r w s)"

text \<open>An operation by another worker, and while the clock reads less than \<open>e\<close>.\<close>

fun lease_foreign :: "'w \<Rightarrow> u64 \<Rightarrow> ('r, 'w) lease_op \<Rightarrow> bool" where
  "lease_foreign w e (LAcquire t r w' ttl) = (w' \<noteq> w \<and> t < e)"
| "lease_foreign w e (LRelease r w') = (w' \<noteq> w)"

locale lease_store =
  fixes holder :: "'s \<Rightarrow> 'r \<Rightarrow> ('w \<times> u64) option"
    and acq :: "u64 \<Rightarrow> 'r \<Rightarrow> 'w \<Rightarrow> u64 \<Rightarrow> 's \<Rightarrow> (bool, 'e) result \<times> 's"
    and rel :: "'r \<Rightarrow> 'w \<Rightarrow> 's \<Rightarrow> (unit, 'e) result \<times> 's"
  assumes acq_true: "acq t r w ttl s = (Inr True, s') \<Longrightarrow> holder s' r = Some (w, t + ttl)"
    and acq_held: "holder s r = Some (w', e) \<Longrightarrow> w' \<noteq> w \<Longrightarrow> t < e \<Longrightarrow>
      acq t r w ttl s = (x, s') \<Longrightarrow> x \<noteq> Inr True \<and> holder s' r = Some (w', e)"
    and acq_other: "r' \<noteq> r \<Longrightarrow> holder (snd (acq t r w ttl s)) r' = holder s r'"
    and rel_foreign: "holder s r = Some (w', e) \<Longrightarrow> w' \<noteq> w \<Longrightarrow> holder (snd (rel r w s)) r = Some (w', e)"
    and rel_other: "r' \<noteq> r \<Longrightarrow> holder (snd (rel r w s)) r' = holder s r'"
begin

lemma keep_step:
  assumes "holder s r = Some (w, e)" "lease_foreign w e x"
  shows "holder (lease_apply acq rel x s) r = Some (w, e)"
proof (cases x)
  case (LAcquire t r' w' ttl)
  then show ?thesis
    using assms acq_held [of s r w e w' t ttl] acq_other [of r r'] by (cases "r' = r") (auto, metis prod.collapse)
next
  case (LRelease r' w')
  then show ?thesis
    using assms rel_foreign [of s r w e w'] rel_other [of r r'] by (cases "r' = r") auto
qed

lemma keep_run:
  "holder s r = Some (w, e) \<Longrightarrow> list_all (lease_foreign w e) xs \<Longrightarrow>
    holder (fold (lease_apply acq rel) xs s) r = Some (w, e)"
  by (induction xs arbitrary: s) (auto simp: keep_step)

lemma exclusive:
  assumes "acq t r w ttl s = (Inr True, s')" "list_all (lease_foreign w (t + ttl)) xs"
    "w' \<noteq> w" "t' < t + ttl"
  shows "fst (acq t' r w' ttl' (fold (lease_apply acq rel) xs s')) \<noteq> Inr True"
  using keep_run [OF acq_true [OF assms(1)] assms(2)] acq_held [OF _ _ assms(4)] assms(3)
  by (metis prod.collapse)

end

interpretation leases: lease_store lease_of acquire_lease release_lease
proof
  fix s s' r w w' t ttl e x
  show "acquire_lease t r w ttl s = (Inr True, s') \<Longrightarrow> lease_of s' r = Some (w, t + ttl)"
    using acquire_lease_cases [of t r w ttl s "Inr True" s'] by (simp add: lease_of_def)
  assume "lease_of s r = Some (w', e)" "w' \<noteq> w"
  then show "t < e \<Longrightarrow> acquire_lease t r w ttl s = (x, s') \<Longrightarrow>
      x \<noteq> Inr True \<and> lease_of s' r = Some (w', e)"
    using acquire_lease_cases [of t r w ttl s x s'] by (auto simp: lease_of_def split: sum.splits bool.splits)
next
  fix s and r r' :: string and t w ttl
  assume "r' \<noteq> r"
  then show "lease_of (snd (acquire_lease t r w ttl s)) r' = lease_of s r'"
    using acquire_lease_cases [of t r w ttl s] 
    by (cases "acquire_lease t r w ttl s") (auto simp: lease_of_def split: sum.splits bool.splits)
next
  fix s r w w' e
  assume "lease_of s r = Some (w', e)" "w' \<noteq> w"
  then show "lease_of (snd (release_lease r w s)) r = Some (w', e)"
    using release_lease_cases [of r w s] by (cases "release_lease r w s") (auto simp: lease_of_def)
next
  fix s r w and r' :: string
  assume "r' \<noteq> r"
  then show "lease_of (snd (release_lease r w s)) r' = lease_of s r'"
    using release_lease_cases [of r w s] by (cases "release_lease r w s") (auto simp: lease_of_def)
qed

section \<open>Reading intents back\<close>

text \<open>What reading gives for an intent: its row id, and no resolution time yet.\<close>

fun number_intents :: "int \<Rightarrow> OperationIntent list \<Rightarrow> OperationIntent list" where
  "number_intents n [] = []"
| "number_intents n (it # its) =
    it\<lparr>intent_id := Some n, in_resolved_at := None\<rparr> # number_intents (n + 1) its"

fun intent_rows :: "int \<Rightarrow> OperationIntent list \<Rightarrow> IntentRow list" where
  "intent_rows n [] = []"
| "intent_rows n (it # its) = intent_row n it # intent_rows (n + 1) its"

text \<open>The identifier and the path of an intent as the catalog and the scanner make them.\<close>

definition readable :: "OperationIntent \<Rightarrow> bool" where
  "readable it \<longleftrightarrow> TargetId_new (target_str (in_target_id it)) = Some (in_target_id it) \<and>
    RelativePath_parse (rp_str (in_rel_path it)) = Some (in_rel_path it)"

lemma parse_mutation_display [simp]: "parse_mutation_type (MutationType_display m) = m"
  by (cases m) (simp_all add: parse_mutation_type_def MutationType_display_def)

lemma parse_state_display [simp]: "parse_intent_state (IntentState_display st) = st"
  by (cases st) (simp_all add: parse_intent_state_def IntentState_display_def)

lemma row_intent_round_trip:
  "readable it \<Longrightarrow> row_intent (intent_row n it) = Inr (it\<lparr>intent_id := Some n, in_resolved_at := None\<rparr>)"
  by (simp add: row_intent_def intent_row_def readable_def unwrap_or_def)

lemma rows_intents_round_trip:
  "list_all readable its \<Longrightarrow> rows_intents (intent_rows n its) = Inr (number_intents n its)"
  by (induction its arbitrary: n) (simp_all add: row_intent_round_trip)

lemma row_intent_panics:
  "row_intent r = Inl e \<Longrightarrow> e = Panic ''TargetId must be non-empty, <=512, no NUL/newline''"
  by (simp add: row_intent_def split: option.splits)

lemma rows_intents_panic:
  "r \<in> set rs \<Longrightarrow> TargetId_new (ir_target r) = None \<Longrightarrow>
    rows_intents rs = Inl (Panic ''TargetId must be non-empty, <=512, no NUL/newline'')"
proof (induction rs)
  case (Cons q rs)
  show ?case
  proof (cases "row_intent q")
    case (Inl e)
    then show ?thesis using row_intent_panics [OF Inl] by simp
  next
    case (Inr it)
    then have "q \<noteq> r" using Cons.prems(2) by (auto simp: row_intent_def)
    then show ?thesis using Inr Cons by simp
  qed
qed simp

lemma commit_operation_intent_Inr:
  assumes "commit_operation_intent it s = (Inr i, s')"
  shows "i = st_next_intent s \<and> st_intents s' = st_intents s @ [intent_row i it] \<and> st_next_intent s' = i + 1 \<and>
    \<not> intent_exists s (in_attempt_id it) (in_op_id it)"
proof -
  obtain f s1 where f: "sql_fault s = (f, s1)" by fastforce
  show ?thesis
    using assms same_tables_fields [OF sql_fault_same [OF f]]
    by (auto simp: commit_operation_intent_def f intent_exists_def split: if_splits)
qed

lemma insert_intents_Inr:
  "insert_intents its s = (Inr u, s') \<Longrightarrow> st_intents s' = st_intents s @ intent_rows (st_next_intent s) its"
proof (induction its arbitrary: s)
  case (Cons it its)
  then obtain i s1 where "commit_operation_intent it s = (Inr i, s1)" "insert_intents its s1 = (Inr u, s')"
    by (auto split: prod.splits sum.splits)
  with Cons.IH commit_operation_intent_Inr show ?case by fastforce
qed simp

lemma intent_rows_attempt:
  "list_all (\<lambda>it. in_attempt_id it = a) its \<Longrightarrow>
    filter (\<lambda>r. ir_attempt r = a) (intent_rows n its) = intent_rows n its"
  by (induction its arbitrary: n) (simp_all add: intent_row_def)

lemma batch_Inr:
  assumes "commit_operation_intents_batch its s = (Inr u, s')"
  shows "st_intents s' = st_intents s @ intent_rows (st_next_intent s) its"
proof (cases "its = []")
  case True
  then show ?thesis using assms by (simp add: commit_operation_intents_batch_def)
next
  case False
  obtain f s1 where f: "sql_fault s = (f, s1)" by fastforce
  obtain x s2 where x: "insert_intents its s1 = (x, s2)" by fastforce
  obtain g s3 where g: "sql_fault s2 = (g, s3)" by fastforce
  have "x = Inr () \<and> s' = s3"
    using assms False by (auto simp: commit_operation_intents_batch_def f x g split: if_splits sum.splits)
  then show ?thesis
    using insert_intents_Inr [of its s1 "()" s2] x same_tables_fields [OF sql_fault_same [OF f]]
      same_tables_fields [OF sql_fault_same [OF g]] by simp
qed

section \<open>Runs of the store\<close>

text \<open>Any caller, with any arguments, at any time; the executor, the worker pool, recovery and the pipeline
  use the store only through these calls.\<close>

inductive store_step :: "SqliteStore \<Rightarrow> SqliteStore \<Rightarrow> bool" where
  max_job: "store_step s (snd (get_max_job_id s))"
| register: "store_step s (snd (register_job now j ty cat cfg s))"
| update_job: "store_step s (snd (update_job_state now j st b s))"
| max_attempt: "store_step s (snd (get_max_attempt_id s))"
| create: "store_step s (snd (create_attempt now a j w d s))"
| update_attempt: "store_step s (snd (update_attempt_state now a st s))"
| commit: "store_step s (snd (commit_operation_intent it s))"
| batch: "store_step s (snd (commit_operation_intents_batch its s))"
| update_intent: "store_step s (snd (update_intent_state now a oi st s))"
| summary: "store_step s (snd (get_job_summary j s))"
| record_result: "store_step s (snd (record_operation_result j pl t ty rel f est res s))"
| acquire: "store_step s (snd (acquire_lease now r w ttl s))"
| release: "store_step s (snd (release_lease r w s))"
| check_idem: "store_step s (snd (check_or_insert_idempotency now key j ttl s))"
| set_idem: "store_step s (snd (set_idempotency_response key p s))"
| outbox: "store_step s (snd (append_outbox now ty p s))"
| uncompleted: "store_step s (snd (get_uncompleted_attempts s))"
| intents: "store_step s (snd (get_operation_intents_for_attempt a s))"

inductive store_run :: "SqliteStore \<Rightarrow> SqliteStore \<Rightarrow> bool" where
  refl: "store_run s s"
| step: "store_run s s1 \<Longrightarrow> store_step s1 s2 \<Longrightarrow> store_run s s2"

lemmas store_inv_ops =
  store_inv_register store_inv_update_job store_inv_create_attempt store_inv_update_attempt
  store_inv_commit store_inv_batch store_inv_update_intent store_inv_record
  store_inv_acquire store_inv_release store_inv_check_idem store_inv_set_idem store_inv_append_outbox

lemma store_inv_reads:
  "store_inv (snd (get_max_job_id s)) = store_inv s" "store_inv (snd (get_max_attempt_id s)) = store_inv s"
  "store_inv (snd (get_job_summary j s)) = store_inv s" "store_inv (snd (get_uncompleted_attempts s)) = store_inv s"
  "store_inv (snd (get_operation_intents_for_attempt a s)) = store_inv s"
  by (simp_all add: get_max_job_id_def get_max_attempt_id_def get_job_summary_def get_uncompleted_attempts_def
      get_operation_intents_for_attempt_def store_inv_fault split: prod.splits)

lemma store_inv_step: "store_step s s' \<Longrightarrow> store_inv s \<Longrightarrow> store_inv s'"
  by (induction rule: store_step.induct) (simp_all add: store_inv_ops store_inv_reads)

lemma store_inv_empty: "store_inv (Store_empty fs)"
  by (simp add: store_inv_def Store_empty_def key_columns dom_def)

lemma store_inv_run: "store_run s s' \<Longrightarrow> store_inv s \<Longrightarrow> store_inv s'"
  by (induction rule: store_run.induct) (simp_all add: store_inv_step)



text \<open>
  C21.  Leases exclude: after a worker has acquired a resource, no other worker acquires it before the
  lease expires, whatever the other workers acquire and release in between and whichever statements fail.
\<close>

theorem lease_exclusive:
  assumes "acquire_lease now res w ttl s = (Inr True, s1)"
    and "list_all (lease_foreign w (now + ttl)) ops" and "w' \<noteq> w" and "now' < now + ttl"
  shows "fst (acquire_lease now' res w' ttl' (fold (lease_apply acquire_lease release_lease) ops s1)) \<noteq> Inr True"
  using assms by (rule leases.exclusive)

theorem lease_exclusive_witness:
  "fst (acquire_lease 105 ''r'' (WorkerId 2) 60
     (fold (lease_apply acquire_lease release_lease) [LAcquire 101 ''r'' (WorkerId 2) 60, LRelease ''r'' (WorkerId 2)]
       (snd (acquire_lease 100 ''r'' (WorkerId 1) 60 (Store_empty []))))) \<noteq> Inr True"
proof -
  have "fst (acquire_lease 100 ''r'' (WorkerId 1) 60 (Store_empty [])) = Inr True"
    by (simp add: acquire_lease_def sql_fault_def Store_empty_def delete_expired_def)
  then have "acquire_lease 100 ''r'' (WorkerId 1) 60 (Store_empty []) =
      (Inr True, snd (acquire_lease 100 ''r'' (WorkerId 1) 60 (Store_empty [])))"
    by (metis prod.collapse)
  then show ?thesis by (rule lease_exclusive) simp_all
qed

text \<open>
  Write-ahead intents survive a round trip: once a batch for a fresh attempt is committed, reading the
  attempt's intents gives exactly the batch, in order, each with its row id and unresolved.
\<close>

theorem intents_round_trip:
  assumes "commit_operation_intents_batch its s = (Inr (), s1)"
    and "list_all (\<lambda>it. in_attempt_id it = a \<and> readable it) its"
    and "list_all (\<lambda>r. ir_attempt r \<noteq> a) (st_intents s)" and "fst (sql_fault s1) = False"
  shows "fst (get_operation_intents_for_attempt a s1) = Inr (number_intents (st_next_intent s) its)"
proof -
  obtain s2 where f: "sql_fault s1 = (False, s2)" using assms(4) by (cases "sql_fault s1") simp
  have "filter (\<lambda>r. ir_attempt r = a) (st_intents s) = []"
    using assms(3) by (simp add: filter_empty_conv list_all_iff)
  moreover have "list_all (\<lambda>it. in_attempt_id it = a) its" "list_all readable its"
    using assms(2) by (simp_all add: list_all_iff)
  ultimately show ?thesis
    using batch_Inr [OF assms(1)] same_tables_fields [OF sql_fault_same [OF f]]
    by (simp add: get_operation_intents_for_attempt_def f intent_rows_attempt rows_intents_round_trip)
qed

definition example_intent :: "string \<Rightarrow> OperationIntent" where
  "example_intent tgt =
    \<lparr> intent_id = None, in_job_id = JobId 1, in_attempt_id = AttemptId 1, in_op_id = OperationId 1,
      in_target_id = TargetId tgt, in_rel_path = RelativePath ''a/b'',
      in_expected_identity = \<lparr> fid_dev = 1, fid_ino = 2 \<rparr>, in_estimated_bytes = 10,
      in_mutation_type = MtDeleteFile, in_state = Committed,
      in_catalog_generation = CatalogGeneration 1, in_config_generation = ConfigGeneration 1,
      in_committed_at = 7, in_resolved_at = None \<rparr>"

definition example_store :: SqliteStore where
  "example_store = snd (register_job 5 (JobId 1) ''clean'' (CatalogGeneration 1) (ConfigGeneration 1) (Store_empty []))"

lemmas store_eval = example_store_def example_intent_def register_job_def Store_empty_def sql_fault_def
  commit_operation_intents_batch_def commit_operation_intent_def job_exists_def intent_exists_def

theorem intents_round_trip_witness:
  "fst (get_operation_intents_for_attempt (AttemptId 1)
     (snd (commit_operation_intents_batch [example_intent ''t''] example_store)))
   = Inr [(example_intent ''t'')\<lparr>intent_id := Some 1\<rparr>]"
proof -
  have "commit_operation_intents_batch [example_intent ''t''] example_store =
      (Inr (), snd (commit_operation_intents_batch [example_intent ''t''] example_store))"
    by (simp add: store_eval)
  moreover have "readable (example_intent ''t'')"
    unfolding readable_def example_intent_def by code_simp
  ultimately show ?thesis
    using intents_round_trip [of "[example_intent ''t'']" example_store _ "AttemptId 1"]
    by (simp add: store_eval)
qed

text \<open>
  A target id with a newline passes \<open>TargetId::try_new\<close>, its intent is committed, and from then on
  reading the attempt's intents panics: crash recovery of that attempt cannot run.
\<close>

theorem newline_target_poisons_recovery:
  assumes "TargetId_try_new tgt = Some (in_target_id it)" and "CHR 0x0A \<in> set tgt"
    and "commit_operation_intent it s = (Inr i, s1)" and "fst (sql_fault s1) = False"
  shows "fst (get_operation_intents_for_attempt (in_attempt_id it) s1) =
    Inl (Panic ''TargetId must be non-empty, <=512, no NUL/newline'')"
proof -
  obtain s2 where f: "sql_fault s1 = (False, s2)" using assms(4) by (cases "sql_fault s1") simp
  have "intent_row i it \<in> set (filter (\<lambda>r. ir_attempt r = in_attempt_id it) (st_intents s2))"
    using commit_operation_intent_Inr [OF assms(3)] same_tables_fields [OF sql_fault_same [OF f]]
    by (simp add: intent_row_def)
  moreover have "target_str (in_target_id it) = tgt"
    using assms(1) by (cases "in_target_id it") (simp add: TargetId_try_new_def split: if_splits)
  then have "TargetId_new (ir_target (intent_row i it)) = None"
    using assms(2) by (simp add: TargetId_new_def intent_row_def)
  ultimately show ?thesis
    using rows_intents_panic by (simp add: get_operation_intents_for_attempt_def f)
qed

theorem newline_target_poisons_recovery_witness:
  "fst (get_operation_intents_for_attempt (AttemptId 1)
     (snd (commit_operation_intent (example_intent [CHR ''a'', CHR 0x0A, CHR ''b'']) example_store)))
   = Inl (Panic ''TargetId must be non-empty, <=512, no NUL/newline'')"
proof -
  let ?it = "example_intent [CHR ''a'', CHR 0x0A, CHR ''b'']"
  have "commit_operation_intent ?it example_store = (Inr 1, snd (commit_operation_intent ?it example_store))"
    "fst (sql_fault (snd (commit_operation_intent ?it example_store))) = False"
    by (simp_all add: store_eval)
  moreover have "TargetId_try_new [CHR ''a'', CHR 0x0A, CHR ''b''] = Some (in_target_id ?it)"
    unfolding example_intent_def by code_simp
  ultimately show ?thesis
    using newline_target_poisons_recovery [of "[CHR ''a'', CHR 0x0A, CHR ''b'']" ?it example_store 1]
    by (simp add: example_intent_def)
qed

end
