(* ===== verification/Executor.thy ===== *)
theory Executor
  imports Authorization Safety_Gate Resource_Manager Verifier Store
begin

text \<open>
  The single mutation boundary of \<open>executor/mod.rs\<close>: \<open>execute_plan\<close> with its gate, its loop over the
  planned operations, and the cached handle of the active parent directory.  The state carries the
  kernel process, the resource manager and the store, which the code shares by reference.  What the
  outside decides per operation (cancellation, clock readings, wake-ups of a wait for a descriptor
  permit, instants of the rate limiter) is a record of that operation.  The lemmas show that every
  unlink is granted, checked and preceded by a durable intent, that the counters and the reclaimed
  bytes are exact, that cancelled and unmet operations touch nothing, and that locks are released.
\<close>

record 'h ActiveDirCache =
  ac_target_id :: TargetId
  ac_parent_path :: "component list"
  ac_handle :: "'h SafeDirHandle"

record OpEnv =
  oe_cancelled :: bool
  oe_instants :: "rat list"
  oe_fd_wakes :: "nat \<Rightarrow> FdWake list"
  oe_now_gate :: UnixTimestamp
  oe_now_intent :: UnixTimestamp
  oe_now_mutating :: UnixTimestamp
  oe_now_verified :: UnixTimestamp
  oe_now_result :: UnixTimestamp

record ('h, 'w) ExecState =
  ex_proc :: "('h, 'w) Proc"
  ex_rm :: ResourceManager
  ex_store :: SqliteStore
  ex_cache :: "'h ActiveDirCache option"
  ex_results :: "OperationFinalResult list"
  ex_total :: ByteCount
  ex_success :: nat
  ex_failed :: nat
  ex_skipped :: nat
  ex_successful :: "OperationId list"

section \<open>The cached parent directory\<close>

text \<open>Dropping a handle gives its permit back.\<close>

definition drop_handle :: "'h SafeDirHandle \<Rightarrow> ResourceManager \<Rightarrow> ResourceManager" where
  "drop_handle h rm = (if sh_permit h then drop_fd_permit rm else rm)"

definition drop_permit :: "bool \<Rightarrow> ResourceManager \<Rightarrow> ResourceManager" where
  "drop_permit b rm = (if b then drop_fd_permit rm else rm)"

definition drop_cache :: "'h ActiveDirCache option \<Rightarrow> ResourceManager \<Rightarrow> ResourceManager" where
  "drop_cache c rm = (case c of None \<Rightarrow> rm | Some a \<Rightarrow> drop_handle (ac_handle a) rm)"

text \<open>\<open>acquire_fd_permit().ok()\<close>: without a permit the code goes on.\<close>

definition fd_permit_ok :: "FdWake list \<Rightarrow> ResourceManager \<Rightarrow> bool \<times> ResourceManager" where
  "fd_permit_ok ws rm = (case acquire_fd_permit_timeout ws False rm of
      (Inr _, rm1) \<Rightarrow> (True, rm1) | (Inl _, rm1) \<Rightarrow> (False, rm1))"

fun open_parents ::
  "('h, 'w) Kernel \<Rightarrow> (nat \<Rightarrow> FdWake list) \<Rightarrow> nat \<Rightarrow> 'h SafeDirHandle \<Rightarrow> component list \<Rightarrow> ResourceManager
    \<Rightarrow> ('h, 'w) Proc \<Rightarrow> ('h SafeDirHandle, CleanerError) result \<times> ResourceManager \<times> ('h, 'w) Proc" where
  "open_parents K wakes n h [] rm p = (Inr h, rm, p)"
| "open_parents K wakes n h (c # cs) rm p =
    (case fd_permit_ok (wakes n) rm of (permit, rm1) \<Rightarrow>
     case open_child_dir_with_permit K h (component_str c) permit p of
       (Inl e, p1) \<Rightarrow> (Inl e, drop_handle h (drop_permit permit rm1), p1)
     | (Inr h', p1) \<Rightarrow> open_parents K wakes (Suc n) h' cs (drop_handle h rm1) p1)"

definition file_name :: "component list \<Rightarrow> string option" where
  "file_name cs = (if cs = [] then None else case last cs of Normal s \<Rightarrow> Some s | _ \<Rightarrow> None)"

definition get_or_open_parent_dir ::
  "('h, 'w) Kernel \<Rightarrow> (nat \<Rightarrow> FdWake list) \<Rightarrow> TargetDescriptor \<Rightarrow> string \<Rightarrow> ('h, 'w) ExecState
    \<Rightarrow> ('h SafeDirHandle \<times> string, CleanerError) result \<times> ('h, 'w) ExecState" where
  "get_or_open_parent_dir K wakes target rel st =
    (let parent = butlast (components rel) in
     case file_name (components rel) of
       None \<Rightarrow> (Inl (SafetyViolation ''Invalid UTF-8 in leaf filename''), st)
     | Some leaf \<Rightarrow>
         if (case ex_cache st of Some c \<Rightarrow> ac_target_id c = td_target_id target \<and> ac_parent_path c = parent
             | None \<Rightarrow> False)
         then (Inr (ac_handle (the (ex_cache st)), leaf), st)
         else case fd_permit_ok (wakes 0) (ex_rm st) of (permit, rm1) \<Rightarrow>
           (case open_root_with_permit K (td_base_path target) permit (ex_proc st) of
              (Inl e, p1) \<Rightarrow> (Inl e, st\<lparr>ex_rm := drop_permit permit rm1, ex_proc := p1\<rparr>)
            | (Inr root_dir, p1) \<Rightarrow>
                (case open_parents K wakes 1 root_dir parent rm1 p1 of
                   (Inl e, rm2, p2) \<Rightarrow> (Inl e, st\<lparr>ex_rm := rm2, ex_proc := p2\<rparr>)
                 | (Inr h, rm2, p2) \<Rightarrow>
                     (Inr (h, leaf),
                      st\<lparr>ex_rm := drop_cache (ex_cache st) rm2, ex_proc := p2,
                         ex_cache := Some \<lparr> ac_target_id = td_target_id target,
                           ac_parent_path = parent, ac_handle = h \<rparr>\<rparr>))))"

section \<open>One operation\<close>

definition push_result ::
  "OperationId \<Rightarrow> OperationStatus \<Rightarrow> ByteCount \<Rightarrow> OpEnv \<Rightarrow> ('h, 'w) ExecState \<Rightarrow> ('h, 'w) ExecState" where
  "push_result oi status bytes e st = st\<lparr>ex_results := ex_results st @
    [\<lparr> res_op_id = oi, res_status = status, reclaimed_bytes = bytes, executed_at = oe_now_result e \<rparr>]\<rparr>"

definition fail_op ::
  "OperationId \<Rightarrow> string \<Rightarrow> OpEnv \<Rightarrow> ('h, 'w) ExecState \<Rightarrow> ('h, 'w) ExecState" where
  "fail_op oi msg e st = push_result oi (OpFailed msg) 0 e (st\<lparr>ex_failed := ex_failed st + 1\<rparr>)"

definition skip_op ::
  "OperationId \<Rightarrow> OperationStatus \<Rightarrow> OpEnv \<Rightarrow> ('h, 'w) ExecState \<Rightarrow> ('h, 'w) ExecState" where
  "skip_op oi status e st = push_result oi status 0 e (st\<lparr>ex_skipped := ex_skipped st + 1\<rparr>)"

definition required_capability :: "OperationType \<Rightarrow> Capability" where
  "required_capability t = (case t of
      DeleteFile i p _ _ \<Rightarrow> CapDeleteFile i p
    | DeleteDirEmpty i p _ \<Rightarrow> CapDeleteDirectory i p
    | PruneDirRecursive i p _ \<Rightarrow> CapDeleteDirectory i p
    | TrimFilesystem m \<Rightarrow> CapTrimMount m
    | VacuumDatabase d \<Rightarrow> CapVacuumDatabase d)"

definition unlock :: "TargetId \<Rightarrow> ReservationId \<Rightarrow> ('h, 'w) ExecState \<Rightarrow> ('h, 'w) ExecState" where
  "unlock t r st = st\<lparr>ex_rm := drop_target_lock t r (ex_rm st)\<rparr>"

text \<open>Steps 5 to 8 of both kinds of removal: lock, safety recheck, durable intent, parent directory.
  \<open>Inl (Some e)\<close> leaves \<open>execute_plan\<close> with \<open>e\<close>, \<open>Inl None\<close> goes on with the next operation.  The lock is
  released wherever its guard goes out of scope.\<close>

definition prepare_mutation ::
  "('h, 'w) Kernel \<Rightarrow> AuthorizedPlan \<Rightarrow> CatalogSnapshot \<Rightarrow> AttemptId \<Rightarrow> OpEnv \<Rightarrow> OperationId \<Rightarrow> TargetId
    \<Rightarrow> RelativePath \<Rightarrow> FileIdentity \<Rightarrow> ByteCount \<Rightarrow> MutationType \<Rightarrow> string \<Rightarrow> ('h, 'w) ExecState
    \<Rightarrow> ('h SafeDirHandle \<times> string \<times> ReservationId, CleanerError option) result \<times> ('h, 'w) ExecState" where
  "prepare_mutation K auth catalog a e oi t rel f est mt parent_msg st =
    (case snapshot_get catalog t of
       None \<Rightarrow> (Inl None, fail_op oi ''Target not found in catalog snapshot'' e st)
     | Some target \<Rightarrow>
        (case acquire_target_lock_for_attempt t a (ex_rm st) of
           (Inl _, rm1) \<Rightarrow> (Inl None, fail_op oi ''Target lock collision'' e (st\<lparr>ex_rm := rm1\<rparr>))
         | (Inr r, rm1) \<Rightarrow>
            let st1 = st\<lparr>ex_rm := rm1\<rparr>;
                cfg = grant_config_generation (ap_grant auth);
                cat = snap_generation catalog in
            (case validate_mutation_boundary (oe_now_gate e) target (rp_str rel) f oi cat cfg of
               Inl _ \<Rightarrow> (Inl None, unlock t r (fail_op oi ''Safety gate boundary rejection'' e st1))
             | Inr _ \<Rightarrow>
                (case commit_operation_intent (OperationIntent_new (oe_now_intent e) (plan_job_id (ap_plan auth))
                        a oi t rel f est mt cat cfg) (ex_store st1) of
                   (Inl _, s2) \<Rightarrow> (Inl None, unlock t r (fail_op oi
                      ''Intent commit failed (mutation not attempted)'' e (st1\<lparr>ex_store := s2\<rparr>)))
                 | (Inr _, s2) \<Rightarrow>
                    (case update_intent_state (oe_now_mutating e) a oi ''MUTATING'' s2 of
                       (Inl err, s3) \<Rightarrow> (Inl (Some err), unlock t r (st1\<lparr>ex_store := s3\<rparr>))
                     | (Inr _, s3) \<Rightarrow>
                        (case get_or_open_parent_dir K (oe_fd_wakes e) target (rp_str rel)
                                (st1\<lparr>ex_store := s3\<rparr>) of
                           (Inl _, st4) \<Rightarrow> (Inl None, unlock t r (fail_op oi parent_msg e st4))
                         | (Inr (h, leaf), st4) \<Rightarrow> (Inr (h, leaf, r), st4)))))))"

text \<open>The table of steps 9 and 10: what removal and verification together mean.  The result is the
  intent's final state, the status, and whether the estimated size counts as reclaimed.\<close>

definition judge_file ::
  "(unit, CleanerError) result \<Rightarrow> VerificationOutcome \<Rightarrow> string \<times> OperationStatus \<times> bool" where
  "judge_file m v =
    (if v = ConfirmedDeleted \<or> v = AlreadyGone
     then (''VERIFIED_SUCCESS'', Success, case m of Inr _ \<Rightarrow> True | Inl _ \<Rightarrow> False)
     else case m of
       Inr _ \<Rightarrow>
         if v = StillPresent \<or> v = IdentityMismatch
         then (''VERIFIED_FAILED'', VerificationFailed ''Postcondition verification failed'', False)
         else (''RESOLVED_UNKNOWN'', VerificationFailed ''Postcondition verification unresolved'', False)
     | Inl _ \<Rightarrow>
         if v = UnknownOutcome \<or> v = ParentUnavailable \<or> v = TargetUnavailable
         then (''RESOLVED_UNKNOWN'', OpFailed ''Mutation error with unknown disk outcome'', False)
         else (''VERIFIED_FAILED'', OpFailed ''Mutation error'', False))"

definition judge_dir ::
  "(unit, CleanerError) result \<Rightarrow> VerificationOutcome \<Rightarrow> string \<times> OperationStatus" where
  "judge_dir m v =
    (if v = ConfirmedDeleted \<or> v = AlreadyGone then (''VERIFIED_SUCCESS'', Success)
     else case m of
       Inr _ \<Rightarrow>
         if v = StillPresent \<or> v = IdentityMismatch
         then (''VERIFIED_FAILED'', VerificationFailed ''Rmdir postcondition verification failed: StillPresent/Mismatch'')
         else (''RESOLVED_UNKNOWN'', VerificationFailed ''Rmdir postcondition unresolved'')
     | Inl _ \<Rightarrow>
         if v = UnknownOutcome \<or> v = ParentUnavailable \<or> v = TargetUnavailable
         then (''RESOLVED_UNKNOWN'', OpFailed ''Rmdir error with unknown disk outcome'')
         else (''VERIFIED_FAILED'', OpFailed ''Rmdir failed''))"

text \<open>Counters, the set of successful operations, the intent's final state, the recorded result.  An
  error of the state update leaves \<open>execute_plan\<close>; an error of recording is only logged.\<close>

definition settle ::
  "AuthorizedPlan \<Rightarrow> AttemptId \<Rightarrow> OpEnv \<Rightarrow> OperationId \<Rightarrow> TargetId \<Rightarrow> RelativePath \<Rightarrow> FileIdentity \<Rightarrow> ByteCount
    \<Rightarrow> string \<Rightarrow> string \<Rightarrow> OperationStatus \<Rightarrow> ByteCount \<Rightarrow> ('h, 'w) ExecState
    \<Rightarrow> (unit, CleanerError) result \<times> ('h, 'w) ExecState" where
  "settle auth a e oi t rel f est op_name intent_state status reclaimed st =
    (let st1 = (if is_success status
                then st\<lparr>ex_total := saturating_add (ex_total st) reclaimed, ex_success := ex_success st + 1,
                        ex_successful := List.insert oi (ex_successful st)\<rparr>
                else st\<lparr>ex_failed := ex_failed st + 1\<rparr>) in
     case update_intent_state (oe_now_verified e) a oi intent_state (ex_store st1) of
       (Inl err, s2) \<Rightarrow> (Inl err, st1\<lparr>ex_store := s2\<rparr>)
     | (Inr _, s2) \<Rightarrow>
        (let res = \<lparr> res_op_id = oi, res_status = status, reclaimed_bytes = reclaimed,
                     executed_at = oe_now_result e \<rparr>;
             s3 = snd (record_operation_result (plan_job_id (ap_plan auth)) (plan_id (ap_plan auth)) t op_name
                         (rp_str rel) f est res s2)
         in (Inr (), push_result oi status reclaimed e (st1\<lparr>ex_store := s3\<rparr>))))"

definition delete_file ::
  "('h, 'w) Kernel \<Rightarrow> AuthorizedPlan \<Rightarrow> CatalogSnapshot \<Rightarrow> AttemptId \<Rightarrow> OpEnv \<Rightarrow> OperationId \<Rightarrow> TargetId
    \<Rightarrow> RelativePath \<Rightarrow> FileIdentity \<Rightarrow> ByteCount \<Rightarrow> ('h, 'w) ExecState
    \<Rightarrow> (unit, CleanerError) result \<times> ('h, 'w) ExecState" where
  "delete_file K auth catalog a e oi t rel f est st =
    (case prepare_mutation K auth catalog a e oi t rel f est MtDeleteFile
            ''Failed to resolve parent directory'' st of
       (Inl None, st1) \<Rightarrow> (Inr (), st1)
     | (Inl (Some err), st1) \<Rightarrow> (Inl err, st1)
     | (Inr (h, leaf, r), st1) \<Rightarrow>
        (case unlink_child_file K h leaf f (ex_proc st1) of (m, p2) \<Rightarrow>
         case verify_with_parent_handle K h leaf f p2 of (v, p3) \<Rightarrow>
         case judge_file m v of (intent_state, status, counts) \<Rightarrow>
         case settle auth a e oi t rel f est ''DELETE_FILE'' intent_state status (if counts then est else 0)
                (st1\<lparr>ex_proc := p3\<rparr>) of (x, st2) \<Rightarrow> (x, unlock t r st2)))"

definition delete_dir_empty ::
  "('h, 'w) Kernel \<Rightarrow> AuthorizedPlan \<Rightarrow> CatalogSnapshot \<Rightarrow> AttemptId \<Rightarrow> OpEnv \<Rightarrow> OperationId \<Rightarrow> TargetId
    \<Rightarrow> RelativePath \<Rightarrow> FileIdentity \<Rightarrow> ('h, 'w) ExecState
    \<Rightarrow> (unit, CleanerError) result \<times> ('h, 'w) ExecState" where
  "delete_dir_empty K auth catalog a e oi t rel f st =
    (case prepare_mutation K auth catalog a e oi t rel f 0 MtDeleteDirEmpty
            ''Failed to resolve parent directory for rmdir'' st of
       (Inl None, st1) \<Rightarrow> (Inr (), st1)
     | (Inl (Some err), st1) \<Rightarrow> (Inl err, st1)
     | (Inr (h, leaf, r), st1) \<Rightarrow>
        (case rmdir_child_dir K h leaf f (ex_proc st1) of (m, p2) \<Rightarrow>
         case verify_with_parent_handle K h leaf f p2 of (v, p3) \<Rightarrow>
         case judge_dir m v of (intent_state, status) \<Rightarrow>
         case settle auth a e oi t rel f 0 ''DELETE_DIR_EMPTY'' intent_state status 0
                (st1\<lparr>ex_proc := p3, ex_rm := drop_cache (ex_cache st1) (ex_rm st1), ex_cache := None\<rparr>)
           of (x, st2) \<Rightarrow> (x, unlock t r st2)))"

definition execute_op ::
  "('h, 'w) Kernel \<Rightarrow> AuthorizedPlan \<Rightarrow> CatalogSnapshot \<Rightarrow> AttemptId \<Rightarrow> OpEnv \<Rightarrow> PlannedOperation
    \<Rightarrow> ('h, 'w) ExecState \<Rightarrow> (unit, CleanerError) result \<times> ('h, 'w) ExecState" where
  "execute_op K auth catalog a e oper st =
    (if oe_cancelled e then (Inr (), skip_op (op_id oper) Preempted e st)
     else if list_ex (\<lambda>d. d \<notin> set (ex_successful st)) (dependencies oper)
     then (Inr (), skip_op (op_id oper) (Skipped ''Precondition dependency failed or unfulfilled'') e st)
     else if \<not> capabilities_contain (capabilities (ap_grant auth)) (required_capability (op_type oper))
     then (Inr (), fail_op (op_id oper)
            ''Capability authorization denial: operation not granted in CapabilityGrant'' e st)
     else let st1 = st\<lparr>ex_rm := throttle_mutation (oe_instants e) (ex_rm st)\<rparr> in
       case op_type oper of
         DeleteFile t rel f est \<Rightarrow> delete_file K auth catalog a e (op_id oper) t rel f est st1
       | DeleteDirEmpty t rel f \<Rightarrow> delete_dir_empty K auth catalog a e (op_id oper) t rel f st1
       | PruneDirRecursive _ _ _ \<Rightarrow> (Inr (), skip_op (op_id oper)
           (Skipped ''PruneDirRecursive is deprecated in favor of hierarchical DAG atomic deletions'') e st1)
       | _ \<Rightarrow> (Inr (), skip_op (op_id oper) (Skipped ''Maintenance operation delegated to subsystem'') e st1))"

section \<open>The plan\<close>

fun execute_ops ::
  "('h, 'w) Kernel \<Rightarrow> AuthorizedPlan \<Rightarrow> CatalogSnapshot \<Rightarrow> AttemptId \<Rightarrow> (nat \<Rightarrow> OpEnv) \<Rightarrow> PlannedOperation list
    \<Rightarrow> ('h, 'w) ExecState \<Rightarrow> (unit, CleanerError) result \<times> ('h, 'w) ExecState" where
  "execute_ops K auth catalog a envs [] st = (Inr (), st)"
| "execute_ops K auth catalog a envs (oper # ops) st =
    (case execute_op K auth catalog a (envs 0) oper st of
       (Inl e, st1) \<Rightarrow> (Inl e, st1)
     | (Inr _, st1) \<Rightarrow> execute_ops K auth catalog a (\<lambda>n. envs (Suc n)) ops st1)"

definition exec_init :: "('h, 'w) Proc \<Rightarrow> ResourceManager \<Rightarrow> SqliteStore \<Rightarrow> ('h, 'w) ExecState" where
  "exec_init p rm s =
    \<lparr> ex_proc = p, ex_rm = rm, ex_store = s, ex_cache = None, ex_results = [], ex_total = 0,
      ex_success = 0, ex_failed = 0, ex_skipped = 0, ex_successful = [] \<rparr>"

definition job_result :: "AuthorizedPlan \<Rightarrow> AttemptId \<Rightarrow> u64 \<Rightarrow> ('h, 'w) ExecState \<Rightarrow> JobResult" where
  "job_result auth a elapsed st =
    \<lparr> jr_job_id = plan_job_id (ap_plan auth), jr_attempt_id = a, total_reclaimed = ex_total st,
      total_operations = length (operations (ap_plan auth)), successful_operations = ex_success st,
      failed_operations = ex_failed st, skipped_operations = ex_skipped st, duration_ms = elapsed \<rparr>"

definition execute_plan ::
  "('h, 'w) Kernel \<Rightarrow> AuthorizedPlan \<Rightarrow> CatalogSnapshot \<Rightarrow> ConfigGeneration \<Rightarrow> AttemptId \<Rightarrow> UnixTimestamp
    \<Rightarrow> (nat \<Rightarrow> OpEnv) \<Rightarrow> u64 \<Rightarrow> ('h, 'w) Proc \<Rightarrow> ResourceManager \<Rightarrow> SqliteStore
    \<Rightarrow> (JobResult, CleanerError) result \<times> ('h, 'w) ExecState" where
  "execute_plan K auth catalog cfg a now envs elapsed p rm s =
    (if \<not> is_authorized_for_execution auth now (snap_generation catalog) cfg
     then (Inl (SafetyViolation ''Execution rejected: AuthorizedPlan has expired or generation is invalid''),
           exec_init p rm s)
     else case execute_ops K auth catalog a envs (operations (ap_plan auth)) (exec_init p rm s) of
       (x, st) \<Rightarrow>
         (case x of Inl e \<Rightarrow> Inl e | Inr _ \<Rightarrow> Inr (job_result auth a elapsed st),
          st\<lparr>ex_rm := drop_cache (ex_cache st) (ex_rm st), ex_cache := None\<rparr>))"

section \<open>Frames\<close>

lemma locked_drops [simp]:
  "locked_targets (drop_handle h rm) = locked_targets rm"
  "locked_targets (drop_permit b rm) = locked_targets rm"
  "locked_targets (drop_cache c rm) = locked_targets rm"
  "locked_targets (throttle_mutation i rm) = locked_targets rm"
  by (auto simp: drop_handle_def drop_permit_def drop_cache_def drop_fd_permit_def throttle_mutation_def
      split: option.splits)

lemma locked_fd_permit: "fd_permit_ok ws rm = (b, rm') \<Longrightarrow> locked_targets rm' = locked_targets rm"
  by (auto simp: fd_permit_ok_def acquire_fd_permit_timeout_def split: prod.splits sum.splits)

lemma push_result_fields [simp]:
  "ex_proc (push_result oi s b e st) = ex_proc st" "ex_rm (push_result oi s b e st) = ex_rm st"
  "ex_store (push_result oi s b e st) = ex_store st" "ex_cache (push_result oi s b e st) = ex_cache st"
  "ex_total (push_result oi s b e st) = ex_total st" "ex_success (push_result oi s b e st) = ex_success st"
  "ex_failed (push_result oi s b e st) = ex_failed st" "ex_skipped (push_result oi s b e st) = ex_skipped st"
  "ex_successful (push_result oi s b e st) = ex_successful st"
  "ex_results (push_result oi s b e st) = ex_results st @
    [\<lparr> res_op_id = oi, res_status = s, reclaimed_bytes = b, executed_at = oe_now_result e \<rparr>]"
  by (simp_all add: push_result_def)

lemma fail_op_fields [simp]:
  "ex_proc (fail_op oi m e st) = ex_proc st" "ex_rm (fail_op oi m e st) = ex_rm st"
  "ex_store (fail_op oi m e st) = ex_store st" "ex_cache (fail_op oi m e st) = ex_cache st"
  "ex_total (fail_op oi m e st) = ex_total st" "ex_success (fail_op oi m e st) = ex_success st"
  "ex_failed (fail_op oi m e st) = Suc (ex_failed st)" "ex_skipped (fail_op oi m e st) = ex_skipped st"
  "ex_successful (fail_op oi m e st) = ex_successful st"
  "ex_results (fail_op oi m e st) = ex_results st @
    [\<lparr> res_op_id = oi, res_status = OpFailed m, reclaimed_bytes = 0, executed_at = oe_now_result e \<rparr>]"
  by (simp_all add: fail_op_def)

lemma skip_op_fields [simp]:
  "ex_proc (skip_op oi s e st) = ex_proc st" "ex_rm (skip_op oi s e st) = ex_rm st"
  "ex_store (skip_op oi s e st) = ex_store st" "ex_cache (skip_op oi s e st) = ex_cache st"
  "ex_total (skip_op oi s e st) = ex_total st" "ex_success (skip_op oi s e st) = ex_success st"
  "ex_failed (skip_op oi s e st) = ex_failed st" "ex_skipped (skip_op oi s e st) = Suc (ex_skipped st)"
  "ex_successful (skip_op oi s e st) = ex_successful st"
  "ex_results (skip_op oi s e st) = ex_results st @
    [\<lparr> res_op_id = oi, res_status = s, reclaimed_bytes = 0, executed_at = oe_now_result e \<rparr>]"
  by (simp_all add: skip_op_def)

lemma unlock_fields [simp]:
  "ex_proc (unlock t r st) = ex_proc st" "ex_store (unlock t r st) = ex_store st"
  "ex_cache (unlock t r st) = ex_cache st"
  "ex_total (unlock t r st) = ex_total st" "ex_success (unlock t r st) = ex_success st"
  "ex_failed (unlock t r st) = ex_failed st" "ex_skipped (unlock t r st) = ex_skipped st"
  "ex_successful (unlock t r st) = ex_successful st" "ex_results (unlock t r st) = ex_results st"
  "ex_rm (unlock t r st) = drop_target_lock t r (ex_rm st)"
  by (simp_all add: unlock_def)

text \<open>What only the process, the permits and the cache distinguish.\<close>

definition books_eq :: "('h, 'w) ExecState \<Rightarrow> ('h, 'w) ExecState \<Rightarrow> bool" where
  "books_eq st st' \<longleftrightarrow> ex_results st' = ex_results st \<and> ex_total st' = ex_total st \<and>
    ex_success st' = ex_success st \<and> ex_failed st' = ex_failed st \<and> ex_skipped st' = ex_skipped st \<and>
    ex_successful st' = ex_successful st"

lemma open_parents_frame:
  "open_parents K wakes n h cs rm p = (r, rm', p') \<Longrightarrow>
    locked_targets rm' = locked_targets rm \<and> (\<exists>evs. extends p p' evs \<and> no_unlink evs)"
proof (induction cs arbitrary: n h rm p)
  case Nil
  then show ?case by (auto intro: exI [of _ "[]"])
next
  case (Cons c cs)
  obtain permit rm1 where permit: "fd_permit_ok (wakes n) rm = (permit, rm1)" by fastforce
  obtain x p1 where opn: "open_child_dir_errno K h (component_str c) p = (x, p1)" by fastforce
  obtain evs where evs: "extends p p1 evs" "no_unlink evs" using open_child_dir_calls [OF opn] by blast
  show ?case
  proof (cases x)
    case (Inl err)
    then show ?thesis
      using Cons.prems permit opn evs locked_fd_permit [OF permit]
      by (auto simp: open_child_dir_with_permit_def)
  next
    case (Inr h')
    then have "open_parents K wakes (Suc n) (h'\<lparr>sh_permit := permit\<rparr>) cs (drop_handle h rm1) p1 = (r, rm', p')"
      using Cons.prems permit opn by (simp add: open_child_dir_with_permit_def)
    from Cons.IH [OF this] obtain evs' where
      "locked_targets rm' = locked_targets rm1" "extends p1 p' evs'" "no_unlink evs'" by auto
    then show ?thesis
      using locked_fd_permit [OF permit] evs extends_trans [of p p1 evs p' evs'] no_unlink_simps(3) by fastforce
  qed
qed

lemma get_or_open_parent_dir_frame:
  assumes "get_or_open_parent_dir K wakes d rel st = (r, st')"
  shows "books_eq st st' \<and> ex_store st' = ex_store st \<and> locked_targets (ex_rm st') = locked_targets (ex_rm st) \<and>
    (\<exists>evs. extends (ex_proc st) (ex_proc st') evs \<and> no_unlink evs) \<and>
    (\<forall>h leaf. r = Inr (h, leaf) \<longrightarrow> file_name (components rel) = Some leaf)"
proof (cases "st' = st")
  case True
  moreover have "\<exists>evs. extends (ex_proc st) (ex_proc st) evs \<and> no_unlink evs" by (rule exI [of _ "[]"]) simp
  ultimately show ?thesis
    using assms by (auto simp: get_or_open_parent_dir_def books_eq_def Let_def split: option.splits if_splits prod.splits sum.splits)
next
  case False
  then obtain leaf where leaf: "file_name (components rel) = Some leaf"
    using assms by (cases "file_name (components rel)") (auto simp: get_or_open_parent_dir_def Let_def)
  obtain permit rm1 where permit: "fd_permit_ok (wakes 0) (ex_rm st) = (permit, rm1)" by fastforce
  obtain x p1 where opn: "open_root_with_permit K (td_base_path d) permit (ex_proc st) = (x, p1)" by fastforce
  obtain e1 where e1: "extends (ex_proc st) p1 e1" "no_unlink e1" using open_root_calls [OF opn] by blast
  have miss: "\<not> (case ex_cache st of Some c \<Rightarrow> ac_target_id c = td_target_id d \<and> ac_parent_path c = butlast (components rel)
             | None \<Rightarrow> False)"
    using False assms leaf by (auto simp: get_or_open_parent_dir_def Let_def split: if_splits)
  show ?thesis
  proof (cases x)
    case (Inl err)
    then show ?thesis
      using assms leaf permit opn miss e1 locked_fd_permit [OF permit]
      by (auto simp: get_or_open_parent_dir_def Let_def books_eq_def)
  next
    case (Inr h0)
    obtain y rm2 p2 where walk: "open_parents K wakes 1 h0 (butlast (components rel)) rm1 p1 = (y, rm2, p2)"
      by (metis prod_cases3)
    obtain e2 where e2: "locked_targets rm2 = locked_targets rm1" "extends p1 p2 e2" "no_unlink e2"
      using open_parents_frame [OF walk] by blast
    have e12: "\<exists>evs. extends (ex_proc st) p2 evs \<and> no_unlink evs"
      using extends_trans [OF e1(1) e2(2)] e1(2) e2(3) no_unlink_simps(3) by blast
    have run: "get_or_open_parent_dir K wakes d rel st = (case y of
        Inl e \<Rightarrow> (Inl e, st\<lparr>ex_rm := rm2, ex_proc := p2\<rparr>)
      | Inr h \<Rightarrow> (Inr (h, leaf), st\<lparr>ex_rm := drop_cache (ex_cache st) rm2, ex_proc := p2,
          ex_cache := Some \<lparr> ac_target_id = td_target_id d, ac_parent_path = butlast (components rel), ac_handle = h \<rparr>\<rparr>))"
      using leaf permit opn miss Inr walk
      by (simp add: get_or_open_parent_dir_def Let_def split: sum.splits)
    show ?thesis
      using assms e12 e2(1) locked_fd_permit [OF permit] leaf unfolding run
      by (cases y) (auto simp: books_eq_def)
  qed
qed

section \<open>Preparing a removal\<close>

text \<open>The store holds the intent of an operation, in some state.\<close>

definition intent_in ::
  "SqliteStore \<Rightarrow> AttemptId \<Rightarrow> OperationId \<Rightarrow> TargetId \<Rightarrow> RelativePath \<Rightarrow> FileIdentity \<Rightarrow> string \<Rightarrow> bool" where
  "intent_in s a oi t rel f state \<longleftrightarrow> (\<exists>row\<in>set (st_intents s).
    ir_attempt row = a \<and> ir_op row = oi \<and> ir_target row = target_str t \<and> ir_rel_path row = rp_str rel \<and>
    ir_dev row = fid_dev f \<and> ir_ino row = fid_ino f \<and> ir_state row = state)"

definition intents_kept :: "SqliteStore \<Rightarrow> SqliteStore \<Rightarrow> bool" where
  "intents_kept s s' \<longleftrightarrow> (\<forall>a oi t rel f q. intent_in s a oi t rel f q \<longrightarrow> (\<exists>q'. intent_in s' a oi t rel f q'))"

lemma intents_kept_refl [simp]: "intents_kept s s"
  by (auto simp: intents_kept_def)

lemma intents_kept_trans: "intents_kept s s1 \<Longrightarrow> intents_kept s1 s2 \<Longrightarrow> intents_kept s s2"
  unfolding intents_kept_def by meson

lemma intent_in_faults [simp]: "same_tables s s' \<Longrightarrow> intent_in s' a oi t rel f state = intent_in s a oi t rel f state"
  by (auto simp: intent_in_def same_tables_def)

lemma update_intent_state_fields:
  assumes "update_intent_state now a oi state s = (x, s')"
  shows "st_intents s' = (case x of Inl _ \<Rightarrow> st_intents s
    | Inr _ \<Rightarrow> map (\<lambda>r. if ir_attempt r = a \<and> ir_op r = oi then r\<lparr>ir_state := state, ir_resolved := Some now\<rparr> else r)
        (st_intents s))"
proof -
  obtain flt s1 where flt: "sql_fault s = (flt, s1)" by fastforce
  show ?thesis
    using assms same_tables_fields [OF sql_fault_same [OF flt]]
    by (auto simp: update_intent_state_def flt split: if_splits)
qed

lemma intent_in_update:
  assumes "update_intent_state now a oi state s = (x, s')" "intent_in s b oj t rel f q"
  shows "intent_in s' b oj t rel f (if x = Inr () \<and> b = a \<and> oj = oi then state else q)"
proof (cases x)
  case (Inl err)
  then show ?thesis
    using assms(2) update_intent_state_fields [OF assms(1)] by (simp add: intent_in_def)
next
  case (Inr v)
  obtain row where row: "row \<in> set (st_intents s)" "ir_attempt row = b" "ir_op row = oj"
    "ir_target row = target_str t" "ir_rel_path row = rp_str rel" "ir_dev row = fid_dev f"
    "ir_ino row = fid_ino f" "ir_state row = q"
    using assms(2) by (auto simp: intent_in_def)
  let ?g = "\<lambda>r. if ir_attempt r = a \<and> ir_op r = oi then r\<lparr>ir_state := state, ir_resolved := Some now\<rparr> else r"
  have "?g row \<in> set (st_intents s')"
    using row(1) Inr update_intent_state_fields [OF assms(1)] by simp
  then show ?thesis
    unfolding intent_in_def using row(2-) Inr by (intro bexI [of _ "?g row"]) simp_all
qed

lemma intent_in_commit:
  assumes "commit_operation_intent it s = (x, s')" "intent_in s b oj t rel f q"
  shows "intent_in s' b oj t rel f q"
proof (cases x)
  case (Inl err)
  obtain flt s1 where flt: "sql_fault s = (flt, s1)" by fastforce
  have "s' = s1" using assms(1) Inl by (auto simp: commit_operation_intent_def flt split: if_splits)
  then show ?thesis using assms(2) sql_fault_same [OF flt] by simp
next
  case (Inr i)
  then show ?thesis
    using assms commit_operation_intent_Inr [of it s i s'] by (auto simp: intent_in_def)
qed

lemma intent_in_committed:
  "commit_operation_intent (OperationIntent_new now j a oi t rel f est mt cat cfg) s = (Inr i, s') \<Longrightarrow>
    intent_in s' a oi t rel f ''COMMITTED''"
  using commit_operation_intent_Inr [of _ s i s']
  by (fastforce simp: intent_in_def intent_row_def OperationIntent_new_def IntentState_display_def)

lemma intent_in_record:
  "intent_in (snd (record_operation_result j pl t' ty r g est res s)) a oi t rel f q = intent_in s a oi t rel f q"
proof -
  obtain flt s1 where flt: "sql_fault s = (flt, s1)" by fastforce
  have "st_intents (snd (record_operation_result j pl t' ty r g est res s)) = st_intents s"
    using same_tables_fields [OF sql_fault_same [OF flt]]
    by (simp add: record_operation_result_def flt)
  then show ?thesis by (simp add: intent_in_def)
qed

lemma intents_kept_update: "update_intent_state now a oi state s = (x, s') \<Longrightarrow> intents_kept s s'"
  unfolding intents_kept_def using intent_in_update by blast

lemma intents_kept_commit: "commit_operation_intent it s = (x, s') \<Longrightarrow> intents_kept s s'"
  unfolding intents_kept_def using intent_in_commit by blast

lemma intents_kept_record: "intents_kept s (snd (record_operation_result j pl t ty r g est res s))"
  by (auto simp: intents_kept_def intent_in_record)

text \<open>One operation was counted as failed and nothing else was booked.\<close>

definition failed_op :: "OperationId \<Rightarrow> ('h, 'w) ExecState \<Rightarrow> ('h, 'w) ExecState \<Rightarrow> bool" where
  "failed_op oi st st' \<longleftrightarrow> (\<exists>m now. ex_results st' = ex_results st @
      [\<lparr> res_op_id = oi, res_status = OpFailed m, reclaimed_bytes = 0, executed_at = now \<rparr>]) \<and>
    ex_total st' = ex_total st \<and> ex_success st' = ex_success st \<and> ex_failed st' = Suc (ex_failed st) \<and>
    ex_skipped st' = ex_skipped st \<and> ex_successful st' = ex_successful st"

lemma failed_op_fail [simp]: "books_eq st st1 \<Longrightarrow> failed_op oi st (fail_op oi m e st1)"
  by (simp add: failed_op_def books_eq_def)

lemma failed_op_results: "failed_op oi st st' \<Longrightarrow> prefix (ex_results st) (ex_results st')"
  by (auto simp: failed_op_def)

lemma failed_op_unlock [simp]: "failed_op oi st (unlock t r st') = failed_op oi st st'"
  by (simp add: failed_op_def)

lemma books_eq_refl [simp]: "books_eq st st"
  by (simp add: books_eq_def)

lemma books_eq_simps [simp]:
  "books_eq st (unlock t r st') = books_eq st st'"
  "books_eq st (st'\<lparr>ex_rm := rm\<rparr>) = books_eq st st'" "books_eq st (st'\<lparr>ex_store := s\<rparr>) = books_eq st st'"
  "books_eq st (st'\<lparr>ex_proc := p\<rparr>) = books_eq st st'" "books_eq st (st'\<lparr>ex_cache := c\<rparr>) = books_eq st st'"
  by (simp_all add: books_eq_def)

lemma books_eq_trans: "books_eq st st1 \<Longrightarrow> books_eq st1 st2 \<Longrightarrow> books_eq st st2"
  by (simp add: books_eq_def)

lemma books_eq_left [simp]:
  "books_eq (st\<lparr>ex_rm := rm\<rparr>) st' = books_eq st st'" "books_eq (st\<lparr>ex_store := s\<rparr>) st' = books_eq st st'"
  by (simp_all add: books_eq_def)

lemma acquire_target_lock_cases:
  assumes "acquire_target_lock_for_attempt t a rm = (x, rm')"
  shows "case x of Inl _ \<Rightarrow> rm' = rm
    | Inr r \<Rightarrow> locked_targets rm t = None \<and> locked_targets rm' = (locked_targets rm)(t \<mapsto> (a, r))"
  using assms by (auto simp: acquire_target_lock_for_attempt_def next_reservation_def split: option.splits)

lemma drop_acquired:
  "locked_targets rm' = L(t \<mapsto> (a, r)) \<Longrightarrow> L t = None \<Longrightarrow> locked_targets (drop_target_lock t r rm') = L"
  by (auto simp: drop_target_lock_def)

text \<open>The gates an operation has passed when its removal may start.\<close>

definition gates_passed ::
  "CatalogSnapshot \<Rightarrow> AuthorizedPlan \<Rightarrow> OperationId \<Rightarrow> TargetId \<Rightarrow> RelativePath \<Rightarrow> FileIdentity \<Rightarrow> bool" where
  "gates_passed catalog auth oi t rel f \<longleftrightarrow> (\<exists>d now proof_token. snapshot_get catalog t = Some d \<and>
    validate_mutation_boundary now d (rp_str rel) f oi (snap_generation catalog)
      (grant_config_generation (ap_grant auth)) = Inr proof_token)"

lemma prepare_mutation_spec:
  assumes run: "prepare_mutation K auth catalog a e oi t rel f est mt msg st = (x, st')"
  shows "(\<exists>evs. extends (ex_proc st) (ex_proc st') evs \<and> no_unlink evs) \<and>
    intents_kept (ex_store st) (ex_store st') \<and>
    (case x of
       Inl None \<Rightarrow> failed_op oi st st' \<and> locked_targets (ex_rm st') = locked_targets (ex_rm st)
     | Inl (Some _) \<Rightarrow> books_eq st st' \<and> locked_targets (ex_rm st') = locked_targets (ex_rm st)
     | Inr (h, leaf, r) \<Rightarrow> books_eq st st' \<and> locked_targets (ex_rm st) t = None \<and>
         locked_targets (ex_rm st') = (locked_targets (ex_rm st))(t \<mapsto> (a, r)) \<and>
         file_name (components (rp_str rel)) = Some leaf \<and> gates_passed catalog auth oi t rel f \<and>
         intent_in (ex_store st') a oi t rel f ''MUTATING'')"
proof -
  have none: "\<exists>evs. extends (ex_proc st) (ex_proc st) evs \<and> no_unlink evs"
    by (rule exI [of _ "[]"]) simp
  show ?thesis
  proof (cases "snapshot_get catalog t")
    case None
    then show ?thesis using run none by (auto simp: prepare_mutation_def)
  next
    case (Some d)
    note target = Some
    obtain y rm1 where lock: "acquire_target_lock_for_attempt t a (ex_rm st) = (y, rm1)" by fastforce
    show ?thesis
    proof (cases y)
      case (Inl err)
      then show ?thesis
        using run none target lock acquire_target_lock_cases [OF lock] by (auto simp: prepare_mutation_def)
    next
      case (Inr r)
      note locked = acquire_target_lock_cases [OF lock, unfolded Inr sum.case]
      let ?it = "OperationIntent_new (oe_now_intent e) (plan_job_id (ap_plan auth)) a oi t rel f est mt
          (snap_generation catalog) (grant_config_generation (ap_grant auth))"
      let ?v = "validate_mutation_boundary (oe_now_gate e) d (rp_str rel) f oi (snap_generation catalog)
          (grant_config_generation (ap_grant auth))"
      obtain c s2 where commit: "commit_operation_intent ?it (ex_store st) = (c, s2)" by fastforce
      obtain u s3 where upd: "update_intent_state (oe_now_mutating e) a oi ''MUTATING'' s2 = (u, s3)" by fastforce
      let ?st3 = "st\<lparr>ex_rm := rm1, ex_store := s3\<rparr>"
      obtain g st4 where par: "get_or_open_parent_dir K (oe_fd_wakes e) d (rp_str rel) ?st3 = (g, st4)" by fastforce
      note frame = get_or_open_parent_dir_frame [OF par]
      have run': "(x, st') =
        (case ?v of Inl _ \<Rightarrow> (Inl None, unlock t r (fail_op oi ''Safety gate boundary rejection'' e (st\<lparr>ex_rm := rm1\<rparr>)))
         | Inr _ \<Rightarrow> (case c of Inl _ \<Rightarrow> (Inl None, unlock t r (fail_op oi
                ''Intent commit failed (mutation not attempted)'' e (st\<lparr>ex_rm := rm1, ex_store := s2\<rparr>)))
           | Inr _ \<Rightarrow> (case u of Inl err \<Rightarrow> (Inl (Some err), unlock t r ?st3)
             | Inr _ \<Rightarrow> (case g of Inl _ \<Rightarrow> (Inl None, unlock t r (fail_op oi msg e st4))
               | Inr (h, leaf) \<Rightarrow> (Inr (h, leaf, r), st4)))))"
        using run target lock Inr commit upd par
        by (simp add: prepare_mutation_def Let_def split: sum.splits) (auto split: prod.splits)
      have keep2: "intents_kept (ex_store st) s2" by (rule intents_kept_commit [OF commit])
      have keep3: "intents_kept (ex_store st) s3"
        by (rule intents_kept_trans [OF keep2 intents_kept_update [OF upd]])
      consider (gate) err where "?v = Inl err"
        | (intent) pf err where "?v = Inr pf" "c = Inl err"
        | (abort) pf i err where "?v = Inr pf" "c = Inr i" "u = Inl err"
        | (parent) pf i err where "?v = Inr pf" "c = Inr i" "u = Inr ()" "g = Inl err"
        | (ready) pf i h leaf where "?v = Inr pf" "c = Inr i" "u = Inr ()" "g = Inr (h, leaf)"
      proof (cases ?v)
        case (Inr pf)
        then show thesis using that(2-5) [of pf] by (cases c; cases u; cases g) fastforce+
      qed (use that(1) in blast)
      then show ?thesis
      proof cases
        case gate
        then show ?thesis using run' none locked by (auto simp: drop_acquired)
      next
        case intent
        then show ?thesis using run' none locked keep2 by (auto simp: drop_acquired)
      next
        case abort
        then show ?thesis using run' none locked keep3 by (auto simp: drop_acquired)
      next
        case parent
        then show ?thesis using run' locked keep3 frame by (auto simp: drop_acquired)
      next
        case ready
        have "intent_in s3 a oi t rel f ''MUTATING''"
          using intent_in_update [OF upd intent_in_committed [OF commit [unfolded ready(2)]]] ready(3) by simp
        moreover have "gates_passed catalog auth oi t rel f"
          unfolding gates_passed_def using target ready(1) by blast
        ultimately show ?thesis using run' ready locked keep3 frame by auto
      qed
    qed
  qed
qed

section \<open>What one operation books\<close>

text \<open>Exactly one result was added, it was counted once in its class, its bytes were added, and it joined the
  successful operations exactly when it succeeded.\<close>

definition is_failure :: "OperationStatus \<Rightarrow> bool" where
  "is_failure s = (case s of OpFailed _ \<Rightarrow> True | VerificationFailed _ \<Rightarrow> True | _ \<Rightarrow> False)"

definition is_skip :: "OperationStatus \<Rightarrow> bool" where
  "is_skip s = (case s of Skipped _ \<Rightarrow> True | Preempted \<Rightarrow> True | _ \<Rightarrow> False)"

lemma status_classes:
  "is_success s \<longleftrightarrow> \<not> is_failure s \<and> \<not> is_skip s" "is_failure s \<Longrightarrow> \<not> is_skip s"
  by (cases s; simp add: is_success_def is_failure_def is_skip_def)+

definition booked :: "OperationId \<Rightarrow> ('h, 'w) ExecState \<Rightarrow> ('h, 'w) ExecState \<Rightarrow> bool" where
  "booked oi st st' \<longleftrightarrow> (\<exists>r. ex_results st' = ex_results st @ [r] \<and> res_op_id r = oi \<and>
    ex_success st' = ex_success st + (if is_success (res_status r) then 1 else 0) \<and>
    ex_failed st' = ex_failed st + (if is_failure (res_status r) then 1 else 0) \<and>
    ex_skipped st' = ex_skipped st + (if is_skip (res_status r) then 1 else 0) \<and>
    ex_total st' = saturating_add (ex_total st) (reclaimed_bytes r) \<and>
    (\<not> is_success (res_status r) \<longrightarrow> reclaimed_bytes r = 0) \<and>
    set (ex_successful st') = (if is_success (res_status r) then {oi} else {}) \<union> set (ex_successful st))"

lemma booked_failed:
  assumes "failed_op oi st st'"
  shows "booked oi st st'"
proof -
  obtain m now where "ex_results st' = ex_results st @
      [\<lparr> res_op_id = oi, res_status = OpFailed m, reclaimed_bytes = 0, executed_at = now \<rparr>]"
    using assms by (auto simp: failed_op_def)
  then show ?thesis
    using assms unfolding booked_def failed_op_def
    by (intro exI [of _ "\<lparr> res_op_id = oi, res_status = OpFailed m, reclaimed_bytes = 0, executed_at = now \<rparr>"])
      (simp add: is_success_def is_failure_def is_skip_def)
qed

lemma booked_fail [simp]: "booked oi st (fail_op oi m e st)"
  by (rule booked_failed [OF failed_op_fail [OF books_eq_refl]])

lemma booked_skip: "is_skip status \<Longrightarrow> booked oi st (skip_op oi status e st)"
  using status_classes [of status] by (auto simp: booked_def)

lemma booked_books_eq: "books_eq st st1 \<Longrightarrow> booked oi st1 st' = booked oi st st'"
  by (simp add: booked_def books_eq_def)

lemma booked_results: "booked oi st st' \<Longrightarrow> prefix (ex_results st) (ex_results st')"
  by (auto simp: booked_def)

lemma booked_unlock [simp]: "booked oi st (unlock t r st') = booked oi st st'"
  by (simp add: booked_def)

lemma booked_rm [simp]: "booked oi (st\<lparr>ex_rm := rm\<rparr>) st' = booked oi st st'"
  by (simp add: booked_def)

lemma settle_spec:
  assumes run: "settle auth a e oi t rel f est nm w status recl st = (x, st')"
    and status: "is_success status \<or> is_failure status" "\<not> is_success status \<Longrightarrow> recl = 0"
  shows "ex_proc st' = ex_proc st \<and> ex_rm st' = ex_rm st \<and> ex_cache st' = ex_cache st \<and>
    intents_kept (ex_store st) (ex_store st') \<and> prefix (ex_results st) (ex_results st') \<and>
    (x = Inr () \<longrightarrow> booked oi st st')"
proof -
  define st1 where "st1 = (if is_success status
      then st\<lparr>ex_total := saturating_add (ex_total st) recl, ex_success := ex_success st + 1,
              ex_successful := List.insert oi (ex_successful st)\<rparr>
      else st\<lparr>ex_failed := ex_failed st + 1\<rparr>)"
  have st1: "ex_proc st1 = ex_proc st" "ex_rm st1 = ex_rm st" "ex_cache st1 = ex_cache st" "ex_store st1 = ex_store st"
    "ex_results st1 = ex_results st"
    by (simp_all add: st1_def)
  obtain y s2 where upd: "update_intent_state (oe_now_verified e) a oi w (ex_store st) = (y, s2)" by fastforce
  show ?thesis
  proof (cases y)
    case (Inl err)
    then show ?thesis
      using run upd st1 intents_kept_update [OF upd] by (auto simp: settle_def st1_def [symmetric])
  next
    case (Inr v)
    let ?res = "\<lparr> res_op_id = oi, res_status = status, reclaimed_bytes = recl, executed_at = oe_now_result e \<rparr>"
    let ?s3 = "snd (record_operation_result (plan_job_id (ap_plan auth)) (plan_id (ap_plan auth)) t nm
        (rp_str rel) f est ?res s2)"
    have st': "x = Inr ()" "st' = push_result oi status recl e (st1\<lparr>ex_store := ?s3\<rparr>)"
      using run upd st1 Inr by (auto simp: settle_def st1_def [symmetric] Let_def)
    have "intents_kept (ex_store st) ?s3"
      using intents_kept_trans [OF intents_kept_update [OF upd] intents_kept_record] .
    moreover have "booked oi st st'"
      using status status_classes [of status] unfolding st'(2) booked_def st1_def
      by (intro exI [of _ ?res]) auto
    ultimately show ?thesis using st' st1 by simp
  qed
qed

lemma judge_file_status:
  "judge_file m v = (w, status, counts) \<Longrightarrow> (is_success status \<or> is_failure status) \<and> (counts \<longrightarrow> is_success status)"
  by (auto simp: judge_file_def is_success_def is_failure_def split: if_splits sum.splits)

lemma judge_dir_status: "judge_dir m v = (w, status) \<Longrightarrow> is_success status \<or> is_failure status"
  by (auto simp: judge_dir_def is_success_def is_failure_def split: if_splits sum.splits)

section \<open>What one operation does to the world\<close>

text \<open>The calls of an operation: nothing is unlinked, or there is one unlink, of the operation's leaf, as file or
  directory, right after its identity was confirmed, all gates passed, and the store holds its intent.\<close>

definition removal_evs ::
  "CatalogSnapshot \<Rightarrow> AuthorizedPlan \<Rightarrow> AttemptId \<Rightarrow> OperationId \<Rightarrow> TargetId \<Rightarrow> RelativePath \<Rightarrow> FileIdentity \<Rightarrow> bool
    \<Rightarrow> SqliteStore \<Rightarrow> 'h SysEvent list \<Rightarrow> bool" where
  "removal_evs catalog auth a oi t rel f dir s evs \<longleftrightarrow> no_unlink evs \<or>
    (\<exists>pre h leaf u post. evs = pre @ [SysStat h leaf (Inr f), SysUnlink h leaf dir u] @ post \<and>
      no_unlink pre \<and> no_unlink post \<and> file_name (components (rp_str rel)) = Some leaf \<and>
      validate_single_component leaf \<and> gates_passed catalog auth oi t rel f \<and> (\<exists>q. intent_in s a oi t rel f q))"

lemma finish_spec:
  assumes prep: "prepare_mutation K auth catalog a e oi t rel f est mt msg st = (Inr (h, leaf, r), st1)"
    and rem: "extends (ex_proc st1) p2 evs2" "removal_calls h leaf f dir m evs2"
    and ver: "verify_with_parent_handle K h leaf f p2 = (v, p3)"
    and sett: "settle auth a e oi t rel f est' nm w status recl st2 = (x, st3)"
    and st2: "books_eq st1 st2" "ex_proc st2 = p3" "ex_store st2 = ex_store st1"
      "locked_targets (ex_rm st2) = locked_targets (ex_rm st1)"
    and status: "is_success status \<or> is_failure status" "\<not> is_success status \<Longrightarrow> recl = 0"
  shows "(\<exists>evs. extends (ex_proc st) (ex_proc (unlock t r st3)) evs \<and>
      removal_evs catalog auth a oi t rel f dir (ex_store (unlock t r st3)) evs) \<and>
    intents_kept (ex_store st) (ex_store (unlock t r st3)) \<and>
    locked_targets (ex_rm (unlock t r st3)) = locked_targets (ex_rm st) \<and>
    prefix (ex_results st) (ex_results (unlock t r st3)) \<and>
    (x = Inr () \<longrightarrow> booked oi st (unlock t r st3))"
proof -
  note P = prepare_mutation_spec [OF prep, unfolded sum.case prod.case]
  note S = settle_spec [OF sett status]
  obtain e1 where e1: "extends (ex_proc st) (ex_proc st1) e1" "no_unlink e1" using P by blast
  obtain e3 where e3: "extends p2 p3 e3" "no_unlink e3" using verify_with_parent_handle_calls [OF ver] by blast
  have ext: "extends (ex_proc st) (ex_proc (unlock t r st3)) (e1 @ evs2 @ e3)"
    using extends_trans [OF e1(1) extends_trans [OF rem(1) e3(1)]] S st2 by simp
  have kept: "intents_kept (ex_store st1) (ex_store st3)" using S st2 by simp
  then obtain q where q: "intent_in (ex_store st3) a oi t rel f q"
    using P unfolding intents_kept_def by blast
  have "removal_evs catalog auth a oi t rel f dir (ex_store (unlock t r st3)) (e1 @ evs2 @ e3)"
  proof (cases "no_unlink evs2")
    case True
    then show ?thesis using e1 e3 by (simp add: removal_evs_def)
  next
    case False
    then obtain u where "evs2 = [SysStat (sh_fd h) leaf (Inr f), SysUnlink (sh_fd h) leaf dir u]"
      "validate_single_component leaf"
      using rem(2) by (auto simp: removal_calls_def)
    then show ?thesis
      unfolding removal_evs_def using e1(2) e3(2) P q
      by (intro disjI2 exI [of _ e1] exI [of _ "sh_fd h"] exI [of _ leaf] exI [of _ u] exI [of _ e3]) auto
  qed
  moreover have "intents_kept (ex_store st) (ex_store st3)"
    using P kept intents_kept_trans by blast
  moreover have "locked_targets (ex_rm (unlock t r st3)) = locked_targets (ex_rm st)"
    using P S st2 by (simp add: drop_acquired)
  moreover have "prefix (ex_results st) (ex_results st3)"
    using P S st2 by (simp add: books_eq_def)
  moreover have "x = Inr () \<Longrightarrow> booked oi st (unlock t r st3)"
    using P S st2 booked_books_eq books_eq_trans by (metis booked_unlock)
  ultimately show ?thesis using ext by auto
qed

text \<open>The removal an operation asks for: target, path, expected identity, and whether it is a directory.\<close>

definition removal_of :: "OperationType \<Rightarrow> (TargetId \<times> RelativePath \<times> FileIdentity \<times> bool) option" where
  "removal_of ty = (case ty of
      DeleteFile t rel f _ \<Rightarrow> Some (t, rel, f, False)
    | DeleteDirEmpty t rel f \<Rightarrow> Some (t, rel, f, True)
    | _ \<Rightarrow> None)"

text \<open>The effect of an operation, for any answers of the kernel and any failures of the store.\<close>

definition op_effect ::
  "CatalogSnapshot \<Rightarrow> AuthorizedPlan \<Rightarrow> AttemptId \<Rightarrow> PlannedOperation \<Rightarrow> ('h, 'w) ExecState \<Rightarrow> ('h, 'w) ExecState
    \<Rightarrow> 'h SysEvent list \<Rightarrow> bool" where
  "op_effect catalog auth a oper st st' evs \<longleftrightarrow>
    extends (ex_proc st) (ex_proc st') evs \<and> intents_kept (ex_store st) (ex_store st') \<and>
    locked_targets (ex_rm st') = locked_targets (ex_rm st) \<and>
    (no_unlink evs \<or>
      (\<exists>t rel f dir. removal_of (op_type oper) = Some (t, rel, f, dir) \<and>
        set (dependencies oper) \<subseteq> set (ex_successful st) \<and>
        capabilities_contain (capabilities (ap_grant auth)) (required_capability (op_type oper)) \<and>
        removal_evs catalog auth a (op_id oper) t rel f dir (ex_store st') evs))"

lemma op_effect_quiet:
  "ex_proc st' = ex_proc st \<Longrightarrow> ex_store st' = ex_store st \<Longrightarrow>
    locked_targets (ex_rm st') = locked_targets (ex_rm st) \<Longrightarrow> op_effect catalog auth a oper st st' []"
  by (simp add: op_effect_def)

lemma delete_file_spec:
  assumes run: "delete_file K auth catalog a e oi t rel f est st = (x, st')"
  shows "(\<exists>evs. extends (ex_proc st) (ex_proc st') evs \<and>
      removal_evs catalog auth a oi t rel f False (ex_store st') evs) \<and>
    intents_kept (ex_store st) (ex_store st') \<and> locked_targets (ex_rm st') = locked_targets (ex_rm st) \<and>
    prefix (ex_results st) (ex_results st') \<and> (x = Inr () \<longrightarrow> booked oi st st')"
proof -
  obtain y st1 where prep: "prepare_mutation K auth catalog a e oi t rel f est MtDeleteFile
      ''Failed to resolve parent directory'' st = (y, st1)" by fastforce
  show ?thesis
  proof (cases y)
    case (Inl z)
    then show ?thesis
      using run prep prepare_mutation_spec [OF prep]
      by (cases z) (auto simp: delete_file_def removal_evs_def booked_failed failed_op_results books_eq_def)
  next
    case (Inr ready)
    obtain h leaf r where ready: "y = Inr (h, leaf, r)" using Inr by (cases ready) auto
    obtain m p2 where rem: "unlink_child_file K h leaf f (ex_proc st1) = (m, p2)" by fastforce
    obtain evs2 where evs2: "extends (ex_proc st1) p2 evs2" "removal_calls h leaf f False m evs2"
      using unlink_child_file_calls [OF rem] by blast
    obtain v p3 where ver: "verify_with_parent_handle K h leaf f p2 = (v, p3)" by fastforce
    obtain w status counts where j: "judge_file m v = (w, status, counts)" by (metis prod_cases3)
    obtain x' st3 where sett: "settle auth a e oi t rel f est ''DELETE_FILE'' w status (if counts then est else 0)
        (st1\<lparr>ex_proc := p3\<rparr>) = (x', st3)" by fastforce
    have "x = x'" "st' = unlock t r st3"
      using run by (simp_all add: delete_file_def prep ready rem ver j sett)
    moreover have "\<not> is_success status \<Longrightarrow> (if counts then est else 0) = 0" "is_success status \<or> is_failure status"
      using judge_file_status [OF j] by auto
    ultimately show ?thesis
      using finish_spec [OF prep [unfolded ready] evs2 ver sett] by simp
  qed
qed

lemma delete_dir_empty_spec:
  assumes run: "delete_dir_empty K auth catalog a e oi t rel f st = (x, st')"
  shows "(\<exists>evs. extends (ex_proc st) (ex_proc st') evs \<and>
      removal_evs catalog auth a oi t rel f True (ex_store st') evs) \<and>
    intents_kept (ex_store st) (ex_store st') \<and> locked_targets (ex_rm st') = locked_targets (ex_rm st) \<and>
    prefix (ex_results st) (ex_results st') \<and> (x = Inr () \<longrightarrow> booked oi st st')"
proof -
  obtain y st1 where prep: "prepare_mutation K auth catalog a e oi t rel f 0 MtDeleteDirEmpty
      ''Failed to resolve parent directory for rmdir'' st = (y, st1)" by fastforce
  show ?thesis
  proof (cases y)
    case (Inl z)
    then show ?thesis
      using run prep prepare_mutation_spec [OF prep]
      by (cases z) (auto simp: delete_dir_empty_def removal_evs_def booked_failed failed_op_results books_eq_def)
  next
    case (Inr ready)
    obtain h leaf r where ready: "y = Inr (h, leaf, r)" using Inr by (cases ready) auto
    obtain m p2 where rem: "rmdir_child_dir K h leaf f (ex_proc st1) = (m, p2)" by fastforce
    obtain evs2 where evs2: "extends (ex_proc st1) p2 evs2" "removal_calls h leaf f True m evs2"
      using rmdir_child_dir_calls [OF rem] by blast
    obtain v p3 where ver: "verify_with_parent_handle K h leaf f p2 = (v, p3)" by fastforce
    obtain w status where j: "judge_dir m v = (w, status)" by fastforce
    obtain x' st3 where sett: "settle auth a e oi t rel f 0 ''DELETE_DIR_EMPTY'' w status 0
        (st1\<lparr>ex_proc := p3, ex_rm := drop_cache (ex_cache st1) (ex_rm st1), ex_cache := None\<rparr>) = (x', st3)" by fastforce
    have "x = x'" "st' = unlock t r st3"
      using run by (simp_all add: delete_dir_empty_def prep ready rem ver j sett)
    then show ?thesis
      using finish_spec [OF prep [unfolded ready] evs2 ver sett] judge_dir_status [OF j] by simp
  qed
qed

lemma execute_op_spec:
  assumes run: "execute_op K auth catalog a e oper st = (x, st')"
  shows "(\<exists>evs. op_effect catalog auth a oper st st' evs) \<and> prefix (ex_results st) (ex_results st') \<and> (x = Inr () \<longrightarrow> booked (op_id oper) st st') \<and>
    (oe_cancelled e \<longrightarrow> ex_proc st' = ex_proc st \<and> ex_store st' = ex_store st)"
proof -
  let ?st1 = "st\<lparr>ex_rm := throttle_mutation (oe_instants e) (ex_rm st)\<rparr>"
  have deps: "list_ex (\<lambda>d. d \<notin> set (ex_successful st)) (dependencies oper) \<longleftrightarrow>
      \<not> set (dependencies oper) \<subseteq> set (ex_successful st)"
    by (auto simp: list_ex_iff)
  consider (quiet) "ex_proc st' = ex_proc st" "ex_store st' = ex_store st"
      "locked_targets (ex_rm st') = locked_targets (ex_rm st)" "booked (op_id oper) st st'"
    | (go) "\<not> oe_cancelled e" "set (dependencies oper) \<subseteq> set (ex_successful st)"
      "capabilities_contain (capabilities (ap_grant auth)) (required_capability (op_type oper))"
  proof (cases "oe_cancelled e \<or> \<not> set (dependencies oper) \<subseteq> set (ex_successful st) \<or>
      \<not> capabilities_contain (capabilities (ap_grant auth)) (required_capability (op_type oper))")
    case True
    then have "st' = skip_op (op_id oper) Preempted e st \<or>
        (\<exists>m. st' = skip_op (op_id oper) (Skipped m) e st) \<or> (\<exists>m. st' = fail_op (op_id oper) m e st)"
      using run unfolding execute_op_def deps by (auto split: if_splits)
    then show thesis
      using that(1) by (auto simp: booked_skip is_skip_def)
  qed (use that(2) in blast)
  then show ?thesis
  proof cases
    case quiet
    then show ?thesis
      using op_effect_quiet [OF quiet(1-3), of catalog auth a oper] booked_results [OF quiet(4)] by auto
  next
    case go
    then have run1: "execute_op K auth catalog a e oper st = (case op_type oper of
         DeleteFile t rel f est \<Rightarrow> delete_file K auth catalog a e (op_id oper) t rel f est ?st1
       | DeleteDirEmpty t rel f \<Rightarrow> delete_dir_empty K auth catalog a e (op_id oper) t rel f ?st1
       | PruneDirRecursive _ _ _ \<Rightarrow> (Inr (), skip_op (op_id oper)
           (Skipped ''PruneDirRecursive is deprecated in favor of hierarchical DAG atomic deletions'') e ?st1)
       | _ \<Rightarrow> (Inr (), skip_op (op_id oper) (Skipped ''Maintenance operation delegated to subsystem'') e ?st1))"
      unfolding execute_op_def deps by (simp add: Let_def)
    have skip: "?thesis" if st': "st' = skip_op (op_id oper) (Skipped m) e ?st1" for m
    proof -
      have "op_effect catalog auth a oper st st' []" by (rule op_effect_quiet) (simp_all add: st')
      moreover have b: "booked (op_id oper) st st'"
        using booked_skip [of "Skipped m" "op_id oper" ?st1 e] by (simp add: st' is_skip_def)
      ultimately show ?thesis using booked_results [OF b] go by auto
    qed
    show ?thesis
    proof (cases "op_type oper")
      case (DeleteFile t rel f est)
      then have "delete_file K auth catalog a e (op_id oper) t rel f est ?st1 = (x, st')"
        using run run1 by simp
      from delete_file_spec [OF this] DeleteFile go show ?thesis
        by (auto simp: op_effect_def removal_of_def)
    next
      case (DeleteDirEmpty t rel f)
      then have "delete_dir_empty K auth catalog a e (op_id oper) t rel f ?st1 = (x, st')"
        using run run1 by simp
      from delete_dir_empty_spec [OF this] DeleteDirEmpty go show ?thesis
        by (auto simp: op_effect_def removal_of_def)
    next
      case (PruneDirRecursive t rel f)
      then have "st' = skip_op (op_id oper)
          (Skipped ''PruneDirRecursive is deprecated in favor of hierarchical DAG atomic deletions'') e ?st1"
        using run run1 by simp
      then show ?thesis by (rule skip)
    next
      case (TrimFilesystem m)
      then have "st' = skip_op (op_id oper) (Skipped ''Maintenance operation delegated to subsystem'') e ?st1"
        using run run1 by simp
      then show ?thesis by (rule skip)
    next
      case (VacuumDatabase d)
      then have "st' = skip_op (op_id oper) (Skipped ''Maintenance operation delegated to subsystem'') e ?st1"
        using run run1 by simp
      then show ?thesis by (rule skip)
    qed
  qed
qed

section \<open>What a plan does\<close>

text \<open>An unlink that some operation of the plan asks for, granted, with its gates passed, its intent stored, and
  every dependency among the successful results.\<close>

definition unlink_justified ::
  "CatalogSnapshot \<Rightarrow> AuthorizedPlan \<Rightarrow> AttemptId \<Rightarrow> SqliteStore \<Rightarrow> OperationFinalResult list \<Rightarrow> PlannedOperation list
    \<Rightarrow> string \<Rightarrow> bool \<Rightarrow> bool" where
  "unlink_justified catalog auth a s rs ops leaf dir \<longleftrightarrow> (\<exists>oper\<in>set ops. \<exists>t rel f.
    removal_of (op_type oper) = Some (t, rel, f, dir) \<and> file_name (components (rp_str rel)) = Some leaf \<and>
    capabilities_contain (capabilities (ap_grant auth)) (required_capability (op_type oper)) \<and>
    set (dependencies oper) \<subseteq> res_op_id ` {r \<in> set rs. is_success (res_status r)} \<and>
    gates_passed catalog auth (op_id oper) t rel f \<and> (\<exists>q. intent_in s a (op_id oper) t rel f q))"

lemma unlink_justified_mono:
  assumes "unlink_justified catalog auth a s rs ops leaf dir" "intents_kept s s'" "prefix rs rs'" "set ops \<subseteq> set ops'"
  shows "unlink_justified catalog auth a s' rs' ops' leaf dir"
proof -
  have "set rs \<subseteq> set rs'" using assms(3) by (rule set_mono_prefix)
  then have "res_op_id ` {r \<in> set rs. is_success (res_status r)} \<subseteq> res_op_id ` {r \<in> set rs'. is_success (res_status r)}"
    by auto
  then show ?thesis
    using assms(1,2,4) unfolding unlink_justified_def intents_kept_def by (meson subset_trans subsetD)
qed

definition successes_recorded :: "('h, 'w) ExecState \<Rightarrow> bool" where
  "successes_recorded st \<longleftrightarrow>
    set (ex_successful st) \<subseteq> res_op_id ` {r \<in> set (ex_results st). is_success (res_status r)}"

lemma booked_successes:
  assumes "booked oi st st'" "successes_recorded st"
  shows "successes_recorded st'"
proof -
  obtain r where "ex_results st' = ex_results st @ [r]" "res_op_id r = oi"
    "set (ex_successful st') = (if is_success (res_status r) then {oi} else {}) \<union> set (ex_successful st)"
    using assms(1) by (auto simp: booked_def)
  then show ?thesis using assms(2) by (auto simp: successes_recorded_def)
qed

definition unlinks :: "'h SysEvent list \<Rightarrow> nat" where
  "unlinks evs = length (filter is_unlink evs)"

lemma unlinks_append [simp]: "unlinks (xs @ ys) = unlinks xs + unlinks ys"
  by (simp add: unlinks_def)

lemma unlinks_none: "no_unlink evs \<Longrightarrow> unlinks evs = 0"
  by (simp add: unlinks_def no_unlink_def filter_empty_conv list_all_iff)

lemma op_effect_unlinks:
  assumes "op_effect catalog auth a oper st st' evs" "successes_recorded st"
  shows "unlinks evs \<le> 1 \<and> guarded prev evs \<and>
    (\<forall>h leaf dir u. SysUnlink h leaf dir u \<in> set evs \<longrightarrow>
      unlink_justified catalog auth a (ex_store st') (ex_results st) [oper] leaf dir)"
proof (cases "no_unlink evs")
  case True
  then show ?thesis
    using unlinks_none [OF True] guarded_no_unlink [OF True] by (auto simp: no_unlink_def is_unlink_def list_all_iff)
next
  case False
  then obtain t rel f dir where asks: "removal_of (op_type oper) = Some (t, rel, f, dir)"
    "capabilities_contain (capabilities (ap_grant auth)) (required_capability (op_type oper))"
    "set (dependencies oper) \<subseteq> set (ex_successful st)"
    and evs: "removal_evs catalog auth a (op_id oper) t rel f dir (ex_store st') evs"
    using assms by (auto simp: op_effect_def)
  from evs False obtain pre h leaf u post where ev: "removal_of (op_type oper) = Some (t, rel, f, dir)"
    "evs = pre @ [SysStat h leaf (Inr f), SysUnlink h leaf dir u] @ post" "no_unlink pre" "no_unlink post"
    and just: "file_name (components (rp_str rel)) = Some leaf"
      "gates_passed catalog auth (op_id oper) t rel f" "\<exists>q. intent_in (ex_store st') a (op_id oper) t rel f q"
    unfolding removal_evs_def using asks(1) by blast
  have "SysUnlink h' leaf' dir' u' \<in> set evs \<Longrightarrow> leaf' = leaf \<and> dir' = dir" for h' leaf' dir' u'
    using ev(2-4) by (auto simp: no_unlink_def is_unlink_def list_all_iff)
  moreover have "unlink_justified catalog auth a (ex_store st') (ex_results st) [oper] leaf dir"
    using asks just assms(2) unfolding unlink_justified_def successes_recorded_def by fastforce
  moreover have "guarded prev evs"
    using ev(2-4) guarded_no_unlink [OF ev(3), of prev] guarded_no_unlink [OF ev(4)] by (simp add: guarded_append)
  moreover have "unlinks evs \<le> 1"
    using unlinks_none [OF ev(3)] unlinks_none [OF ev(4)] unfolding ev(2) by (simp add: unlinks_def)
  ultimately show ?thesis by blast
qed

lemma execute_ops_effect:
  "execute_ops K auth catalog a envs ops st = (x, st') \<Longrightarrow> successes_recorded st \<Longrightarrow>
    \<exists>evs. extends (ex_proc st) (ex_proc st') evs \<and> guarded prev evs \<and>
      unlinks evs \<le> length (filter (\<lambda>n. \<not> oe_cancelled (envs n)) [0..<length ops]) \<and>
      intents_kept (ex_store st) (ex_store st') \<and> prefix (ex_results st) (ex_results st') \<and>
      locked_targets (ex_rm st') = locked_targets (ex_rm st) \<and>
      (\<forall>h leaf dir u. SysUnlink h leaf dir u \<in> set evs \<longrightarrow>
        unlink_justified catalog auth a (ex_store st') (ex_results st') ops leaf dir)"
proof (induction ops arbitrary: envs st prev)
  case Nil
  then show ?case by (intro exI [of _ "[]"]) (simp add: unlinks_def)
next
  case (Cons oper ops)
  obtain y st1 where one: "execute_op K auth catalog a (envs 0) oper st = (y, st1)" by fastforce
  note S = execute_op_spec [OF one]
  obtain e1 where e1: "op_effect catalog auth a oper st st1 e1" using S by blast
  note U = op_effect_unlinks [OF e1 Cons.prems(2)]
  have frame1: "extends (ex_proc st) (ex_proc st1) e1" "intents_kept (ex_store st) (ex_store st1)"
    "locked_targets (ex_rm st1) = locked_targets (ex_rm st)" "prefix (ex_results st) (ex_results st1)"
    using e1 S by (simp_all add: op_effect_def)
  have quiet: "oe_cancelled (envs 0) \<Longrightarrow> e1 = []"
    using S frame1(1) by (simp add: extends_def)
  have budget: "unlinks e1 \<le> (if oe_cancelled (envs 0) then 0 else 1)"
    using U quiet by (auto simp: unlinks_def)
  have steps: "length (filter (\<lambda>n. \<not> oe_cancelled (envs n)) [0..<length (oper # ops)]) =
      (if oe_cancelled (envs 0) then 0 else 1) +
      length (filter (\<lambda>n. \<not> oe_cancelled (envs (Suc n))) [0..<length ops])"
    by (simp add: upt_conv_Cons map_Suc_upt [symmetric] filter_map comp_def del: upt_Suc)
  show ?case
  proof (cases y)
    case (Inl err)
    then have "st' = st1" using Cons.prems(1) one by simp
    moreover have "unlink_justified catalog auth a (ex_store st1) (ex_results st1) (oper # ops) leaf dir"
      if "SysUnlink h leaf dir u \<in> set e1" for h leaf dir u
    proof -
      have "unlink_justified catalog auth a (ex_store st1) (ex_results st) [oper] leaf dir" using U that by blast
      then show ?thesis by (rule unlink_justified_mono [OF _ intents_kept_refl frame1(4)]) simp
    qed
    ultimately show ?thesis
      using frame1 U budget steps by (intro exI [of _ e1]) auto
  next
    case (Inr v)
    then have rest: "execute_ops K auth catalog a (\<lambda>n. envs (Suc n)) ops st1 = (x, st')"
      and "y = Inr ()" using Cons.prems(1) one by simp_all
    then have "successes_recorded st1" using S booked_successes Cons.prems(2) by blast
    from Cons.IH [OF rest this, of "if e1 = [] then prev else Some (last e1)"] obtain e2 where
      e2: "extends (ex_proc st1) (ex_proc st') e2" "guarded (if e1 = [] then prev else Some (last e1)) e2"
        "unlinks e2 \<le> length (filter (\<lambda>n. \<not> oe_cancelled (envs (Suc n))) [0..<length ops])"
        "intents_kept (ex_store st1) (ex_store st')" "prefix (ex_results st1) (ex_results st')"
        "locked_targets (ex_rm st') = locked_targets (ex_rm st1)"
        "\<And>h leaf dir u. SysUnlink h leaf dir u \<in> set e2 \<Longrightarrow>
          unlink_justified catalog auth a (ex_store st') (ex_results st') ops leaf dir"
      by blast
    have "unlink_justified catalog auth a (ex_store st') (ex_results st') (oper # ops) leaf dir"
      if "SysUnlink h leaf dir u \<in> set (e1 @ e2)" for h leaf dir u
    proof (cases "SysUnlink h leaf dir u \<in> set e1")
      case True
      then have "unlink_justified catalog auth a (ex_store st1) (ex_results st) [oper] leaf dir" using U by blast
      then show ?thesis
        by (rule unlink_justified_mono [OF _ e2(4) prefix_order.trans [OF frame1(4) e2(5)]]) simp
    next
      case False
      then have "unlink_justified catalog auth a (ex_store st') (ex_results st') ops leaf dir"
        using that e2(7) by simp
      then show ?thesis
        by (rule unlink_justified_mono) auto
    qed
    moreover have "extends (ex_proc st) (ex_proc st') (e1 @ e2)" by (rule extends_trans [OF frame1(1) e2(1)])
    moreover have "guarded prev (e1 @ e2)" using U e2(2) by (simp add: guarded_append)
    ultimately show ?thesis
      using intents_kept_trans [OF frame1(2) e2(4)] prefix_order.trans [OF frame1(4) e2(5)] frame1(3) e2(3,6)
        budget steps by (intro exI [of _ "e1 @ e2"]) auto
  qed
qed

text \<open>The books of a finished loop.\<close>

definition books_balance ::
  "PlannedOperation list \<Rightarrow> OperationFinalResult list \<Rightarrow> ('h, 'w) ExecState \<Rightarrow> ('h, 'w) ExecState \<Rightarrow> bool" where
  "books_balance ops rs st st' \<longleftrightarrow> ex_results st' = ex_results st @ rs \<and> map res_op_id rs = map op_id ops \<and>
    ex_success st' = ex_success st + length (filter (\<lambda>r. is_success (res_status r)) rs) \<and>
    ex_failed st' = ex_failed st + length (filter (\<lambda>r. is_failure (res_status r)) rs) \<and>
    ex_skipped st' = ex_skipped st + length (filter (\<lambda>r. is_skip (res_status r)) rs) \<and>
    ex_total st' = foldl saturating_add (ex_total st) (map reclaimed_bytes rs) \<and>
    list_all (\<lambda>r. is_success (res_status r) \<or> reclaimed_bytes r = 0) rs"

lemma books_balance_cons:
  assumes "booked (op_id oper) st st1" "books_balance ops rs st1 st'"
  shows "\<exists>r. books_balance (oper # ops) (r # rs) st st'"
proof -
  obtain r where "ex_results st1 = ex_results st @ [r]" "res_op_id r = op_id oper"
    "ex_success st1 = ex_success st + (if is_success (res_status r) then 1 else 0)"
    "ex_failed st1 = ex_failed st + (if is_failure (res_status r) then 1 else 0)"
    "ex_skipped st1 = ex_skipped st + (if is_skip (res_status r) then 1 else 0)"
    "ex_total st1 = saturating_add (ex_total st) (reclaimed_bytes r)"
    "\<not> is_success (res_status r) \<longrightarrow> reclaimed_bytes r = 0"
    using assms(1) unfolding booked_def by blast
  then show ?thesis using assms(2) by (intro exI [of _ r]) (simp add: books_balance_def)
qed

lemma execute_ops_books:
  "execute_ops K auth catalog a envs ops st = (Inr (), st') \<Longrightarrow> \<exists>rs. books_balance ops rs st st'"
proof (induction ops arbitrary: envs st)
  case Nil
  then show ?case by (intro exI [of _ "[]"]) (simp add: books_balance_def)
next
  case (Cons oper ops)
  obtain y st1 where one: "execute_op K auth catalog a (envs 0) oper st = (y, st1)" by fastforce
  then have y: "y = Inr ()" and rest: "execute_ops K auth catalog a (\<lambda>n. envs (Suc n)) ops st1 = (Inr (), st')"
    using Cons.prems by (auto split: sum.splits)
  obtain rs where rs: "books_balance ops rs st1 st'" using Cons.IH [OF rest] by blast
  have "booked (op_id oper) st st1" using execute_op_spec [OF one] y by blast
  from books_balance_cons [OF this rs] show ?case by blast
qed

lemma foldl_saturating_add:
  "unat (foldl saturating_add b xs) = min (unat b + sum_list (map unat xs)) (2 ^ 64 - 1)" for b :: u64
  using unat_fold_saturating_add [of xs b] by (simp add: foldl_conv_fold)

lemma status_partition:
  "length (filter (\<lambda>r. is_success (res_status r)) rs) + length (filter (\<lambda>r. is_failure (res_status r)) rs) +
    length (filter (\<lambda>r. is_skip (res_status r)) rs) = length rs"
  by (induction rs) (use status_classes in auto)

section \<open>Properties\<close>


text \<open>C4.  Write-ahead: a removal is prepared without unlinking anything, and when it is ready to start its intent is
  in the store in state MUTATING and the safety gate has accepted it; otherwise both kinds of removal end there.\<close>

theorem removal_after_durable_intent:
  "case prepare_mutation K auth catalog a e oi t rel f est mt msg st of (x, st1) \<Rightarrow>
     (\<exists>evs. extends (ex_proc st) (ex_proc st1) evs \<and> no_unlink evs) \<and>
     (case x of
        Inr (h, leaf, r) \<Rightarrow> intent_in (ex_store st1) a oi t rel f ''MUTATING'' \<and>
          gates_passed catalog auth oi t rel f \<and> locked_targets (ex_rm st1) t = Some (a, r)
      | Inl None \<Rightarrow> failed_op oi st st1
      | Inl (Some _) \<Rightarrow> ex_results st1 = ex_results st)"
proof -
  obtain x st1 where run: "prepare_mutation K auth catalog a e oi t rel f est mt msg st = (x, st1)" by fastforce
  show ?thesis
    using prepare_mutation_spec [OF run] run by (auto simp: books_eq_def split: sum.splits option.splits)
qed

text \<open>C6.  A plan that runs to its end reports exactly what happened: one result per operation in plan order, the
  three counters count the successes, failures and skips among them and add up to the number of operations, only
  successful results reclaim bytes, and the total is their sum, saturated at the largest 64-bit number.\<close>

theorem execute_plan_books_exact:
  "case execute_plan K auth catalog cfg a now envs elapsed p rm s of
     (Inl _, _) \<Rightarrow> True
   | (Inr jr, st') \<Rightarrow> (let rs = ex_results st' in
       map res_op_id rs = map op_id (operations (ap_plan auth)) \<and>
       successful_operations jr = length (filter (\<lambda>r. is_success (res_status r)) rs) \<and>
       failed_operations jr = length (filter (\<lambda>r. is_failure (res_status r)) rs) \<and>
       skipped_operations jr = length (filter (\<lambda>r. is_skip (res_status r)) rs) \<and>
       successful_operations jr + failed_operations jr + skipped_operations jr = total_operations jr \<and>
       unat (total_reclaimed jr) = min
         (sum_list (map (\<lambda>r. unat (reclaimed_bytes r)) (filter (\<lambda>r. is_success (res_status r)) rs)))
         (2 ^ 64 - 1))"
proof (cases "fst (execute_plan K auth catalog cfg a now envs elapsed p rm s)")
  case (Inl err)
  then show ?thesis by (simp add: case_prod_unfold)
next
  case (Inr jr)
  let ?ops = "operations (ap_plan auth)"
  obtain x st1 where run: "execute_ops K auth catalog a envs ?ops (exec_init p rm s) = (x, st1)" by fastforce
  have jr: "x = Inr ()" "jr = job_result auth a elapsed st1"
    and st': "ex_results (snd (execute_plan K auth catalog cfg a now envs elapsed p rm s)) = ex_results st1"
    using Inr run by (auto simp: execute_plan_def split: if_splits sum.splits)
  obtain rs where rs: "books_balance ?ops rs (exec_init p rm s) st1"
    using execute_ops_books run jr(1) by blast
  have len: "length rs = length ?ops"
    using rs by (metis books_balance_def length_map)
  have sum: "list_all (\<lambda>r. is_success (res_status r) \<or> reclaimed_bytes r = 0) qs \<Longrightarrow>
      sum_list (map (\<lambda>r. unat (reclaimed_bytes r)) (filter (\<lambda>r. is_success (res_status r)) qs)) =
      sum_list (map unat (map reclaimed_bytes qs))" for qs
    by (induction qs) auto
  show ?thesis
    using Inr rs len status_partition [of rs] foldl_saturating_add [of 0 "map reclaimed_bytes rs"] st' sum [of rs]
    by (cases "execute_plan K auth catalog cfg a now envs elapsed p rm s")
      (simp add: books_balance_def exec_init_def jr(2) job_result_def Let_def)
qed


definition example_env :: OpEnv where
  "example_env = \<lparr> oe_cancelled = False, oe_instants = [], oe_fd_wakes = (\<lambda>_. []), oe_now_gate = 10,
     oe_now_intent = 10, oe_now_mutating = 10, oe_now_verified = 10, oe_now_result = 10 \<rparr>"

definition example_auth :: AuthorizedPlan where
  "example_auth = \<lparr> ap_plan = PlannedPlan_empty 6 (JobId 1) (CatalogGeneration 1) (ConfigGeneration 1),
     ap_grant = \<lparr> grant_id = GrantId 1, capabilities = [], grant_catalog_generation = CatalogGeneration 1,
       grant_config_generation = ConfigGeneration 1, granted_at = 6, grant_expires_at = 66 \<rparr> \<rparr>"

definition example_catalog :: CatalogSnapshot where
  "example_catalog = \<lparr> snap_generation = CatalogGeneration 1,
     snap_targets = [(TargetId ''t'', example_target ''/data/data/com.example/cache'')] \<rparr>"

definition example_exec :: "(unit, (string \<times> u64) list) ExecState" where
  "example_exec = exec_init \<lparr> world = [(''f'', 21)], openat2_supported = True, sys_log = [] \<rparr>
     (ResourceManager_new 0 4 TNormal) example_store"

lemmas exec_eval = prepare_mutation_def example_env_def example_auth_def example_catalog_def example_exec_def
  exec_init_def snapshot_get_def acquire_target_lock_for_attempt_def ResourceManager_new_def next_reservation_def
  example_target_def validate_mutation_boundary_def is_mutation_allowed_def verify_target_root_safety_def
  path_eval get_or_open_parent_dir_def file_name_def fd_permit_ok_def acquire_fd_permit_timeout_def fd_wait_free
  open_root_with_permit_def sys_open_def sys_fstat_def one_dir_kernel_def log_event_def update_intent_state_def
  OperationIntent_new_def PlannedPlan_empty_def store_eval

lemma example_prepared:
  "\<exists>h r st1. prepare_mutation one_dir_kernel example_auth example_catalog (AttemptId 1) example_env (OperationId 1)
     (TargetId ''t'') (RelativePath ''f'') \<lparr> fid_dev = 7, fid_ino = 21 \<rparr> 4096 MtDeleteFile
     ''Failed to resolve parent directory'' example_exec = (Inr (h, ''f'', r), st1) \<and>
     world (ex_proc st1) = [(''f'', 21)] \<and> st_faults (ex_store st1) = [] \<and> ex_success st1 = 0"
  by (simp add: exec_eval Let_def)


end
