(* ===== verification/Recovery.thy ===== *)
theory Recovery
  imports Executor
begin

text \<open>
  Crash recovery at startup, \<open>recovery/mod.rs\<close>: for every attempt still RUNNING in the store, each of its
  intents is checked against the disk and the attempt and its job are closed accordingly.  Errors of the
  intent updates and of recording results are ignored by the code, the others end recovery.  The verdicts
  depend on the disk only: the lemmas relate recovery to a reference function that makes the same checks
  without a store, and show that recovery deletes nothing and leaves no attempt running.
\<close>

record RecoveryClock =
  rk_intent :: "AttemptId \<Rightarrow> OperationId \<Rightarrow> UnixTimestamp"
  rk_result :: "AttemptId \<Rightarrow> OperationId \<Rightarrow> UnixTimestamp"
  rk_attempt :: "AttemptId \<Rightarrow> UnixTimestamp"
  rk_job :: "AttemptId \<Rightarrow> UnixTimestamp"

record ('h, 'w) RecState =
  rc_store :: SqliteStore
  rc_proc :: "('h, 'w) Proc"
  rc_total :: ByteCount
  rc_all :: bool
  rc_unknown :: bool

text \<open>What an outcome means for the intent, its recorded result, its bytes and the two flags.\<close>

definition recovery_verdict ::
  "VerificationOutcome \<Rightarrow> ByteCount \<Rightarrow> string \<times> OperationStatus \<times> ByteCount \<times> bool \<times> bool" where
  "recovery_verdict v est = (case v of
      ConfirmedDeleted \<Rightarrow> (''VERIFIED_SUCCESS'', Success, est, True, False)
    | AlreadyGone \<Rightarrow> (''VERIFIED_SUCCESS'', Success, est, True, False)
    | StillPresent \<Rightarrow> (''VERIFIED_FAILED'', OpFailed ''Unfinished mutation post-crash'', 0, False, False)
    | IdentityMismatch \<Rightarrow> (''VERIFIED_FAILED'', OpFailed ''Unfinished mutation post-crash'', 0, False, False)
    | _ \<Rightarrow> (''RESOLVED_UNKNOWN'', Skipped ''Post-crash verification outcome'', 0, False, True))"

definition recover_intent ::
  "('h, 'w) Kernel \<Rightarrow> CatalogSnapshot \<Rightarrow> RecoveryClock \<Rightarrow> AttemptId \<Rightarrow> JobId \<Rightarrow> OperationIntent
    \<Rightarrow> ('h, 'w) RecState \<Rightarrow> ('h, 'w) RecState" where
  "recover_intent K snap clk a j it st =
    (case snapshot_get snap (in_target_id it) of
       None \<Rightarrow> st\<lparr>rc_all := False, rc_unknown := True,
                  rc_store := snd (update_intent_state (rk_intent clk a (in_op_id it)) a (in_op_id it)
                    ''RESOLVED_UNKNOWN'' (rc_store st))\<rparr>
     | Some d \<Rightarrow>
        (case verify_operation_postcondition K (td_base_path d) (rp_str (in_rel_path it))
                (in_expected_identity it) (rc_proc st) of (v, p1) \<Rightarrow>
         case recovery_verdict v (in_estimated_bytes it) of (state, status, bytes, good, unknown) \<Rightarrow>
           let s1 = snd (update_intent_state (rk_intent clk a (in_op_id it)) a (in_op_id it) state (rc_store st));
               res = \<lparr> res_op_id = in_op_id it, res_status = status, reclaimed_bytes = bytes,
                       executed_at = rk_result clk a (in_op_id it) \<rparr>;
               s2 = snd (record_operation_result j (PlanId 1) (in_target_id it)
                      (MutationType_display (in_mutation_type it)) (rp_str (in_rel_path it))
                      (in_expected_identity it) (in_estimated_bytes it) res s1)
           in \<lparr> rc_store = s2, rc_proc = p1, rc_total = saturating_add (rc_total st) bytes,
                rc_all = (rc_all st \<and> good), rc_unknown = (rc_unknown st \<or> unknown) \<rparr>))"

text \<open>The attempt's final state and its job's.\<close>

definition final_states :: "bool \<Rightarrow> bool \<Rightarrow> string \<times> string" where
  "final_states all_ok unknown =
    (if all_ok then (''RECONCILED'', ''RECOVERED'')
     else if unknown then (''UNRESOLVED'', ''PARTIALLY_RECONCILED'')
     else (''FAILED'', ''FAILED''))"

definition recover_attempt ::
  "('h, 'w) Kernel \<Rightarrow> CatalogSnapshot \<Rightarrow> RecoveryClock \<Rightarrow> AttemptId \<Rightarrow> JobId \<Rightarrow> SqliteStore \<Rightarrow> ('h, 'w) Proc
    \<Rightarrow> (bool, Failure) result \<times> SqliteStore \<times> ('h, 'w) Proc" where
  "recover_attempt K snap clk a j s p =
    (case get_operation_intents_for_attempt a s of
       (Inl e, s1) \<Rightarrow> (Inl e, s1, p)
     | (Inr its, s1) \<Rightarrow>
        (let st = fold (recover_intent K snap clk a j) its
               \<lparr> rc_store = s1, rc_proc = p, rc_total = 0, rc_all = True, rc_unknown = False \<rparr>;
             (att, job) = final_states (rc_all st) (rc_unknown st)
         in case update_attempt_state (rk_attempt clk a) a att (rc_store st) of
              (Inl e, s2) \<Rightarrow> (Inl (Err e), s2, rc_proc st)
            | (Inr _, s2) \<Rightarrow>
               (case update_job_state (rk_job clk a) j job (rc_total st) s2 of
                  (Inl e, s3) \<Rightarrow> (Inl (Err e), s3, rc_proc st)
                | (Inr _, s3) \<Rightarrow> (Inr (rc_all st), s3, rc_proc st))))"

fun recover_attempts ::
  "('h, 'w) Kernel \<Rightarrow> CatalogSnapshot \<Rightarrow> RecoveryClock \<Rightarrow> (AttemptId \<times> JobId) list \<Rightarrow> nat \<Rightarrow> SqliteStore
    \<Rightarrow> ('h, 'w) Proc \<Rightarrow> (nat, Failure) result \<times> SqliteStore \<times> ('h, 'w) Proc" where
  "recover_attempts K snap clk [] n s p = (Inr n, s, p)"
| "recover_attempts K snap clk ((a, j) # rest) n s p =
    (case recover_attempt K snap clk a j s p of
       (Inl e, s1, p1) \<Rightarrow> (Inl e, s1, p1)
     | (Inr full, s1, p1) \<Rightarrow> recover_attempts K snap clk rest (if full then n + 1 else n) s1 p1)"

definition reconcile_startup_crashes ::
  "('h, 'w) Kernel \<Rightarrow> CatalogSnapshot \<Rightarrow> RecoveryClock \<Rightarrow> SqliteStore \<Rightarrow> ('h, 'w) Proc
    \<Rightarrow> (nat, Failure) result \<times> SqliteStore \<times> ('h, 'w) Proc" where
  "reconcile_startup_crashes K snap clk s p =
    (case get_uncompleted_attempts s of
       (Inl e, s1) \<Rightarrow> (Inl (Err e), s1, p)
     | (Inr us, s1) \<Rightarrow> if us = [] then (Inr 0, s1, p) else recover_attempts K snap clk us 0 s1 p)"

section \<open>The verdicts without a store\<close>

text \<open>The outcome of each intent; \<open>None\<close> when its target is gone from the catalog.\<close>

fun recovery_outcomes ::
  "('h, 'w) Kernel \<Rightarrow> CatalogSnapshot \<Rightarrow> OperationIntent list \<Rightarrow> ('h, 'w) Proc
    \<Rightarrow> VerificationOutcome option list \<times> ('h, 'w) Proc" where
  "recovery_outcomes K snap [] p = ([], p)"
| "recovery_outcomes K snap (it # its) p =
    (case snapshot_get snap (in_target_id it) of
       None \<Rightarrow> (case recovery_outcomes K snap its p of (vs, p') \<Rightarrow> (None # vs, p'))
     | Some d \<Rightarrow>
        (case verify_operation_postcondition K (td_base_path d) (rp_str (in_rel_path it))
                (in_expected_identity it) p of (v, p1) \<Rightarrow>
         case recovery_outcomes K snap its p1 of (vs, p') \<Rightarrow> (Some v # vs, p')))"

definition deleted :: "VerificationOutcome option \<Rightarrow> bool" where
  "deleted v = (case v of Some w \<Rightarrow> is_successful_deletion w | None \<Rightarrow> False)"

definition undetermined :: "VerificationOutcome option \<Rightarrow> bool" where
  "undetermined v = (case v of None \<Rightarrow> True
     | Some w \<Rightarrow> w = ParentUnavailable \<or> w = TargetUnavailable \<or> w = StaleOutcome \<or> w = UnknownOutcome)"

definition recovered_bytes :: "OperationIntent list \<Rightarrow> VerificationOutcome option list \<Rightarrow> ByteCount list" where
  "recovered_bytes its vs = map (\<lambda>(it, v). if deleted v then in_estimated_bytes it else 0) (zip its vs)"

lemma recovery_verdict_flags:
  "recovery_verdict v est = (state, status, bytes, good, unknown) \<Longrightarrow>
    good = deleted (Some v) \<and> unknown = undetermined (Some v) \<and> bytes = (if deleted (Some v) then est else 0)"
  by (cases v) (auto simp: recovery_verdict_def deleted_def undetermined_def is_successful_deletion_def)

lemma fold_recover_intent:
  "recovery_outcomes K snap its (rc_proc st) = (vs, p') \<Longrightarrow>
    (let st' = fold (recover_intent K snap clk a j) its st in
      rc_proc st' = p' \<and> rc_all st' = (rc_all st \<and> list_all deleted vs) \<and>
      rc_unknown st' = (rc_unknown st \<or> list_ex undetermined vs) \<and>
      rc_total st' = foldl saturating_add (rc_total st) (recovered_bytes its vs) \<and>
      st_attempts (rc_store st') = st_attempts (rc_store st) \<and> st_jobs (rc_store st') = st_jobs (rc_store st))"
proof (induction its arbitrary: st vs)
  case Nil
  then show ?case by (simp add: recovered_bytes_def Let_def)
next
  case (Cons it its)
  have upd: "st_attempts (snd (update_intent_state now a oi state s)) = st_attempts s"
    "st_jobs (snd (update_intent_state now a oi state s)) = st_jobs s" for now oi state s
    using same_tables_fields [OF sql_fault_same]
    by (auto simp: update_intent_state_def split: prod.splits)
  have recd: "st_attempts (snd (record_operation_result j pl t ty rel f est res s)) = st_attempts s"
    "st_jobs (snd (record_operation_result j pl t ty rel f est res s)) = st_jobs s" for j pl t ty rel f est res s
    using same_tables_fields [OF sql_fault_same]
    by (auto simp: record_operation_result_def split: prod.splits)
  show ?case
  proof (cases "snapshot_get snap (in_target_id it)")
    case None
    then obtain ws where ws: "vs = None # ws" "recovery_outcomes K snap its (rc_proc st) = (ws, p')"
      using Cons.prems by (auto split: prod.splits)
    let ?st1 = "recover_intent K snap clk a j it st"
    have "rc_proc ?st1 = rc_proc st" "\<not> rc_all ?st1" "rc_unknown ?st1" "rc_total ?st1 = rc_total st"
      "st_attempts (rc_store ?st1) = st_attempts (rc_store st)" "st_jobs (rc_store ?st1) = st_jobs (rc_store st)"
      by (simp_all add: recover_intent_def None upd)
    then show ?thesis
      using Cons.IH [of ?st1 ws] ws by (simp add: deleted_def undetermined_def recovered_bytes_def Let_def)
  next
    case (Some d)
    obtain v p1 where ver: "verify_operation_postcondition K (td_base_path d) (rp_str (in_rel_path it))
        (in_expected_identity it) (rc_proc st) = (v, p1)" by fastforce
    obtain state status bytes good unknown where verd:
      "recovery_verdict v (in_estimated_bytes it) = (state, status, bytes, good, unknown)"
      by (metis prod_cases5)
    obtain ws where ws: "vs = Some v # ws" "recovery_outcomes K snap its p1 = (ws, p')"
      using Cons.prems Some ver by (auto split: prod.splits)
    let ?st1 = "recover_intent K snap clk a j it st"
    have "rc_proc ?st1 = p1" "rc_all ?st1 = (rc_all st \<and> good)" "rc_unknown ?st1 = (rc_unknown st \<or> unknown)"
      "rc_total ?st1 = saturating_add (rc_total st) bytes"
      "st_attempts (rc_store ?st1) = st_attempts (rc_store st)" "st_jobs (rc_store ?st1) = st_jobs (rc_store st)"
      by (simp_all add: recover_intent_def Some ver verd Let_def upd recd)
    then show ?thesis
      using Cons.IH [of ?st1 ws] ws recovery_verdict_flags [OF verd]
      by (simp add: recovered_bytes_def Let_def conj_assoc disj_assoc)
  qed
qed

lemma recovery_outcomes_calls:
  "recovery_outcomes K snap its p = (vs, p') \<Longrightarrow> length vs = length its \<and> (\<exists>evs. extends p p' evs \<and> no_unlink evs)"
proof (induction its arbitrary: p vs)
  case Nil
  then show ?case by (auto intro: exI [of _ "[]"])
next
  case (Cons it its)
  show ?case
  proof (cases "snapshot_get snap (in_target_id it)")
    case None
    then show ?thesis using Cons by (auto split: prod.splits)
  next
    case (Some d)
    obtain v p1 where ver: "verify_operation_postcondition K (td_base_path d) (rp_str (in_rel_path it))
        (in_expected_identity it) p = (v, p1)" by fastforce
    obtain ws where ws: "vs = Some v # ws" "recovery_outcomes K snap its p1 = (ws, p')"
      using Cons.prems Some ver by (auto split: prod.splits)
    obtain e1 e2 where "extends p p1 e1" "no_unlink e1" "extends p1 p' e2" "no_unlink e2" "length ws = length its"
      using verify_operation_postcondition_calls [OF ver] Cons.IH [OF ws(2)] by blast
    then show ?thesis
      using extends_trans [of p p1 e1 p' e2] ws(1) by (auto intro!: exI [of _ "e1 @ e2"])
  qed
qed

section \<open>Closing attempts\<close>

lemma update_attempt_state_rows:
  assumes "update_attempt_state now a state s = (x, s')"
  shows "st_attempts s' = (case x of Inl _ \<Rightarrow> st_attempts s
      | Inr _ \<Rightarrow> map (\<lambda>r. if ar_id r = a then r\<lparr>ar_state := state, ar_finished := Some now\<rparr> else r) (st_attempts s))"
    "st_jobs s' = st_jobs s"
proof -
  obtain flt s1 where flt: "sql_fault s = (flt, s1)" by fastforce
  note same = same_tables_fields [OF sql_fault_same [OF flt]]
  show "st_attempts s' = (case x of Inl _ \<Rightarrow> st_attempts s
      | Inr _ \<Rightarrow> map (\<lambda>r. if ar_id r = a then r\<lparr>ar_state := state, ar_finished := Some now\<rparr> else r) (st_attempts s))"
    using assms same by (auto simp: update_attempt_state_def flt split: if_splits)
  show "st_jobs s' = st_jobs s"
    using assms same by (auto simp: update_attempt_state_def flt split: if_splits)
qed

lemma update_job_state_rows:
  assumes "update_job_state now j state b s = (x, s')"
  shows "st_attempts s' = st_attempts s"
    "st_jobs s' = (case x of Inl _ \<Rightarrow> st_jobs s
      | Inr _ \<Rightarrow> map (\<lambda>r. if jb_id r = j then r\<lparr>jb_state := state, jb_reclaimed := b, jb_updated := now\<rparr> else r) (st_jobs s))"
proof -
  obtain flt s1 where flt: "sql_fault s = (flt, s1)" by fastforce
  note same = same_tables_fields [OF sql_fault_same [OF flt]]
  show "st_attempts s' = st_attempts s"
    using assms same by (auto simp: update_job_state_def flt split: if_splits)
  show "st_jobs s' = (case x of Inl _ \<Rightarrow> st_jobs s
      | Inr _ \<Rightarrow> map (\<lambda>r. if jb_id r = j then r\<lparr>jb_state := state, jb_reclaimed := b, jb_updated := now\<rparr> else r) (st_jobs s))"
    using assms same by (auto simp: update_job_state_def flt split: if_splits)
qed

lemma get_operation_intents_same:
  "get_operation_intents_for_attempt a s = (x, s') \<Longrightarrow> same_tables s s'"
  using sql_fault_same by (auto simp: get_operation_intents_for_attempt_def split: prod.splits if_splits)

text \<open>A recovered attempt, with the outcomes its intents had.\<close>

lemma recover_attempt_Inr:
  assumes run: "recover_attempt K snap clk a j s p = (Inr b, s', p')"
  obtains its vs where
    "fst (get_operation_intents_for_attempt a s) = Inr its" "recovery_outcomes K snap its p = (vs, p')"
    "b = list_all deleted vs"
    "st_attempts s' = map (\<lambda>r. if ar_id r = a then r\<lparr>ar_state := fst (final_states b (list_ex undetermined vs)),
        ar_finished := Some (rk_attempt clk a)\<rparr> else r) (st_attempts s)"
    "st_jobs s' = map (\<lambda>r. if jb_id r = j then r\<lparr>jb_state := snd (final_states b (list_ex undetermined vs)),
        jb_reclaimed := foldl saturating_add 0 (recovered_bytes its vs), jb_updated := rk_job clk a\<rparr> else r) (st_jobs s)"
proof -
  obtain x s1 where get: "get_operation_intents_for_attempt a s = (x, s1)" by fastforce
  then obtain its where x: "x = Inr its" using run by (cases x) (auto simp: recover_attempt_def)
  define st where "st = fold (recover_intent K snap clk a j) its
      \<lparr> rc_store = s1, rc_proc = p, rc_total = 0, rc_all = True, rc_unknown = False \<rparr>"
  obtain vs q where out: "recovery_outcomes K snap its p = (vs, q)" by fastforce
  have st: "rc_proc st = q" "rc_all st = list_all deleted vs" "rc_unknown st = list_ex undetermined vs"
    "rc_total st = foldl saturating_add 0 (recovered_bytes its vs)"
    "st_attempts (rc_store st) = st_attempts s" "st_jobs (rc_store st) = st_jobs s"
    using fold_recover_intent [of K snap its "\<lparr> rc_store = s1, rc_proc = p, rc_total = 0, rc_all = True,
        rc_unknown = False \<rparr>" vs q clk a j] out same_tables_fields [OF get_operation_intents_same [OF get]]
    by (simp_all add: st_def [symmetric] Let_def)
  let ?fs = "final_states (rc_all st) (rc_unknown st)"
  obtain y s2 where att: "update_attempt_state (rk_attempt clk a) a (fst ?fs) (rc_store st) = (y, s2)" by fastforce
  obtain z s3 where job: "update_job_state (rk_job clk a) j (snd ?fs) (rc_total st) s2 = (z, s3)" by fastforce
  have res: "y = Inr ()" "z = Inr ()" "b = rc_all st" "s' = s3" "p' = rc_proc st"
    using run att job by (auto simp: recover_attempt_def get x st_def [symmetric] Let_def split: prod.splits sum.splits)
  show thesis
    using that [of its vs] get x out st res update_attempt_state_rows [OF att] update_job_state_rows [OF job] by simp
qed

lemma recover_attempt_calls:
  assumes "recover_attempt K snap clk a j s p = (x, s', p')"
  shows "\<exists>evs. extends p p' evs \<and> no_unlink evs"
proof -
  obtain y s1 where get: "get_operation_intents_for_attempt a s = (y, s1)" by fastforce
  show ?thesis
  proof (cases y)
    case (Inl e)
    then show ?thesis using assms get by (auto simp: recover_attempt_def intro: exI [of _ "[]"])
  next
    case (Inr its)
    obtain vs q where out: "recovery_outcomes K snap its p = (vs, q)" by fastforce
    have "rc_proc (fold (recover_intent K snap clk a j) its
        \<lparr> rc_store = s1, rc_proc = p, rc_total = 0, rc_all = True, rc_unknown = False \<rparr>) = q"
      using fold_recover_intent [of K snap its "\<lparr> rc_store = s1, rc_proc = p, rc_total = 0, rc_all = True,
        rc_unknown = False \<rparr>" vs q clk a j] out by (simp add: Let_def)
    then have "p' = q"
      using assms get Inr by (auto simp: recover_attempt_def Let_def split: prod.splits sum.splits)
    then show ?thesis using recovery_outcomes_calls [OF out] by blast
  qed
qed

lemma recover_attempts_calls:
  "recover_attempts K snap clk us n s p = (x, s', p') \<Longrightarrow> \<exists>evs. extends p p' evs \<and> no_unlink evs"
proof (induction us arbitrary: n s p)
  case Nil
  then show ?case by (auto intro: exI [of _ "[]"])
next
  case (Cons u us)
  obtain a j where u: "u = (a, j)" by fastforce
  obtain y s1 p1 where one: "recover_attempt K snap clk a j s p = (y, s1, p1)" by (metis prod_cases3)
  obtain e1 where e1: "extends p p1 e1" "no_unlink e1" using recover_attempt_calls [OF one] by blast
  show ?case
  proof (cases y)
    case (Inl e)
    then show ?thesis using Cons.prems one u e1 by auto
  next
    case (Inr b)
    then obtain e2 where "extends p1 p' e2" "no_unlink e2"
      using Cons.IH [of "if b then n + 1 else n" s1 p1] Cons.prems one u by auto
    then show ?thesis using e1 extends_trans [of p p1 e1 p' e2] by (auto intro!: exI [of _ "e1 @ e2"])
  qed
qed

lemma final_not_running: "fst (final_states b u) \<noteq> ''RUNNING''"
  by (simp add: final_states_def)

lemma recover_attempts_settles:
  "recover_attempts K snap clk us n s p = (Inr m, s', p') \<Longrightarrow>
    (\<forall>r\<in>set (st_attempts s). ar_state r = ''RUNNING'' \<longrightarrow> ar_id r \<in> fst ` set us) \<Longrightarrow>
    (\<forall>r\<in>set (st_attempts s'). ar_state r \<noteq> ''RUNNING'') \<and> n \<le> m \<and> m \<le> n + length us"
proof (induction us arbitrary: n s p)
  case Nil
  then show ?case by auto
next
  case (Cons u us)
  obtain a j where u: "u = (a, j)" by fastforce
  obtain y s1 p1 where one: "recover_attempt K snap clk a j s p = (y, s1, p1)" by (metis prod_cases3)
  obtain b where y: "y = Inr b" using Cons.prems(1) one u by (cases y) auto
  have rest: "recover_attempts K snap clk us (if b then n + 1 else n) s1 p1 = (Inr m, s', p')"
    using Cons.prems(1) one u y by simp
  obtain its vs where rows: "st_attempts s1 = map (\<lambda>r. if ar_id r = a
      then r\<lparr>ar_state := fst (final_states b (list_ex undetermined vs)), ar_finished := Some (rk_attempt clk a)\<rparr>
      else r) (st_attempts s)"
    by (rule recover_attempt_Inr [OF one [unfolded y]])
  have "\<forall>r\<in>set (st_attempts s1). ar_state r = ''RUNNING'' \<longrightarrow> ar_id r \<in> fst ` set us"
  proof (intro ballI impI)
    fix r
    assume r: "r \<in> set (st_attempts s1)" "ar_state r = ''RUNNING''"
    then obtain q where q: "q \<in> set (st_attempts s)" "r = (if ar_id q = a
        then q\<lparr>ar_state := fst (final_states b (list_ex undetermined vs)), ar_finished := Some (rk_attempt clk a)\<rparr> else q)"
      unfolding rows set_map image_iff by blast
    then have "ar_id q \<noteq> a" "r = q" using r(2) final_not_running by (auto split: if_splits)
    then show "ar_id r \<in> fst ` set us" using Cons.prems(2) q(1) r(2) u by auto
  qed
  from Cons.IH [OF rest this] show ?case by (auto split: if_splits)
qed

section \<open>Properties\<close>


definition example_clock :: RecoveryClock where
  "example_clock = \<lparr> rk_intent = (\<lambda>_ _. 20), rk_result = (\<lambda>_ _. 20), rk_attempt = (\<lambda>_. 20), rk_job = (\<lambda>_. 20) \<rparr>"

definition crashed_store :: SqliteStore where
  "crashed_store = snd (create_attempt 6 (AttemptId 1) (JobId 1) (WorkerId 1) 300 example_store)"

lemma crashed_recovers:
  "\<exists>s' p'. recover_attempt one_dir_kernel example_catalog example_clock (AttemptId 1) (JobId 1) crashed_store
     \<lparr> world = [], openat2_supported = True, sys_log = [] \<rparr> = (Inr True, s', p') \<and>
     st_attempts s' \<noteq> [] \<and> ar_id (hd (st_attempts s')) = AttemptId 1"
  by (simp add: recover_attempt_def get_operation_intents_for_attempt_def crashed_store_def create_attempt_def
      store_eval update_attempt_state_def update_job_state_def final_states_def)


text \<open>Recovery deletes nothing, whatever the kernel answers; and when it returns normally no attempt is left
  RUNNING, so that a next start has nothing to recover, and it has counted at most the attempts it found.\<close>

theorem recovery_settles_all:
  "case reconcile_startup_crashes K snap clk s p of (x, s', p') \<Rightarrow>
     (\<exists>evs. extends p p' evs \<and> no_unlink evs) \<and>
     (case x of Inl _ \<Rightarrow> True
      | Inr n \<Rightarrow> list_all (\<lambda>r. ar_state r \<noteq> ''RUNNING'') (st_attempts s') \<and>
          n \<le> length (filter (\<lambda>r. ar_state r = ''RUNNING'') (st_attempts s)))"
proof -
  obtain flt s1 where flt: "sql_fault s = (flt, s1)" by fastforce
  note same = same_tables_fields [OF sql_fault_same [OF flt]]
  let ?us = "map (\<lambda>r. (ar_id r, ar_job r)) (filter (\<lambda>r. ar_state r = ''RUNNING'') (st_attempts s))"
  have quiet: "\<exists>evs. extends p p evs \<and> no_unlink evs" by (rule exI [of _ "[]"]) simp
  have rec: "reconcile_startup_crashes K snap clk s p =
      (if flt then (Inl (Err (Storage ''query failed'')), s1, p)
       else if ?us = [] then (Inr 0, s1, p) else recover_attempts K snap clk ?us 0 s1 p)"
    using same by (simp add: reconcile_startup_crashes_def get_uncompleted_attempts_def flt)
  consider (fault) "flt" | (none) "\<not> flt" "?us = []" | (some) "\<not> flt" "?us \<noteq> []" by blast
  then show ?thesis
  proof cases
    case fault
    then show ?thesis unfolding rec using quiet by simp
  next
    case none
    then have "list_all (\<lambda>r. ar_state r \<noteq> ''RUNNING'') (st_attempts s1)"
      using same by (simp add: filter_empty_conv list_all_iff)
    then show ?thesis unfolding rec using quiet none by simp
  next
    case some
    obtain x s' p' where run: "recover_attempts K snap clk ?us 0 s1 p = (x, s', p')"
      by (rule prod_cases3)
    have cover: "\<forall>r\<in>set (st_attempts s1). ar_state r = ''RUNNING'' \<longrightarrow> ar_id r \<in> fst ` set ?us"
      using same by force
    show ?thesis
    proof (cases x)
      case (Inl e)
      then show ?thesis unfolding rec using some run recover_attempts_calls [OF run] by simp
    next
      case (Inr n)
      then have "list_all (\<lambda>r. ar_state r \<noteq> ''RUNNING'') (st_attempts s')" "n \<le> length ?us"
        using recover_attempts_settles [OF run [unfolded Inr] cover] by (simp_all add: list_all_iff)
      then show ?thesis unfolding rec using some run Inr recover_attempts_calls [OF run] by simp
    qed
  qed
qed

end
