(* ===== verification/Scanner.thy ===== *)
theory Scanner
  imports Executor
begin

text \<open>
  The candidate scanner of \<open>scanner/mod.rs\<close>: a depth-first walk of a target through directory handles,
  either collecting the candidates or delivering them in chunks.  The recursion is bounded by the code's
  own depth limit of 16, which is the structural argument of the model.  Waits for descriptor permits
  follow a script, one entry per request.  A file larger than the byte-count bound makes the code panic.
  The lemmas bound what a scan returns, show that it changes nothing on disk, and that delivering in
  chunks gives the candidates that collecting gives.
\<close>

definition MAX_CANDIDATES_PER_TARGET :: nat where
  "MAX_CANDIDATES_PER_TARGET = 50000"

definition MAX_SCAN_DEPTH :: nat where
  "MAX_SCAN_DEPTH = 16"

datatype ScanStatus = ScanComplete | ScanPartial | ScanFailed

record ScanResult =
  scr_candidates :: "Candidate list"
  scr_status :: ScanStatus
  scr_errors :: "string list"

text \<open>The scanner's counter, the shared process and permits, and the accumulators of one scan.\<close>

record ('h, 'w) ScanState =
  sc_proc :: "('h, 'w) Proc"
  sc_rm :: ResourceManager
  sc_wakes :: "FdWake list list"
  sc_counter :: u64
  sc_candidates :: "Candidate list"
  sc_errors :: "string list"
  sc_hit :: bool

definition next_candidate_id :: "('h, 'w, 'z) ScanState_scheme \<Rightarrow> CandidateId \<times> ('h, 'w, 'z) ScanState_scheme" where
  "next_candidate_id st = (CandidateId (sc_counter st), st\<lparr>sc_counter := sc_counter st + 1\<rparr>)"

text \<open>The candidate for an entry; \<open>None\<close> where \<open>ByteCount::new\<close> panics.\<close>

definition entry_candidate ::
  "TargetDescriptor \<Rightarrow> CandidateId \<Rightarrow> RelativePath \<Rightarrow> SafeDirEntry \<Rightarrow> Candidate option" where
  "entry_candidate target cid rel e =
    (if ent_is_dir e \<and> \<not> ent_is_symlink e
     then Some \<lparr> cand_id = cid, cand_target_id = td_target_id target, cand_rel_path = rel,
                 cand_identity = ent_identity e, cand_size_bytes = 0, cand_mtime = ent_mtime_secs e,
                 cand_atime = None, cand_is_dir = True, cand_is_symlink = False \<rparr>
     else map_option (\<lambda>size. \<lparr> cand_id = cid, cand_target_id = td_target_id target, cand_rel_path = rel,
                 cand_identity = ent_identity e, cand_size_bytes = size, cand_mtime = ent_mtime_secs e,
                 cand_atime = None, cand_is_dir = False, cand_is_symlink = ent_is_symlink e \<rparr>)
            (ByteCount_new (ent_size_bytes e)))"

text \<open>\<open>acquire_fd_permit\<close> with the next entry of the script.\<close>

definition scan_permit :: "('h, 'w, 'z) ScanState_scheme \<Rightarrow> bool \<times> ('h, 'w, 'z) ScanState_scheme" where
  "scan_permit st = (case fd_permit_ok (case sc_wakes st of [] \<Rightarrow> [] | w # _ \<Rightarrow> w) (sc_rm st) of
     (ok, rm) \<Rightarrow> (ok, st\<lparr>sc_rm := rm, sc_wakes := tl (sc_wakes st)\<rparr>))"

text \<open>Descending into a child: without a permit, or when it cannot be opened, nothing happens; otherwise the
  child is scanned and its handle dropped.\<close>

definition scan_child ::
  "('h, 'w) Kernel
    \<Rightarrow> ('h SafeDirHandle \<Rightarrow> ('h, 'w, 'z) ScanState_scheme \<Rightarrow> ('r, Failure) result \<times> ('h, 'w, 'z) ScanState_scheme)
    \<Rightarrow> 'r \<Rightarrow> 'h SafeDirHandle \<Rightarrow> string \<Rightarrow> ('h, 'w, 'z) ScanState_scheme
    \<Rightarrow> ('r, Failure) result \<times> ('h, 'w, 'z) ScanState_scheme" where
  "scan_child K descend skip h name st =
    (case scan_permit st of (ok, st1) \<Rightarrow>
      if \<not> ok then (Inr skip, st1)
      else case open_child_dir_with_permit K h name True (sc_proc st1) of
        (Inl _, p) \<Rightarrow> (Inr skip, st1\<lparr>sc_proc := p, sc_rm := drop_fd_permit (sc_rm st1)\<rparr>)
      | (Inr child, p) \<Rightarrow>
          (case descend child (st1\<lparr>sc_proc := p\<rparr>) of
             (x, st2) \<Rightarrow> (x, st2\<lparr>sc_rm := drop_handle child (sc_rm st2)\<rparr>)))"

section \<open>Collecting\<close>

fun scan_entries ::
  "('h, 'w) Kernel \<Rightarrow> (RelativePath \<Rightarrow> 'h SafeDirHandle \<Rightarrow> ('h, 'w) ScanState \<Rightarrow> (unit, Failure) result \<times> ('h, 'w) ScanState)
    \<Rightarrow> TargetDescriptor \<Rightarrow> 'h SafeDirHandle \<Rightarrow> RelativePath \<Rightarrow> SafeDirEntry list \<Rightarrow> ('h, 'w) ScanState
    \<Rightarrow> (unit, Failure) result \<times> ('h, 'w) ScanState" where
  "scan_entries K descend target h prefx [] st = (Inr (), st)"
| "scan_entries K descend target h prefx (e # es) st =
    (if length (sc_candidates st) \<ge> MAX_CANDIDATES_PER_TARGET then (Inr (), st\<lparr>sc_hit := True\<rparr>)
     else case RelativePath_join prefx (ent_name e) of
       None \<Rightarrow> scan_entries K descend target h prefx es st
     | Some rel \<Rightarrow>
        (case next_candidate_id st of (cid, st1) \<Rightarrow>
         case entry_candidate target cid rel e of
           None \<Rightarrow> (Inl (Panic ''ByteCount exceeds MAX_SAFE''), st1)
         | Some c \<Rightarrow>
            (let st2 = st1\<lparr>sc_candidates := sc_candidates st1 @ [c]\<rparr> in
             if ent_is_dir e \<and> \<not> ent_is_symlink e
             then case scan_child K (descend rel) () h (ent_name e) st2 of
                (Inl f, st3) \<Rightarrow> (Inl f, st3)
              | (Inr _, st3) \<Rightarrow> scan_entries K descend target h prefx es st3
             else scan_entries K descend target h prefx es st2)))"

primrec scan_safe_recursive ::
  "nat \<Rightarrow> ('h, 'w) Kernel \<Rightarrow> TargetDescriptor \<Rightarrow> RelativePath \<Rightarrow> 'h SafeDirHandle \<Rightarrow> ('h, 'w) ScanState
    \<Rightarrow> (unit, Failure) result \<times> ('h, 'w) ScanState" where
  "scan_safe_recursive 0 K target prefx h st = (Inr (), st)"
| "scan_safe_recursive (Suc n) K target prefx h st =
    (if length (sc_candidates st) \<ge> MAX_CANDIDATES_PER_TARGET then (Inr (), st\<lparr>sc_hit := True\<rparr>)
     else case read_entries_fd K h (sc_proc st) of
       (Inl _, p) \<Rightarrow> (Inr (), st\<lparr>sc_proc := p,
           sc_errors := sc_errors st @ [''Failed to read directory '' @ rp_str prefx]\<rparr>)
     | (Inr es, p) \<Rightarrow>
         scan_entries K (\<lambda>rel child st'. scan_safe_recursive n K target rel child st') target h prefx es
           (st\<lparr>sc_proc := p\<rparr>))"

definition scan_status :: "bool \<Rightarrow> string list \<Rightarrow> Candidate list \<Rightarrow> ScanStatus" where
  "scan_status hit errors cands =
    (if hit then ScanPartial
     else if errors \<noteq> [] \<and> cands = [] then ScanFailed
     else if errors \<noteq> [] then ScanPartial
     else ScanComplete)"

text \<open>\<open>base_exists\<close> is the answer of \<open>Path::exists\<close>, asked only when the root cannot be opened.\<close>

definition scan_target_with_resource ::
  "('h, 'w) Kernel \<Rightarrow> bool \<Rightarrow> TargetDescriptor \<Rightarrow> FdWake list list \<Rightarrow> u64 \<Rightarrow> ('h, 'w) Proc \<Rightarrow> ResourceManager
    \<Rightarrow> (ScanResult, Failure) result \<times> ('h, 'w) ScanState" where
  "scan_target_with_resource K base_exists target wakes counter p rm =
    (let st0 = \<lparr> sc_proc = p, sc_rm = rm, sc_wakes = wakes, sc_counter = counter, sc_candidates = [],
                 sc_errors = [], sc_hit = False \<rparr> in
     case scan_permit st0 of (ok, st1) \<Rightarrow>
     case open_root_with_permit K (td_base_path target) ok (sc_proc st1) of
       (Inl _, p1) \<Rightarrow>
         (let st2 = st1\<lparr>sc_proc := p1, sc_rm := drop_permit ok (sc_rm st1)\<rparr> in
          if \<not> base_exists
          then (Inr \<lparr> scr_candidates = [], scr_status = ScanComplete, scr_errors = [] \<rparr>, st2)
          else (Inr \<lparr> scr_candidates = [], scr_status = ScanFailed,
                      scr_errors = [''Failed to open target root''] \<rparr>, st2))
     | (Inr h, p1) \<Rightarrow>
         (case scan_safe_recursive MAX_SCAN_DEPTH K target (RelativePath []) h (st1\<lparr>sc_proc := p1\<rparr>) of
            (x, st2) \<Rightarrow>
              (case x of Inl f \<Rightarrow> Inl f
               | Inr _ \<Rightarrow> Inr \<lparr> scr_candidates = sc_candidates st2,
                   scr_status = scan_status (sc_hit st2) (sc_errors st2) (sc_candidates st2),
                   scr_errors = sc_errors st2 \<rparr>,
               st2\<lparr>sc_rm := drop_handle h (sc_rm st2)\<rparr>)))"

section \<open>Delivering in chunks\<close>

text \<open>The buffer is the candidate list of the state; the caller's closure is a function on its own state \<open>'c\<close>.\<close>

record ('h, 'w, 'c) StreamState = "('h, 'w) ScanState" +
  ss_caller :: 'c

type_synonym 'c chunk_fn = "Candidate list \<Rightarrow> 'c \<Rightarrow> (bool, Failure) result \<times> 'c"

definition push_chunk ::
  "'c chunk_fn \<Rightarrow> nat \<Rightarrow> Candidate \<Rightarrow> ('h, 'w, 'c) StreamState \<Rightarrow> (bool, Failure) result \<times> ('h, 'w, 'c) StreamState" where
  "push_chunk on_chunk chunk_size c st =
    (let buffer = sc_candidates st @ [c] in
     if length buffer \<ge> chunk_size
     then case on_chunk buffer (ss_caller st) of (x, cs) \<Rightarrow> (x, st\<lparr>sc_candidates := [], ss_caller := cs\<rparr>)
     else (Inr True, st\<lparr>sc_candidates := buffer\<rparr>))"

fun stream_entries ::
  "('h, 'w) Kernel \<Rightarrow> 'c chunk_fn \<Rightarrow> nat
    \<Rightarrow> (RelativePath \<Rightarrow> 'h SafeDirHandle \<Rightarrow> ('h, 'w, 'c) StreamState \<Rightarrow> (bool, Failure) result \<times> ('h, 'w, 'c) StreamState)
    \<Rightarrow> TargetDescriptor \<Rightarrow> 'h SafeDirHandle \<Rightarrow> RelativePath \<Rightarrow> SafeDirEntry list \<Rightarrow> ('h, 'w, 'c) StreamState
    \<Rightarrow> (bool, Failure) result \<times> ('h, 'w, 'c) StreamState" where
  "stream_entries K on_chunk chunk_size descend target h prefx [] st = (Inr True, st)"
| "stream_entries K on_chunk chunk_size descend target h prefx (e # es) st =
    (case RelativePath_join prefx (ent_name e) of
       None \<Rightarrow> stream_entries K on_chunk chunk_size descend target h prefx es st
     | Some rel \<Rightarrow>
        (case next_candidate_id st of (cid, st1) \<Rightarrow>
         case entry_candidate target cid rel e of
           None \<Rightarrow> (Inl (Panic ''ByteCount exceeds MAX_SAFE''), st1)
         | Some c \<Rightarrow>
            (case push_chunk on_chunk chunk_size c st1 of
               (Inl f, st2) \<Rightarrow> (Inl f, st2)
             | (Inr False, st2) \<Rightarrow> (Inr False, st2)
             | (Inr True, st2) \<Rightarrow>
                (if ent_is_dir e \<and> \<not> ent_is_symlink e
                 then case scan_child K (descend rel) True h (ent_name e) st2 of
                    (Inl f, st3) \<Rightarrow> (Inl f, st3)
                  | (Inr False, st3) \<Rightarrow> (Inr False, st3)
                  | (Inr True, st3) \<Rightarrow> stream_entries K on_chunk chunk_size descend target h prefx es st3
                 else stream_entries K on_chunk chunk_size descend target h prefx es st2))))"

primrec scan_safe_recursive_streaming ::
  "nat \<Rightarrow> ('h, 'w) Kernel \<Rightarrow> 'c chunk_fn \<Rightarrow> nat \<Rightarrow> TargetDescriptor \<Rightarrow> RelativePath \<Rightarrow> 'h SafeDirHandle
    \<Rightarrow> ('h, 'w, 'c) StreamState \<Rightarrow> (bool, Failure) result \<times> ('h, 'w, 'c) StreamState" where
  "scan_safe_recursive_streaming 0 K on_chunk chunk_size target prefx h st = (Inr True, st)"
| "scan_safe_recursive_streaming (Suc n) K on_chunk chunk_size target prefx h st =
    (case read_entries_fd K h (sc_proc st) of
       (Inl _, p) \<Rightarrow> (Inr True, st\<lparr>sc_proc := p\<rparr>)
     | (Inr es, p) \<Rightarrow>
         stream_entries K on_chunk chunk_size
           (\<lambda>rel child st'. scan_safe_recursive_streaming n K on_chunk chunk_size target rel child st')
           target h prefx es (st\<lparr>sc_proc := p\<rparr>))"

definition scan_target_streaming ::
  "('h, 'w) Kernel \<Rightarrow> TargetDescriptor \<Rightarrow> nat \<Rightarrow> 'c chunk_fn \<Rightarrow> FdWake list list \<Rightarrow> u64 \<Rightarrow> ('h, 'w) Proc
    \<Rightarrow> ResourceManager \<Rightarrow> 'c \<Rightarrow> (unit, Failure) result \<times> ('h, 'w, 'c) StreamState" where
  "scan_target_streaming K target chunk_size on_chunk wakes counter p rm c =
    (let st0 = \<lparr> sc_proc = p, sc_rm = rm, sc_wakes = wakes, sc_counter = counter, sc_candidates = [],
                 sc_errors = [], sc_hit = False, ss_caller = c \<rparr> in
     case scan_permit st0 of (ok, st1) \<Rightarrow>
     case open_root_with_permit K (td_base_path target) ok (sc_proc st1) of
       (Inl _, p1) \<Rightarrow> (Inr (), st1\<lparr>sc_proc := p1, sc_rm := drop_permit ok (sc_rm st1)\<rparr>)
     | (Inr h, p1) \<Rightarrow>
         (case scan_safe_recursive_streaming MAX_SCAN_DEPTH K on_chunk chunk_size target (RelativePath []) h
                 (st1\<lparr>sc_proc := p1\<rparr>) of
            (Inl f, st2) \<Rightarrow> (Inl f, st2\<lparr>sc_rm := drop_handle h (sc_rm st2)\<rparr>)
          | (Inr _, st2) \<Rightarrow>
              if sc_candidates st2 = [] then (Inr (), st2\<lparr>sc_rm := drop_handle h (sc_rm st2)\<rparr>)
              else (case on_chunk (sc_candidates st2) (ss_caller st2) of
                 (x, c') \<Rightarrow> (map_sum id (\<lambda>_. ()) x,
                   st2\<lparr>sc_rm := drop_handle h (sc_rm st2), ss_caller := c'\<rparr>))))"

section \<open>What a scan returns\<close>

definition candidate_ok :: "TargetDescriptor \<Rightarrow> Candidate \<Rightarrow> bool" where
  "candidate_ok target c \<longleftrightarrow> cand_target_id c = td_target_id target \<and> rel_wf (rp_str (cand_rel_path c)) \<and>
    cand_size_bytes c \<le> ByteCount_MAX_SAFE \<and>
    (if cand_is_dir c then cand_size_bytes c = 0 \<and> \<not> cand_is_symlink c else True)"

lemma entry_candidate_ok:
  "entry_candidate target cid rel e = Some c \<Longrightarrow> rel_wf (rp_str rel) \<Longrightarrow>
    candidate_ok target c \<and> cand_id c = cid"
  by (auto simp: entry_candidate_def candidate_ok_def ByteCount_new_def split: if_splits)

text \<open>The invariant of the accumulators, for a scan that started with counter \<open>c0\<close>.\<close>

definition scan_inv :: "TargetDescriptor \<Rightarrow> u64 \<Rightarrow> ('h, 'w) ScanState \<Rightarrow> bool" where
  "scan_inv target c0 st \<longleftrightarrow> list_all (candidate_ok target) (sc_candidates st) \<and>
    length (sc_candidates st) \<le> MAX_CANDIDATES_PER_TARGET \<and>
    map cand_id (sc_candidates st) = map (\<lambda>i. CandidateId (c0 + of_nat i)) [0..<length (sc_candidates st)]"

text \<open>With the counter in step; a panic leaves it one ahead.\<close>

definition counter_inv :: "u64 \<Rightarrow> ('h, 'w) ScanState \<Rightarrow> bool" where
  "counter_inv c0 st \<longleftrightarrow> sc_counter st = c0 + of_nat (length (sc_candidates st))"

definition scan_step ::
  "TargetDescriptor \<Rightarrow> u64 \<Rightarrow> (unit, Failure) result \<times> ('h, 'w) ScanState \<Rightarrow> ('h, 'w) ScanState \<Rightarrow> bool" where
  "scan_step target c0 r st \<longleftrightarrow> scan_inv target c0 (snd r) \<and> read_only (sc_proc st) (sc_proc (snd r)) \<and>
    (case fst r of Inr _ \<Rightarrow> counter_inv c0 (snd r) | Inl f \<Rightarrow> \<exists>m. f = Panic m)"

lemma read_entries_loop_read_only:
  "read_entries_loop K h acc es p = (x, p') \<Longrightarrow> read_only p p'"
proof (induction K h acc es p rule: read_entries_loop.induct)
  case (3 K h acc name ft es p)
  have stat: "read_only p (snd (sys_statat K (sh_fd h) name p))"
    by (simp add: sys_statat_def read_only_log split: prod.splits)
  show ?case
    using 3 stat read_only_trans
    by (auto split: if_splits prod.splits sum.splits)
qed auto

lemma read_entries_read_only: "read_entries_fd K h p = (x, p') \<Longrightarrow> read_only p p'"
proof -
  assume run: "read_entries_fd K h p = (x, p')"
  obtain es p1 where d: "sys_getdents K (sh_fd h) p = (es, p1)" by fastforce
  have "read_only p p1"
    using d by (auto simp: sys_getdents_def read_only_log split: prod.splits)
  then show ?thesis
    using run d read_entries_loop_read_only read_only_trans by (fastforce simp: read_entries_fd_def)
qed

lemma open_child_read_only: "open_child_dir_with_permit K h name b p = (x, p') \<Longrightarrow> read_only p p'"
proof -
  assume run: "open_child_dir_with_permit K h name b p = (x, p')"
  obtain y q where o: "open_child_dir_errno K h name p = (y, q)" by fastforce
  then have "p' = q" using run by (auto simp: open_child_dir_with_permit_def split: sum.splits)
  then show ?thesis using open_child_dir_calls [OF o] by (simp add: read_only_def)
qed

lemma scan_permit_fields:
  "scan_permit st = (ok, st') \<Longrightarrow> sc_proc st' = sc_proc st \<and> sc_counter st' = sc_counter st \<and>
    sc_candidates st' = sc_candidates st \<and> sc_errors st' = sc_errors st \<and> sc_hit st' = sc_hit st"
  by (auto simp: scan_permit_def split: prod.splits)

lemma scan_inv_frame [simp]:
  "scan_inv target c0 (st\<lparr>sc_proc := p\<rparr>) = scan_inv target c0 st"
  "scan_inv target c0 (st\<lparr>sc_rm := rm\<rparr>) = scan_inv target c0 st"
  "scan_inv target c0 (st\<lparr>sc_hit := b\<rparr>) = scan_inv target c0 st"
  "scan_inv target c0 (st\<lparr>sc_errors := es\<rparr>) = scan_inv target c0 st"
  "scan_inv target c0 (st\<lparr>sc_counter := n\<rparr>) = scan_inv target c0 st"
  "counter_inv c0 (st\<lparr>sc_proc := p\<rparr>) = counter_inv c0 st"
  "counter_inv c0 (st\<lparr>sc_rm := rm\<rparr>) = counter_inv c0 st"
  "counter_inv c0 (st\<lparr>sc_hit := b\<rparr>) = counter_inv c0 st"
  "counter_inv c0 (st\<lparr>sc_errors := es\<rparr>) = counter_inv c0 st"
  by (simp_all add: scan_inv_def counter_inv_def)

lemma scan_step_trans:
  "scan_step target c0 (Inr u, st1) st \<Longrightarrow> scan_step target c0 r st1 \<Longrightarrow> scan_step target c0 r st"
  using read_only_trans by (fastforce simp: scan_step_def)

lemma scan_child_step:
  assumes descend: "\<And>child st'. scan_inv target c0 st' \<Longrightarrow> counter_inv c0 st' \<Longrightarrow> scan_step target c0 (descend child st') st'"
    and inv: "scan_inv target c0 st" "counter_inv c0 st"
  shows "scan_step target c0 (scan_child K descend () h name st) st"
proof -
  obtain ok st1 where permit: "scan_permit st = (ok, st1)" by fastforce
  note F = scan_permit_fields [OF permit]
  have inv1: "scan_inv target c0 st1" "counter_inv c0 st1"
    using inv F by (simp_all add: scan_inv_def counter_inv_def)
  obtain x p where opn: "open_child_dir_with_permit K h name True (sc_proc st1) = (x, p)" by fastforce
  have ro: "read_only (sc_proc st) p" using open_child_read_only [OF opn] F by simp
  show ?thesis
  proof (cases "ok \<and> (\<exists>child. x = Inr child)")
    case False
    then show ?thesis
      using permit opn inv1 ro F by (cases ok; cases x) (auto simp: scan_child_def scan_step_def)
  next
    case True
    then obtain child where x: "ok" "x = Inr child" by blast
    obtain y st2 where sub: "descend child (st1\<lparr>sc_proc := p\<rparr>) = (y, st2)" by fastforce
    have "scan_step target c0 (y, st2) (st1\<lparr>sc_proc := p\<rparr>)"
      using descend [of "st1\<lparr>sc_proc := p\<rparr>" child] inv1 sub by simp
    then show ?thesis
      using permit opn x sub ro read_only_trans [OF ro] by (auto simp: scan_child_def scan_step_def split: sum.splits)
  qed
qed

lemma scan_push:
  assumes "scan_inv target c0 st" "counter_inv c0 st" "length (sc_candidates st) < MAX_CANDIDATES_PER_TARGET"
    "next_candidate_id st = (cid, st1)" "entry_candidate target cid rel e = Some c" "rel_wf (rp_str rel)"
  shows "scan_inv target c0 (st1\<lparr>sc_candidates := sc_candidates st1 @ [c]\<rparr>) \<and>
    counter_inv c0 (st1\<lparr>sc_candidates := sc_candidates st1 @ [c]\<rparr>) \<and> sc_proc st1 = sc_proc st"
proof -
  have c: "candidate_ok target c" "cand_id c = cid" using entry_candidate_ok [OF assms(5,6)] by simp_all
  have "cid = CandidateId (c0 + of_nat (length (sc_candidates st)))" "sc_candidates st1 = sc_candidates st"
    "sc_counter st1 = sc_counter st + 1" "sc_proc st1 = sc_proc st"
    using assms(2,4) by (auto simp: next_candidate_id_def counter_inv_def)
  then show ?thesis
    using assms(1-3) c by (simp add: scan_inv_def counter_inv_def add.assoc)
qed

lemma scan_entries_step:
  assumes descend: "\<And>rel child st'. rel_wf (rp_str rel) \<Longrightarrow> scan_inv target c0 st' \<Longrightarrow> counter_inv c0 st' \<Longrightarrow>
      scan_step target c0 (descend rel child st') st'"
    and wf: "rel_wf (rp_str prefx)"
  shows "scan_inv target c0 st \<Longrightarrow> counter_inv c0 st \<Longrightarrow>
    scan_step target c0 (scan_entries K descend target h prefx es st) st"
proof (induction es arbitrary: st)
  case Nil
  then show ?case by (simp add: scan_step_def)
next
  case (Cons e es)
  show ?case
  proof (cases "length (sc_candidates st) \<ge> MAX_CANDIDATES_PER_TARGET")
    case True
    then show ?thesis using Cons.prems by (simp add: scan_step_def)
  next
    case small: False
    show ?thesis
    proof (cases "RelativePath_join prefx (ent_name e)")
      case None
      then show ?thesis using small Cons by simp
    next
      case (Some rel)
      have rel: "rel_wf (rp_str rel)" using RelativePath_join_wf [OF wf Some] by simp
      obtain cid st1 where nxt: "next_candidate_id st = (cid, st1)" by fastforce
      have st1: "sc_proc st1 = sc_proc st" "scan_inv target c0 st1"
        using nxt Cons.prems by (auto simp: next_candidate_id_def)
      show ?thesis
      proof (cases "entry_candidate target cid rel e")
        case None
        then show ?thesis using small Some nxt st1 by (simp add: scan_step_def)
      next
        case c: (Some c)
        let ?st2 = "st1\<lparr>sc_candidates := sc_candidates st1 @ [c]\<rparr>"
        have inv2: "scan_inv target c0 ?st2" "counter_inv c0 ?st2" "sc_proc ?st2 = sc_proc st"
          using scan_push [OF Cons.prems _ nxt c rel] small by simp_all
        show ?thesis
        proof (cases "ent_is_dir e \<and> \<not> ent_is_symlink e")
          case False
          then have "scan_entries K descend target h prefx (e # es) st = scan_entries K descend target h prefx es ?st2"
            using small Some nxt c by auto
          then show ?thesis using Cons.IH [OF inv2(1,2)] inv2(3) by (simp add: scan_step_def)
        next
          case dir: True
          obtain x st3 where sub: "scan_child K (descend rel) () h (ent_name e) ?st2 = (x, st3)" by fastforce
          have step: "scan_step target c0 (x, st3) ?st2"
            using scan_child_step [of target c0 "descend rel" ?st2 K h "ent_name e"] descend [OF rel] inv2 sub by simp
          show ?thesis
          proof (cases x)
            case (Inl f)
            then show ?thesis using small Some nxt c dir sub step inv2(3) by (simp add: scan_step_def)
          next
            case (Inr u)
            then have run: "scan_entries K descend target h prefx (e # es) st = scan_entries K descend target h prefx es st3"
              using small Some nxt c dir sub by simp
            have "scan_step target c0 (scan_entries K descend target h prefx es st3) st3"
              using Cons.IH [of st3] step Inr by (simp add: scan_step_def)
            from scan_step_trans [OF step [unfolded Inr] this] show ?thesis
              unfolding run using inv2(3) by (simp add: scan_step_def)
          qed
        qed
      qed
    qed
  qed
qed

lemma scan_safe_recursive_step:
  "rel_wf (rp_str prefx) \<Longrightarrow> scan_inv target c0 st \<Longrightarrow> counter_inv c0 st \<Longrightarrow>
    scan_step target c0 (scan_safe_recursive n K target prefx h st) st"
proof (induction n arbitrary: prefx h st)
  case 0
  then show ?case by (simp add: scan_step_def)
next
  case (Suc n)
  obtain x p where rd: "read_entries_fd K h (sc_proc st) = (x, p)" by fastforce
  note ro = read_entries_read_only [OF rd]
  show ?case
  proof (cases x)
    case (Inl f)
    then show ?thesis using Suc.prems rd ro by (simp add: scan_step_def)
  next
    case (Inr es)
    have "scan_step target c0 (scan_entries K (\<lambda>rel child st'. scan_safe_recursive n K target rel child st')
        target h prefx es (st\<lparr>sc_proc := p\<rparr>)) (st\<lparr>sc_proc := p\<rparr>)"
      using Suc.prems by (intro scan_entries_step Suc.IH) simp_all
    moreover have "scan_step target c0 (Inr (), st\<lparr>sc_proc := p\<rparr>) st"
      using Suc.prems ro by (simp add: scan_step_def)
    moreover have "scan_safe_recursive (Suc n) K target prefx h st =
        (if length (sc_candidates st) \<ge> MAX_CANDIDATES_PER_TARGET then (Inr (), st\<lparr>sc_hit := True\<rparr>)
         else scan_entries K (\<lambda>rel child st'. scan_safe_recursive n K target rel child st')
           target h prefx es (st\<lparr>sc_proc := p\<rparr>))"
      by (simp add: rd Inr)
    moreover have "scan_step target c0 (Inr (), st\<lparr>sc_hit := True\<rparr>) st"
      using Suc.prems by (simp add: scan_step_def)
    ultimately show ?thesis using scan_step_trans by metis
  qed
qed

section \<open>Delivering gives what collecting gives\<close>

text \<open>A caller that keeps every chunk.\<close>

definition keep_chunk :: "Candidate list list chunk_fn" where
  "keep_chunk chunk cs = (Inr True, cs @ [chunk])"

definition same_scan :: "('h, 'w) ScanState \<Rightarrow> ('h, 'w, Candidate list list) StreamState \<Rightarrow> bool" where
  "same_scan st ss \<longleftrightarrow> sc_proc ss = sc_proc st \<and> sc_rm ss = sc_rm st \<and> sc_wakes ss = sc_wakes st \<and>
    sc_counter ss = sc_counter st \<and> concat (ss_caller ss) @ sc_candidates ss = sc_candidates st"

definition same_run ::
  "(unit, Failure) result \<times> ('h, 'w) ScanState \<Rightarrow> (bool, Failure) result \<times> ('h, 'w, Candidate list list) StreamState
    \<Rightarrow> bool" where
  "same_run r q \<longleftrightarrow> fst q = map_sum id (\<lambda>_. True) (fst r) \<and> same_scan (snd r) (snd q)"

lemma same_scan_updates:
  "same_scan st ss \<Longrightarrow> same_scan (st\<lparr>sc_proc := p\<rparr>) (ss\<lparr>sc_proc := p\<rparr>)"
  "same_scan st ss \<Longrightarrow> same_scan (st\<lparr>sc_rm := rm\<rparr>) (ss\<lparr>sc_rm := rm\<rparr>)"
  "same_scan st ss \<Longrightarrow> same_scan (st\<lparr>sc_errors := es\<rparr>) ss"
  "same_scan st ss \<Longrightarrow> same_scan (snd (next_candidate_id st)) (snd (next_candidate_id ss))"
  "same_scan st ss \<Longrightarrow> fst (next_candidate_id ss) = fst (next_candidate_id st)"
  by (simp_all add: same_scan_def next_candidate_id_def)

lemma same_scan_permit:
  "same_scan st ss \<Longrightarrow> fst (scan_permit ss) = fst (scan_permit st) \<and> same_scan (snd (scan_permit st)) (snd (scan_permit ss))"
  by (auto simp: same_scan_def scan_permit_def split: prod.splits)

lemma same_scan_push:
  assumes "same_scan st ss"
  shows "fst (push_chunk keep_chunk k c ss) = Inr True \<and>
    same_scan (st\<lparr>sc_candidates := sc_candidates st @ [c]\<rparr>) (snd (push_chunk keep_chunk k c ss))"
proof -
  have "sc_candidates st @ [c] = concat (ss_caller ss) @ sc_candidates ss @ [c]"
    using assms by (simp add: same_scan_def)
  then show ?thesis
    using assms by (simp add: push_chunk_def keep_chunk_def same_scan_def Let_def)
qed

lemma scan_child_hit:
  assumes "\<And>child st'. sc_hit st' \<Longrightarrow> sc_hit (snd (descend child st'))" "sc_hit st"
  shows "sc_hit (snd (scan_child K descend r h name st))"
proof -
  obtain ok st1 where permit: "scan_permit st = (ok, st1)" by fastforce
  have hit: "sc_hit st1" using scan_permit_fields [OF permit] assms(2) by simp
  obtain x p where opn: "open_child_dir_with_permit K h name True (sc_proc st1) = (x, p)" by fastforce
  have "sc_hit (snd (descend child (st1\<lparr>sc_proc := p\<rparr>)))" for child by (rule assms(1)) (simp add: hit)
  then show ?thesis using permit opn hit by (cases x) (simp_all add: scan_child_def case_prod_unfold)
qed

text \<open>The ways one entry is handled.\<close>

lemma scan_entries_Cons_cases:
  obtains (full) "length (sc_candidates st) \<ge> MAX_CANDIDATES_PER_TARGET"
      "scan_entries K descend target h prefx (e # es) st = (Inr (), st\<lparr>sc_hit := True\<rparr>)"
    | (skip) "RelativePath_join prefx (ent_name e) = None"
      "scan_entries K descend target h prefx (e # es) st = scan_entries K descend target h prefx es st"
    | (panic) rel where "RelativePath_join prefx (ent_name e) = Some rel"
      "entry_candidate target (fst (next_candidate_id st)) rel e = None"
      "scan_entries K descend target h prefx (e # es) st = (Inl (Panic ''ByteCount exceeds MAX_SAFE''), snd (next_candidate_id st))"
    | (leaf) rel c st2 where "RelativePath_join prefx (ent_name e) = Some rel"
      "entry_candidate target (fst (next_candidate_id st)) rel e = Some c" "\<not> (ent_is_dir e \<and> \<not> ent_is_symlink e)"
      "st2 = (snd (next_candidate_id st))\<lparr>sc_candidates := sc_candidates st @ [c]\<rparr>"
      "scan_entries K descend target h prefx (e # es) st = scan_entries K descend target h prefx es st2"
    | (dir) rel c st2 x st3 where "RelativePath_join prefx (ent_name e) = Some rel"
      "entry_candidate target (fst (next_candidate_id st)) rel e = Some c" "ent_is_dir e \<and> \<not> ent_is_symlink e"
      "st2 = (snd (next_candidate_id st))\<lparr>sc_candidates := sc_candidates st @ [c]\<rparr>"
      "scan_child K (descend rel) () h (ent_name e) st2 = (x, st3)"
      "scan_entries K descend target h prefx (e # es) st = (case x of Inl f \<Rightarrow> (Inl f, st3)
        | Inr _ \<Rightarrow> scan_entries K descend target h prefx es st3)"
proof (cases "length (sc_candidates st) \<ge> MAX_CANDIDATES_PER_TARGET")
  case True
  then show thesis using full by simp
next
  case small: False
  have cands: "sc_candidates (snd (next_candidate_id st)) = sc_candidates st" by (simp add: next_candidate_id_def)
  show thesis
  proof (cases "RelativePath_join prefx (ent_name e)")
    case None
    then show thesis using skip small by simp
  next
    case (Some rel)
    show thesis
    proof (cases "entry_candidate target (fst (next_candidate_id st)) rel e")
      case None
      then show thesis using panic [OF Some] small Some by (simp add: case_prod_unfold)
    next
      case c: (Some c)
      define st2 where "st2 = (snd (next_candidate_id st))\<lparr>sc_candidates := sc_candidates st @ [c]\<rparr>"
      obtain x st3 where sub: "scan_child K (descend rel) () h (ent_name e) st2 = (x, st3)" by fastforce
      show thesis
      proof (cases "ent_is_dir e \<and> \<not> ent_is_symlink e")
        case True
        then show thesis
          using dir [OF Some c True st2_def sub] small Some c sub cands
          by (cases x; cases "next_candidate_id st") (simp_all add: st2_def Let_def)
      next
        case False
        then show thesis
          using leaf [OF Some c False st2_def] small Some c cands
          by (cases "next_candidate_id st") (auto simp add: st2_def Let_def)
      qed
    qed
  qed
qed

lemma scan_entries_hit:
  assumes "\<And>rel child st'. sc_hit st' \<Longrightarrow> sc_hit (snd (descend rel child st'))"
  shows "sc_hit st \<Longrightarrow> sc_hit (snd (scan_entries K descend target h prefx es st))"
proof (induction es arbitrary: st)
  case (Cons e es)
  have nxt: "sc_hit (snd (next_candidate_id st))" using Cons.prems by (simp add: next_candidate_id_def)
  show ?case
  proof (cases rule: scan_entries_Cons_cases [of st K descend target h prefx e es])
    case (dir rel c st2 x st3)
    then have "sc_hit st3"
      using scan_child_hit [of "descend rel" st2 K "()" h "ent_name e"] assms nxt by simp
    then show ?thesis using dir Cons.IH by (cases x) simp_all
  qed (use Cons nxt in simp_all)
qed simp

lemma scan_safe_recursive_hit: "sc_hit st \<Longrightarrow> sc_hit (snd (scan_safe_recursive n K target prefx h st))"
proof (induction n arbitrary: prefx h st)
  case (Suc n)
  obtain x p where rd: "read_entries_fd K h (sc_proc st) = (x, p)" by fastforce
  have "sc_hit (snd (scan_entries K (\<lambda>rel child st'. scan_safe_recursive n K target rel child st') target h prefx es
      (st\<lparr>sc_proc := p\<rparr>)))" for es
    using Suc by (intro scan_entries_hit) simp_all
  then show ?case using Suc.prems rd by (cases x) simp_all
qed simp

text \<open>Both walks make the same steps while the limit is not reached.\<close>

lemma scan_child_same:
  assumes descend: "\<And>child st' ss'. same_scan st' ss' \<Longrightarrow> \<not> sc_hit (snd (d child st')) \<Longrightarrow> same_run (d child st') (d' child ss')"
    and same: "same_scan st ss" and hit: "\<not> sc_hit (snd (scan_child K d () h name st))"
  shows "same_run (scan_child K d () h name st) (scan_child K d' True h name ss)"
proof -
  obtain ok st1 where permit: "scan_permit st = (ok, st1)" by fastforce
  obtain ss1 where permit': "scan_permit ss = (ok, ss1)" and same1: "same_scan st1 ss1"
    using same_scan_permit [OF same] permit by (cases "scan_permit ss") auto
  have proc: "sc_proc ss1 = sc_proc st1" "sc_rm ss1 = sc_rm st1" using same1 by (simp_all add: same_scan_def)
  obtain x p where opn: "open_child_dir_with_permit K h name True (sc_proc st1) = (x, p)" by fastforce
  show ?thesis
  proof (cases "ok \<and> (\<exists>child. x = Inr child)")
    case False
    then show ?thesis
      using permit permit' opn proc same1
      by (cases ok; cases x) (simp_all add: scan_child_def same_run_def same_scan_def)
  next
    case True
    then obtain child where x: "ok" "x = Inr child" by blast
    obtain y st2 where sub: "d child (st1\<lparr>sc_proc := p\<rparr>) = (y, st2)" by fastforce
    obtain y' ss2 where sub': "d' child (ss1\<lparr>sc_proc := p\<rparr>) = (y', ss2)" by fastforce
    have "\<not> sc_hit st2" using hit permit opn x sub by (simp add: scan_child_def)
    then have "same_run (y, st2) (y', ss2)"
      using descend [OF same_scan_updates(1) [OF same1], of child p] sub sub' by simp
    then show ?thesis
      using permit permit' opn x sub sub' proc
      by (simp add: scan_child_def same_run_def same_scan_def)
  qed
qed

lemma stream_entries_leaf:
  assumes "RelativePath_join prefx (ent_name e) = Some rel"
    "entry_candidate target (fst (next_candidate_id ss)) rel e = Some c"
    "push_chunk oc k c (snd (next_candidate_id ss)) = (Inr True, ss2)"
  shows "stream_entries K oc k d target h prefx (e # es) ss =
    (if ent_is_dir e \<and> \<not> ent_is_symlink e
     then case scan_child K (d rel) True h (ent_name e) ss2 of
        (Inl f, ss3) \<Rightarrow> (Inl f, ss3)
      | (Inr b, ss3) \<Rightarrow> if b then stream_entries K oc k d target h prefx es ss3 else (Inr False, ss3)
     else stream_entries K oc k d target h prefx es ss2)"
  using assms by (cases "next_candidate_id ss") (auto split: prod.splits sum.splits bool.splits)

lemma scan_entries_same:
  assumes descend: "\<And>rel child st' ss'. same_scan st' ss' \<Longrightarrow> \<not> sc_hit (snd (d rel child st')) \<Longrightarrow>
      same_run (d rel child st') (d' rel child ss')"
    and mono: "\<And>rel child st'. sc_hit st' \<Longrightarrow> sc_hit (snd (d rel child st'))"
  shows "same_scan st ss \<Longrightarrow> \<not> sc_hit (snd (scan_entries K d target h prefx es st)) \<Longrightarrow>
    same_run (scan_entries K d target h prefx es st) (stream_entries K keep_chunk k d' target h prefx es ss)"
proof (induction es arbitrary: st ss)
  case Nil
  then show ?case by (simp add: same_run_def)
next
  case (Cons e es)
  note nxt = same_scan_updates(4,5) [OF Cons.prems(1)]
  show ?case
  proof (cases rule: scan_entries_Cons_cases [of st K d target h prefx e es])
    case full
    then show ?thesis using Cons.prems(2) by simp
  next
    case skip
    then show ?thesis using Cons.IH [OF Cons.prems(1)] Cons.prems(2) by simp
  next
    case (panic rel)
    then show ?thesis using nxt by (cases "next_candidate_id ss") (simp add: same_run_def)
  next
    case (leaf rel c st2)
    obtain x ss2 where push: "push_chunk keep_chunk k c (snd (next_candidate_id ss)) = (x, ss2)" by fastforce
    have "x = Inr True" "same_scan st2 ss2"
      using same_scan_push [OF nxt(1), of k c] push leaf(4) by (simp_all add: next_candidate_id_def)
    moreover have "\<not> sc_hit (snd (scan_entries K d target h prefx es st2))" using leaf(5) Cons.prems(2) by simp
    ultimately show ?thesis
      using Cons.IH [of st2 ss2] leaf nxt(2) stream_entries_leaf [OF leaf(1), of target ss c keep_chunk k ss2 K d' h es] push
      by auto
  next
    case (dir rel c st2 x st3)
    obtain z ss2 where push: "push_chunk keep_chunk k c (snd (next_candidate_id ss)) = (z, ss2)" by fastforce
    have z: "z = Inr True" and same2: "same_scan st2 ss2"
      using same_scan_push [OF nxt(1), of k c] push dir(4) by (simp_all add: next_candidate_id_def)
    obtain y ss3 where sub: "scan_child K (d' rel) True h (ent_name e) ss2 = (y, ss3)" by fastforce
    have hit3: "\<not> sc_hit st3"
      using dir(6) Cons.prems(2) scan_entries_hit [of d st3 K target h prefx es] mono by (cases x) auto
    have child: "same_run (x, st3) (y, ss3)"
      using scan_child_same [of "d rel" "d' rel" st2 ss2 K h "ent_name e"] descend same2 hit3 dir(5) sub by simp
    have stream: "stream_entries K keep_chunk k d' target h prefx (e # es) ss =
        (case y of Inl f \<Rightarrow> (Inl f, ss3)
         | Inr b \<Rightarrow> if b then stream_entries K keep_chunk k d' target h prefx es ss3 else (Inr False, ss3))"
      using stream_entries_leaf [OF dir(1), of target ss c keep_chunk k ss2 K d' h es] dir(2,3) nxt(2) push z sub by simp
    show ?thesis
    proof (cases x)
      case (Inl f)
      then show ?thesis using dir(6) stream child by (simp add: same_run_def)
    next
      case (Inr u)
      then have "y = Inr True" "same_scan st3 ss3" using child by (simp_all add: same_run_def)
      then show ?thesis using Cons.IH [of st3 ss3] Cons.prems(2) dir(6) stream Inr by simp
    qed
  qed
qed

lemma scan_safe_recursive_same:
  "same_scan st ss \<Longrightarrow> \<not> sc_hit (snd (scan_safe_recursive n K target prefx h st)) \<Longrightarrow>
    same_run (scan_safe_recursive n K target prefx h st)
      (scan_safe_recursive_streaming n K keep_chunk k target prefx h ss)"
proof (induction n arbitrary: prefx h st ss)
  case 0
  then show ?case by (simp add: same_run_def)
next
  case (Suc n)
  obtain x p where rd: "read_entries_fd K h (sc_proc st) = (x, p)" by fastforce
  have rd': "read_entries_fd K h (sc_proc ss) = (x, p)" using rd Suc.prems(1) by (simp add: same_scan_def)
  have small: "\<not> length (sc_candidates st) \<ge> MAX_CANDIDATES_PER_TARGET" using Suc.prems(2) by auto
  show ?case
  proof (cases x)
    case (Inl f)
    then show ?thesis
      using small rd rd' Suc.prems(1) by (simp add: same_run_def same_scan_def)
  next
    case (Inr es)
    have "\<not> sc_hit (snd (scan_entries K (\<lambda>rel child st'. scan_safe_recursive n K target rel child st') target h prefx es
        (st\<lparr>sc_proc := p\<rparr>)))"
      using Suc.prems(2) small rd Inr by simp
    then have "same_run (scan_entries K (\<lambda>rel child st'. scan_safe_recursive n K target rel child st') target h prefx es
        (st\<lparr>sc_proc := p\<rparr>)) (stream_entries K keep_chunk k
          (\<lambda>rel child st'. scan_safe_recursive_streaming n K keep_chunk k target rel child st')
          target h prefx es (ss\<lparr>sc_proc := p\<rparr>))"
      using Suc.IH Suc.prems(1) by (intro scan_entries_same) (simp_all add: same_scan_updates scan_safe_recursive_hit)
    then show ?thesis using small rd rd' Inr by simp
  qed
qed

lemma scan_target_spec:
  "case scan_target_with_resource K base_exists target wakes c0 p rm of (x, st') \<Rightarrow>
     (\<exists>evs. extends p (sc_proc st') evs \<and> no_unlink evs) \<and>
     (case x of
        Inl f \<Rightarrow> \<exists>m. f = Panic m
      | Inr r \<Rightarrow> list_all (candidate_ok target) (scr_candidates r) \<and> length (scr_candidates r) \<le> 50000 \<and>
          distinct (map cand_id (scr_candidates r)))"
proof -
  define st0 where "st0 = \<lparr> sc_proc = p, sc_rm = rm, sc_wakes = wakes, sc_counter = c0, sc_candidates = [],
      sc_errors = [], sc_hit = False \<rparr>"
  obtain ok st1 where permit: "scan_permit st0 = (ok, st1)" by fastforce
  have st1: "sc_proc st1 = p" "sc_candidates st1 = []" "sc_counter st1 = c0"
    using scan_permit_fields [OF permit] by (simp_all add: st0_def)
  obtain x p1 where opn: "open_root_with_permit K (td_base_path target) ok (sc_proc st1) = (x, p1)" by fastforce
  have ro: "read_only p p1" using open_root_calls [OF opn] st1 by (simp add: read_only_def)
  show ?thesis
  proof (cases x)
    case (Inl e)
    then show ?thesis
      using permit opn ro by (simp add: scan_target_with_resource_def st0_def [symmetric] Let_def read_only_def)
  next
    case (Inr h)
    obtain y st2 where scan: "scan_safe_recursive MAX_SCAN_DEPTH K target (RelativePath []) h (st1\<lparr>sc_proc := p1\<rparr>) = (y, st2)"
      by fastforce
    have "scan_step target c0 (y, st2) (st1\<lparr>sc_proc := p1\<rparr>)"
      using scan_safe_recursive_step [of "RelativePath []" target c0 "st1\<lparr>sc_proc := p1\<rparr>" MAX_SCAN_DEPTH K h] scan st1
      by (simp add: scan_inv_def counter_inv_def)
    then have inv: "scan_inv target c0 st2" "read_only p1 (sc_proc st2)" "\<And>f. y = Inl f \<Longrightarrow> \<exists>m. f = Panic m"
      by (auto simp: scan_step_def)
    have len: "length (sc_candidates st2) \<le> 50000"
      using inv(1) by (simp add: scan_inv_def MAX_CANDIDATES_PER_TARGET_def)
    have "distinct (map (\<lambda>i. CandidateId (c0 + of_nat i)) [0..<length (sc_candidates st2)])"
    proof -
      have "i = j" if "i < length (sc_candidates st2)" "j < length (sc_candidates st2)" "(of_nat i :: u64) = of_nat j" for i j
        using that len by (simp add: word_of_nat_eq_iff take_bit_nat_eq_self)
      then show ?thesis by (auto simp: distinct_map inj_on_def)
    qed
    then have "distinct (map cand_id (sc_candidates st2))" using inv(1) by (simp add: scan_inv_def)
    then show ?thesis
      using permit opn Inr scan inv len read_only_trans [OF ro inv(2)]
      by (auto simp: scan_target_with_resource_def st0_def [symmetric] Let_def read_only_def scan_inv_def split: sum.splits)
  qed
qed

section \<open>Properties\<close>

text \<open>C14.  A scan changes nothing on disk; it ends with at most 50000 candidates, all of the scanned target, with
  well-formed relative paths, sizes within the byte-count bound and pairwise different ids; or it panics.\<close>

theorem scan_target_sound:
  "case scan_target_with_resource K base_exists target wakes c0 p rm of (x, st') \<Rightarrow>
     (\<exists>evs. extends p (sc_proc st') evs \<and> no_unlink evs) \<and>
     (case x of
        Inl f \<Rightarrow> \<exists>m. f = Panic m
      | Inr r \<Rightarrow> list_all (candidate_ok target) (scr_candidates r) \<and> length (scr_candidates r) \<le> 50000 \<and>
          distinct (map cand_id (scr_candidates r)))"
  by (rule scan_target_spec)

lemma example_join: "RelativePath_join (RelativePath []) ''f'' = Some (RelativePath ''f'')"
  "RelativePath_join (RelativePath []) ''g'' = Some (RelativePath ''g'')"
  by (simp_all add: RelativePath_join_def RelativePath_parse_def path_eval has_control_def path_push_def byte_of_def)

lemma example_scan:
  "\<exists>r st'. scan_target_with_resource one_dir_kernel True (example_target ''/data/data/com.example/cache'') [] 1
     \<lparr> world = [(''f'', 21), (''g'', 22)], openat2_supported = True, sys_log = [] \<rparr>
     (ResourceManager_new 0 4 TNormal) = (Inr r, st') \<and> \<not> sc_hit st' \<and> length (scr_candidates r) = 2"
proof -
  have depth: "MAX_SCAN_DEPTH = Suc 15" by (simp add: MAX_SCAN_DEPTH_def)
  show ?thesis
    by (simp add: scan_safe_recursive.simps(2) [of 15, folded depth] scan_target_with_resource_def scan_permit_def fd_permit_ok_def acquire_fd_permit_timeout_def
        fd_wait_free ResourceManager_new_def open_root_with_permit_def sys_open_def sys_fstat_def one_dir_kernel_def
        log_event_def read_entries_fd_def sys_getdents_def sys_statat_def example_join byte_of_def
        MAX_CANDIDATES_PER_TARGET_def next_candidate_id_def entry_candidate_def safe_entry_def
        ByteCount_new_def ByteCount_MAX_SAFE_def Let_def)
qed

text \<open>C15.  Streaming is equivalent to collecting: while the limit of 50000 is not reached, a caller that keeps every
  chunk ends up with exactly the candidates of the collecting scan, in the same order and with the same ids, for any
  chunk size, after the same calls to the kernel.\<close>

theorem streaming_equals_collecting:
  assumes "scan_target_with_resource K base_exists target wakes c0 p rm = (Inr r, st')" and "\<not> sc_hit st'"
  shows "case scan_target_streaming K target k keep_chunk wakes c0 p rm [] of (x, ss) \<Rightarrow>
    x = Inr () \<and> concat (ss_caller ss) = scr_candidates r \<and> sc_proc ss = sc_proc st'"
proof -
  define st0 where "st0 = \<lparr> sc_proc = p, sc_rm = rm, sc_wakes = wakes, sc_counter = c0, sc_candidates = [],
      sc_errors = [], sc_hit = False \<rparr>"
  define ss0 where "ss0 = \<lparr> sc_proc = p, sc_rm = rm, sc_wakes = wakes, sc_counter = c0, sc_candidates = [] :: Candidate list,
      sc_errors = [] :: string list, sc_hit = False, ss_caller = [] :: Candidate list list \<rparr>"
  have "same_scan st0 ss0" by (simp add: same_scan_def st0_def ss0_def)
  obtain ok st1 where permit: "scan_permit st0 = (ok, st1)" by fastforce
  obtain ss1 where permit': "scan_permit ss0 = (ok, ss1)" and same1: "same_scan st1 ss1"
    using same_scan_permit [OF \<open>same_scan st0 ss0\<close>] permit by (cases "scan_permit ss0") auto
  have eqs: "sc_proc ss1 = sc_proc st1" "sc_rm ss1 = sc_rm st1" using same1 by (simp_all add: same_scan_def)
  have call: "ss_caller ss1 = []" "sc_candidates ss1 = []"
    using permit' by (auto simp: scan_permit_def ss0_def split: prod.splits)
  obtain x p1 where opn: "open_root_with_permit K (td_base_path target) ok (sc_proc st1) = (x, p1)" by fastforce
  show ?thesis
  proof (cases x)
    case (Inl e)
    then show ?thesis
      using assms permit permit' opn eqs call
      by (auto simp: scan_target_with_resource_def scan_target_streaming_def st0_def [symmetric] ss0_def [symmetric] Let_def
          split: if_splits)
  next
    case (Inr h)
    obtain y st2 where scan: "scan_safe_recursive MAX_SCAN_DEPTH K target (RelativePath []) h (st1\<lparr>sc_proc := p1\<rparr>) = (y, st2)"
      by fastforce
    have y: "y = Inr ()" and r: "scr_candidates r = sc_candidates st2" "st' = st2\<lparr>sc_rm := drop_handle h (sc_rm st2)\<rparr>"
      using assms(1) permit opn Inr scan
      by (auto simp: scan_target_with_resource_def st0_def [symmetric] Let_def split: sum.splits)
    have "same_run (y, st2) (scan_safe_recursive_streaming MAX_SCAN_DEPTH K keep_chunk k target (RelativePath []) h
        (ss1\<lparr>sc_proc := p1\<rparr>))"
      using scan_safe_recursive_same [OF same_scan_updates(1) [OF same1], of MAX_SCAN_DEPTH K target "RelativePath []" h p1 k]
        scan assms(2) r(2) by simp
    then obtain ss2 where stream: "scan_safe_recursive_streaming MAX_SCAN_DEPTH K keep_chunk k target (RelativePath []) h
        (ss1\<lparr>sc_proc := p1\<rparr>) = (Inr True, ss2)" and same2: "same_scan st2 ss2"
      using y by (cases "scan_safe_recursive_streaming MAX_SCAN_DEPTH K keep_chunk k target (RelativePath []) h
        (ss1\<lparr>sc_proc := p1\<rparr>)") (auto simp: same_run_def)
    then show ?thesis
      using permit' opn Inr eqs r
      by (auto simp: scan_target_streaming_def ss0_def [symmetric] Let_def keep_chunk_def same_scan_def)
  qed
qed

theorem streaming_equals_collecting_witness:
  "length (concat (ss_caller (snd (scan_target_streaming one_dir_kernel (example_target ''/data/data/com.example/cache'') 1
     keep_chunk [] 1 \<lparr> world = [(''f'', 21), (''g'', 22)], openat2_supported = True, sys_log = [] \<rparr>
     (ResourceManager_new 0 4 TNormal) [])))) = 2"
proof -
  obtain r st' where "scan_target_with_resource one_dir_kernel True (example_target ''/data/data/com.example/cache'')
      [] 1 \<lparr> world = [(''f'', 21), (''g'', 22)], openat2_supported = True, sys_log = [] \<rparr>
      (ResourceManager_new 0 4 TNormal) = (Inr r, st')" "\<not> sc_hit st'" "length (scr_candidates r) = 2"
    using example_scan by blast
  with streaming_equals_collecting [OF this(1,2), of 1] show ?thesis
    by (auto split: prod.splits)
qed

end
