(* ===== verification/Scheduling.thy ===== *)
theory Scheduling
  imports Store
begin

text \<open>
  The scheduler of \<open>scheduler/mod.rs\<close>, a queue of one slot into which later triggers are coalesced, and
  the worker pool of \<open>worker/mod.rs\<close>, which claims a job by a lease in the durable store before it
  creates an attempt.  Both share the store, which is passed explicitly.  The lemmas show what a sequence of
  admissions merges into, that job ids are fresh and registered, and, through the interface of the leases,
  that two workers never hold attempts of one job at the same time.
\<close>

section \<open>The scheduler\<close>

definition MAX_QUEUED_JOBS :: nat where
  "MAX_QUEUED_JOBS = 1"

datatype TriggerSource = ManualIpc | ScreenOff | DeepIdle | MemoryPressurePsi | PeriodicMaintenance

primrec TriggerSource_debug :: "TriggerSource \<Rightarrow> string" where
  "TriggerSource_debug ManualIpc = ''ManualIpc''"
| "TriggerSource_debug ScreenOff = ''ScreenOff''"
| "TriggerSource_debug DeepIdle = ''DeepIdle''"
| "TriggerSource_debug MemoryPressurePsi = ''MemoryPressurePsi''"
| "TriggerSource_debug PeriodicMaintenance = ''PeriodicMaintenance''"

record JobAdmissionRequest =
  rq_job_id :: JobId
  rq_source :: TriggerSource
  rq_deep :: bool
  rq_trim :: bool
  rq_dry_run :: bool
  rq_catalog_generation :: CatalogGeneration
  rq_config_generation :: ConfigGeneration
  rq_admitted_at :: UnixTimestamp

record SchedulerService =
  sch_queue :: "JobAdmissionRequest list"
  sch_job_counter :: u64

definition SchedulerService_new :: "SqliteStore \<Rightarrow> SchedulerService \<times> SqliteStore" where
  "SchedulerService_new s = (case get_max_job_id s of
     (m, s1) \<Rightarrow> (\<lparr> sch_queue = [], sch_job_counter = m + 1 \<rparr>, s1))"

text \<open>The arguments of one admission, with the two readings of the clock it makes.\<close>

record Admission =
  adm_source :: TriggerSource
  adm_deep :: bool
  adm_trim :: bool
  adm_dry_run :: bool
  adm_catalog_gen :: CatalogGeneration
  adm_config_gen :: ConfigGeneration
  adm_now_register :: UnixTimestamp
  adm_now :: UnixTimestamp

definition admit_job ::
  "Admission \<Rightarrow> SchedulerService \<Rightarrow> SqliteStore
    \<Rightarrow> (JobAdmissionRequest, CleanerError) result \<times> SchedulerService \<times> SqliteStore" where
  "admit_job x sch s =
    (case sch_queue sch of
       existing # rest \<Rightarrow>
         (let merged = existing\<lparr>rq_deep := rq_deep existing \<or> adm_deep x,
                                rq_trim := rq_trim existing \<or> adm_trim x,
                                rq_dry_run := rq_dry_run existing \<and> adm_dry_run x\<rparr>
          in (Inr merged, sch\<lparr>sch_queue := merged # rest\<rparr>, s))
     | [] \<Rightarrow>
         (let job = JobId (sch_job_counter sch);
              sch1 = sch\<lparr>sch_job_counter := sch_job_counter sch + 1\<rparr>
          in case register_job (adm_now_register x) job (TriggerSource_debug (adm_source x))
                    (adm_catalog_gen x) (adm_config_gen x) s of
               (Inl e, s1) \<Rightarrow> (Inl e, sch1, s1)
             | (Inr _, s1) \<Rightarrow>
                 (let request = \<lparr> rq_job_id = job, rq_source = adm_source x, rq_deep = adm_deep x,
                        rq_trim = adm_trim x, rq_dry_run = adm_dry_run x,
                        rq_catalog_generation = adm_catalog_gen x, rq_config_generation = adm_config_gen x,
                        rq_admitted_at = adm_now x \<rparr>
                  in (Inr request, sch1\<lparr>sch_queue := [request]\<rparr>, s1))))"

definition pop_next_job :: "SchedulerService \<Rightarrow> JobAdmissionRequest option \<times> SchedulerService" where
  "pop_next_job sch =
    (case sch_queue sch of [] \<Rightarrow> (None, sch) | r # rest \<Rightarrow> (Some r, sch\<lparr>sch_queue := rest\<rparr>))"

definition queued_count :: "SchedulerService \<Rightarrow> nat" where
  "queued_count sch = length (sch_queue sch)"

section \<open>The worker pool\<close>

record WorkerPool =
  wp_worker_id :: WorkerId
  wp_attempt_counter :: u64
  wp_is_running :: bool

definition WorkerPool_new :: "WorkerId \<Rightarrow> SqliteStore \<Rightarrow> WorkerPool \<times> SqliteStore" where
  "WorkerPool_new w s = (case get_max_attempt_id s of
     (m, s1) \<Rightarrow> (\<lparr> wp_worker_id = w, wp_attempt_counter = m + 1, wp_is_running = False \<rparr>, s1))"

text \<open>The store reads the clock once for the lease and once for the attempt.\<close>

definition claim_attempt ::
  "UnixTimestamp \<Rightarrow> UnixTimestamp \<Rightarrow> JobId \<Rightarrow> u64 \<Rightarrow> WorkerPool \<Rightarrow> SqliteStore
    \<Rightarrow> (AttemptId, CleanerError) result \<times> WorkerPool \<times> SqliteStore" where
  "claim_attempt now_lease now_attempt j lease_secs wp s =
    (let a = AttemptId (wp_attempt_counter wp);
         wp1 = wp\<lparr>wp_attempt_counter := wp_attempt_counter wp + 1\<rparr>
     in case acquire_lease now_lease (resource_str (ResourceId_for_job j)) (wp_worker_id wp) lease_secs s of
          (Inl e, s1) \<Rightarrow> (Inl e, wp1, s1)
        | (Inr acquired, s1) \<Rightarrow>
            if \<not> acquired
            then (Inl (SafetyViolation ''Failed to acquire execution lease: already claimed by another worker''), wp1, s1)
            else case create_attempt now_attempt a j (wp_worker_id wp) lease_secs s1 of
              (Inl e, s2) \<Rightarrow> (Inl e, wp1, s2)
            | (Inr _, s2) \<Rightarrow> (Inr a, wp1\<lparr>wp_is_running := True\<rparr>, s2))"

definition finish_attempt ::
  "UnixTimestamp \<Rightarrow> AttemptId \<Rightarrow> JobId \<Rightarrow> string \<Rightarrow> WorkerPool \<Rightarrow> SqliteStore
    \<Rightarrow> (unit, CleanerError) result \<times> WorkerPool \<times> SqliteStore" where
  "finish_attempt now a j state wp s =
    (case update_attempt_state now a state s of
       (Inl e, s1) \<Rightarrow> (Inl e, wp, s1)
     | (Inr _, s1) \<Rightarrow>
         (Inr (), wp\<lparr>wp_is_running := False\<rparr>,
          snd (release_lease (resource_str (ResourceId_for_job j)) (wp_worker_id wp) s1)))"

section \<open>Coalescing\<close>

text \<open>Admissions one after the other, with their answers.\<close>

fun admit_all ::
  "Admission list \<Rightarrow> SchedulerService \<Rightarrow> SqliteStore
    \<Rightarrow> (JobAdmissionRequest, CleanerError) result list \<times> SchedulerService \<times> SqliteStore" where
  "admit_all [] sch s = ([], sch, s)"
| "admit_all (x # xs) sch s =
    (case admit_job x sch s of (r, sch1, s1) \<Rightarrow>
     case admit_all xs sch1 s1 of (rs, sch2, s2) \<Rightarrow> (r # rs, sch2, s2))"

text \<open>What a queued request and the triggers after it ask for together.\<close>

definition coalesced :: "JobAdmissionRequest \<Rightarrow> Admission list \<Rightarrow> JobAdmissionRequest" where
  "coalesced r xs = r\<lparr>rq_deep := rq_deep r \<or> list_ex adm_deep xs, rq_trim := rq_trim r \<or> list_ex adm_trim xs,
     rq_dry_run := rq_dry_run r \<and> list_all adm_dry_run xs\<rparr>"

lemma coalesced_simps [simp]:
  "coalesced r [] = r"
  "coalesced (coalesced r xs) ys = coalesced r (xs @ ys)"
  "rq_job_id (coalesced r xs) = rq_job_id r"
  by (auto simp: coalesced_def)

lemma admit_job_queued:
  "sch_queue sch = r # rest \<Longrightarrow>
    admit_job x sch s = (Inr (coalesced r [x]), sch\<lparr>sch_queue := coalesced r [x] # rest\<rparr>, s)"
  by (simp add: admit_job_def coalesced_def Let_def)

section \<open>Fresh job ids\<close>

datatype SchedOp = Admit Admission | Pop

fun sched_step :: "SchedOp \<Rightarrow> SchedulerService \<times> SqliteStore \<Rightarrow> SchedulerService \<times> SqliteStore" where
  "sched_step (Admit x) (sch, s) = snd (admit_job x sch s)"
| "sched_step Pop (sch, s) = (snd (pop_next_job sch), s)"

lemma JobId_num_simp [simp]: "JobId_num (JobId n) = n"
  by (simp add: JobId_num_def)

definition sched_inv :: "JobRow list \<Rightarrow> u64 \<Rightarrow> SchedulerService \<Rightarrow> SqliteStore \<Rightarrow> bool" where
  "sched_inv old c0 sch s \<longleftrightarrow> queued_count sch \<le> MAX_QUEUED_JOBS \<and>
    (\<forall>r\<in>set (sch_queue sch). job_exists s (rq_job_id r)) \<and> c0 \<le> sch_job_counter sch \<and>
    (\<exists>new. st_jobs s = old @ new \<and> sorted_wrt (<) (map (JobId_num \<circ> jb_id) new) \<and>
      (\<forall>r\<in>set new. c0 \<le> JobId_num (jb_id r) \<and> JobId_num (jb_id r) < sch_job_counter sch))"

lemma register_fresh:
  assumes "register_job now j ty cat cfg s = (x, s1)" "\<not> job_exists s j"
  shows "case x of Inl _ \<Rightarrow> st_jobs s1 = st_jobs s
    | Inr _ \<Rightarrow> \<exists>r. st_jobs s1 = st_jobs s @ [r] \<and> jb_id r = j"
proof -
  obtain f s0 where f: "sql_fault s = (f, s0)" by fastforce
  have "st_jobs s0 = st_jobs s" using same_tables_fields [OF sql_fault_same [OF f]] by simp
  then show ?thesis using assms f by (auto simp: register_job_def job_exists_def split: if_splits)
qed

lemma sched_inv_admit:
  assumes inv: "sched_inv old c0 sch s" and old: "\<And>r. r \<in> set old \<Longrightarrow> JobId_num (jb_id r) < c0"
    and room: "sch_job_counter sch < sch_job_counter sch + 1" and run: "admit_job x sch s = (y, sch', s')"
  shows "sched_inv old c0 sch' s'"
proof (cases "sch_queue sch")
  case (Cons r rest)
  then show ?thesis using inv run admit_job_queued [OF Cons, of x s] by (auto simp: sched_inv_def queued_count_def)
next
  case Nil
  let ?j = "JobId (sch_job_counter sch)"
  obtain new where new: "st_jobs s = old @ new" "sorted_wrt (<) (map (JobId_num \<circ> jb_id) new)"
    "\<forall>r\<in>set new. c0 \<le> JobId_num (jb_id r) \<and> JobId_num (jb_id r) < sch_job_counter sch"
    and c0: "c0 \<le> sch_job_counter sch"
    using inv by (auto simp: sched_inv_def)
  have fresh: "\<not> job_exists s ?j"
  proof -
    have "JobId_num (jb_id r) < sch_job_counter sch" if "r \<in> set (st_jobs s)" for r
      using that new(1,3) order_less_le_trans [OF old c0] by auto
    then show ?thesis unfolding job_exists_def list_ex_iff by (metis JobId_num_simp less_irrefl)
  qed
  obtain z s1 where reg: "register_job (adm_now_register x) ?j (TriggerSource_debug (adm_source x))
      (adm_catalog_gen x) (adm_config_gen x) s = (z, s1)" by fastforce
  note added = register_fresh [OF reg fresh]
  have later: "\<forall>r\<in>set new. c0 \<le> JobId_num (jb_id r) \<and> JobId_num (jb_id r) < sch_job_counter sch + 1"
    using new(3) room by (auto intro: less_trans)
  have c0': "c0 \<le> sch_job_counter sch + 1" using c0 room by simp
  show ?thesis
  proof (cases z)
    case (Inl e)
    then show ?thesis
      using run Nil reg added new later c0' by (auto simp: admit_job_def sched_inv_def queued_count_def Let_def)
  next
    case (Inr u)
    then obtain r where r: "st_jobs s1 = old @ new @ [r]" "jb_id r = ?j" using added new(1) by auto
    have "sorted_wrt (<) (map (JobId_num \<circ> jb_id) (new @ [r]))"
      using new(2,3) r(2) by (auto simp: sorted_wrt_append)
    moreover have "\<forall>q\<in>set (new @ [r]). c0 \<le> JobId_num (jb_id q) \<and> JobId_num (jb_id q) < sch_job_counter sch + 1"
      using later r(2) c0 room by auto
    moreover have "job_exists s1 ?j" using r by (simp add: job_exists_def)
    ultimately show ?thesis
      using run Nil reg Inr r(1) c0'
      by (auto simp: admit_job_def sched_inv_def queued_count_def MAX_QUEUED_JOBS_def Let_def)
  qed
qed

lemma sched_inv_pop: "sched_inv old c0 sch s \<Longrightarrow> sched_inv old c0 (snd (pop_next_job sch)) s"
  by (auto simp: sched_inv_def pop_next_job_def queued_count_def split: list.splits)

lemma counter_step:
  "sch_job_counter (snd (pop_next_job sch)) = sch_job_counter sch"
  "sch_job_counter (fst (snd (admit_job x sch s))) \<in> {sch_job_counter sch, sch_job_counter sch + 1}"
  by (auto simp: pop_next_job_def admit_job_def Let_def split: list.splits prod.splits sum.splits)

lemma sched_inv_run:
  assumes old: "\<And>r. r \<in> set old \<Longrightarrow> JobId_num (jb_id r) < c0"
  shows "sched_inv old c0 sch s \<Longrightarrow> unat (sch_job_counter sch) + length ops < 2 ^ 64 \<Longrightarrow>
    case fold sched_step ops (sch, s) of (sch', s') \<Rightarrow> sched_inv old c0 sch' s'"
proof (induction ops arbitrary: sch s)
  case (Cons x ops)
  obtain sch1 s1 where step: "sched_step x (sch, s) = (sch1, s1)" by fastforce
  have room: "sch_job_counter sch < sch_job_counter sch + 1"
    "unat (sch_job_counter sch + 1) = unat (sch_job_counter sch) + 1"
    using Cons.prems(2) by (simp_all add: word_less_nat_alt unat_word_ariths)
  have inv1: "sched_inv old c0 sch1 s1"
  proof (cases x)
    case (Admit a)
    then show ?thesis
      using step sched_inv_admit [OF Cons.prems(1) old room(1)] by (cases "admit_job a sch s") auto
  next
    case Pop
    then show ?thesis using step sched_inv_pop [OF Cons.prems(1)] by auto
  qed
  have "sch_job_counter sch1 \<in> {sch_job_counter sch, sch_job_counter sch + 1}"
  proof (cases x)
    case (Admit a)
    then show ?thesis using step counter_step(2) [where x = a and sch = sch and s = s] by simp
  next
    case Pop
    then show ?thesis using step counter_step(1) [of sch] by auto
  qed
  then have "unat (sch_job_counter sch1) + length ops < 2 ^ 64" using Cons.prems(2) room(2) by auto
  then show ?case using Cons.IH [OF inv1] step by simp
qed simp

lemma fold_max_ge: "m \<le> fold (\<lambda>r m. max m (f r)) rs (m :: 'b :: linorder)"
proof (induction rs arbitrary: m)
  case (Cons a rs)
  then show ?case by (auto intro: order_trans [of m "max m (f a)"])
qed simp

lemma fold_max_upper: "r \<in> set rs \<Longrightarrow> f r \<le> fold (\<lambda>r m. max m (f r)) rs (m :: 'b :: linorder)"
proof (induction rs arbitrary: m)
  case (Cons a rs)
  then show ?case using order_trans [OF max.cobounded2 fold_max_ge] by auto
qed simp

section \<open>Claims\<close>

datatype WorkerOp = Claim UnixTimestamp UnixTimestamp JobId u64 WorkerPool | Finish UnixTimestamp AttemptId JobId string WorkerPool

fun worker_step :: "WorkerOp \<Rightarrow> SqliteStore \<Rightarrow> SqliteStore" where
  "worker_step (Claim t t' j d wp) s = snd (snd (claim_attempt t t' j d wp s))"
| "worker_step (Finish t a j state wp) s = snd (snd (finish_attempt t a j state wp s))"

text \<open>A step of another worker, and a claim only while the clock reads less than \<open>e\<close>.\<close>

fun other_worker :: "WorkerId \<Rightarrow> u64 \<Rightarrow> WorkerOp \<Rightarrow> bool" where
  "other_worker w e (Claim t t' j d wp) = (wp_worker_id wp \<noteq> w \<and> t < e)"
| "other_worker w e (Finish t a j state wp) = (wp_worker_id wp \<noteq> w)"

lemma lease_of_eq: "st_leases s' = st_leases s \<Longrightarrow> lease_of s' = lease_of s"
  by (simp add: lease_of_def fun_eq_iff)

lemma create_attempt_leases: "st_leases (snd (create_attempt now a j w d s)) = st_leases s"
proof -
  obtain f s1 where f: "sql_fault s = (f, s1)" by fastforce
  then show ?thesis using same_tables_fields [OF sql_fault_same [OF f]] by (simp add: create_attempt_def)
qed

lemma update_attempt_leases: "st_leases (snd (update_attempt_state now a state s)) = st_leases s"
proof -
  obtain f s1 where f: "sql_fault s = (f, s1)" by fastforce
  then show ?thesis using same_tables_fields [OF sql_fault_same [OF f]] by (simp add: update_attempt_state_def)
qed

lemma claim_attempt_leases:
  "lease_of (snd (snd (claim_attempt t t' j d wp s))) =
    lease_of (lease_apply acquire_lease release_lease (LAcquire t (resource_str (ResourceId_for_job j)) (wp_worker_id wp) d) s)"
  "fst (claim_attempt t t' j d wp s) = Inr a \<Longrightarrow>
    fst (acquire_lease t (resource_str (ResourceId_for_job j)) (wp_worker_id wp) d s) = Inr True"
  using lease_of_eq [OF create_attempt_leases, of t' "AttemptId (wp_attempt_counter wp)" j "wp_worker_id wp" d
      "snd (acquire_lease t (resource_str (ResourceId_for_job j)) (wp_worker_id wp) d s)"]
  by (auto simp: claim_attempt_def Let_def split: prod.splits sum.splits if_splits)

lemma finish_attempt_leases:
  "\<exists>s1. lease_of s1 = lease_of s \<and> (lease_of (snd (snd (finish_attempt t a j state wp s))) = lease_of s \<or>
     lease_of (snd (snd (finish_attempt t a j state wp s))) =
       lease_of (lease_apply acquire_lease release_lease (LRelease (resource_str (ResourceId_for_job j)) (wp_worker_id wp)) s1))"
proof -
  obtain x s1 where run: "update_attempt_state t a state s = (x, s1)" by fastforce
  then have "lease_of s1 = lease_of s" using lease_of_eq [OF update_attempt_leases] by (metis snd_conv)
  then show ?thesis using run by (cases x) (auto simp: finish_attempt_def)
qed

lemma other_worker_keeps:
  assumes "lease_of s r = Some (w, e)" "other_worker w e x"
  shows "lease_of (worker_step x s) r = Some (w, e)"
proof (cases x)
  case (Claim t t' j d wp)
  then show ?thesis
    using assms leases.keep_step [OF assms(1), of "LAcquire t (resource_str (ResourceId_for_job j)) (wp_worker_id wp) d"]
    by (simp add: claim_attempt_leases)
next
  case (Finish t a j state wp)
  obtain s1 where s1: "lease_of s1 = lease_of s"
    "lease_of (worker_step x s) = lease_of s \<or> lease_of (worker_step x s) =
      lease_of (lease_apply acquire_lease release_lease (LRelease (resource_str (ResourceId_for_job j)) (wp_worker_id wp)) s1)"
    using finish_attempt_leases [of s t a j state wp] Finish by auto
  have "lease_of (lease_apply acquire_lease release_lease (LRelease (resource_str (ResourceId_for_job j)) (wp_worker_id wp)) s1) r
      = Some (w, e)"
    by (rule leases.keep_step) (use s1(1) assms Finish in simp_all)
  then show ?thesis using s1(2) assms(1) by auto
qed

lemma other_workers_keep:
  "lease_of s r = Some (w, e) \<Longrightarrow> list_all (other_worker w e) xs \<Longrightarrow> lease_of (fold worker_step xs s) r = Some (w, e)"
  by (induction xs arbitrary: s) (auto simp: other_worker_keeps)

section \<open>Properties\<close>

text \<open>Triggers coalesce: while a request is queued every further admission is answered with that request, its
  job id, source, generations and admission time kept, deep and trim set once any trigger asks for them, and a dry
  run only as long as every trigger asks for one; nothing more is registered in the store.\<close>

theorem admissions_coalesce:
  "admit_all xs (sch\<lparr>sch_queue := r # rest\<rparr>) s =
    (map (\<lambda>i. Inr (coalesced r (take (Suc i) xs))) [0..<length xs], sch\<lparr>sch_queue := coalesced r xs # rest\<rparr>, s)"
proof (induction xs arbitrary: r)
  case (Cons x xs)
  have "map (\<lambda>i. Inr (coalesced r (take (Suc i) (x # xs))) :: (JobAdmissionRequest, CleanerError) result) [0..<length (x # xs)] =
      Inr (coalesced r [x]) # map (\<lambda>i. Inr (coalesced (coalesced r [x]) (take (Suc i) xs))) [0..<length xs]"
    by (simp only: list.size add.right_neutral add_Suc_right map_upt_Suc) simp
  then show ?case
    using Cons.IH [of "coalesced r [x]"] admit_job_queued [of "sch\<lparr>sch_queue := r # rest\<rparr>" r rest x s]
    by (simp del: upt_Suc)
qed simp

text \<open>Started on a store whose jobs could be read, and whatever statements fail later, a scheduler never queues
  more than one job, queues only jobs that are registered, and registers every new job under a fresh id, leaving the
  rows of the earlier jobs as they were.\<close>

theorem job_ids_fresh:
  assumes "SchedulerService_new s = (sch, s0)" and "\<not> fst (sql_fault s)"
    and "unat (sch_job_counter sch) + length ops < 2 ^ 64" and "sch_job_counter sch \<noteq> 0"
  shows "case fold sched_step ops (sch, s0) of (sch', s') \<Rightarrow>
    queued_count sch' \<le> MAX_QUEUED_JOBS \<and> list_all (\<lambda>r. job_exists s' (rq_job_id r)) (sch_queue sch') \<and>
    (\<exists>new. st_jobs s' = st_jobs s @ new \<and> distinct (map jb_id new) \<and>
      set (map jb_id new) \<inter> set (map jb_id (st_jobs s)) = {})"
proof -
  obtain f s1 where f: "sql_fault s = (f, s1)" by fastforce
  have s1: "st_jobs s1 = st_jobs s" using same_tables_fields [OF sql_fault_same [OF f]] by simp
  define m where "m = fold (\<lambda>r m. max m (JobId_num (jb_id r))) (st_jobs s) 0"
  have new: "sch = \<lparr> sch_queue = [], sch_job_counter = m + 1 \<rparr>" "s0 = s1"
    using assms(1,2) f s1 by (auto simp: SchedulerService_new_def get_max_job_id_def m_def)
  have "m < m + 1" using assms(4) new(1) by simp uint_arith
  have old: "JobId_num (jb_id r) < sch_job_counter sch" if "r \<in> set (st_jobs s)" for r
    using fold_max_upper [OF that, of "\<lambda>r. JobId_num (jb_id r)" 0] \<open>m < m + 1\<close> new(1) by (simp add: m_def)
  have "sched_inv (st_jobs s) (sch_job_counter sch) sch s0"
    using new s1 by (simp add: sched_inv_def queued_count_def)
  from sched_inv_run [OF old this assms(3)] obtain sch' s' where run: "fold sched_step ops (sch, s0) = (sch', s')"
    and inv: "sched_inv (st_jobs s) (sch_job_counter sch) sch' s'"
    by (cases "fold sched_step ops (sch, s0)") auto
  then obtain rows where rows: "st_jobs s' = st_jobs s @ rows" "sorted_wrt (<) (map (JobId_num \<circ> jb_id) rows)"
    "\<forall>r\<in>set rows. sch_job_counter sch \<le> JobId_num (jb_id r)"
    by (auto simp: sched_inv_def)
  have "distinct (map jb_id rows)"
    using strict_sorted_iff [THEN iffD1, OF rows(2)] by (simp add: distinct_map comp_inj_on_iff [symmetric] inj_on_def)
  moreover have "set (map jb_id rows) \<inter> set (map jb_id (st_jobs s)) = {}"
    using rows(3) old by fastforce
  ultimately show ?thesis
    using run inv rows(1) by (auto simp: sched_inv_def list_all_iff)
qed

theorem job_ids_fresh_witness:
  "case fold sched_step [Admit \<lparr> adm_source = ScreenOff, adm_deep = False, adm_trim = False, adm_dry_run = False,
      adm_catalog_gen = CatalogGeneration 1, adm_config_gen = ConfigGeneration 1, adm_now_register = 5, adm_now = 5 \<rparr>, Pop]
      (SchedulerService_new (Store_empty [])) of (sch', s') \<Rightarrow> queued_count sch' \<le> MAX_QUEUED_JOBS"
proof -
  have new: "SchedulerService_new (Store_empty []) = (\<lparr> sch_queue = [], sch_job_counter = 1 \<rparr>, Store_empty [])"
    by (simp add: SchedulerService_new_def get_max_job_id_def sql_fault_def Store_empty_def)
  then show ?thesis
    using job_ids_fresh [OF new, of "[Admit \<lparr> adm_source = ScreenOff, adm_deep = False, adm_trim = False,
        adm_dry_run = False, adm_catalog_gen = CatalogGeneration 1, adm_config_gen = ConfigGeneration 1,
        adm_now_register = 5, adm_now = 5 \<rparr>, Pop]"]
    by (simp add: sql_fault_def Store_empty_def split: prod.splits)
qed

text \<open>Once a worker has claimed a job, no other worker claims it before the lease expires, whatever claims and
  finishes of other workers, for this and other jobs, come in between.\<close>

theorem claims_exclusive:
  assumes "claim_attempt t t1 j d wp s = (Inr a, wp1, s1)"
    and "list_all (other_worker (wp_worker_id wp) (t + d)) xs"
    and "wp_worker_id wp' \<noteq> wp_worker_id wp" and "t' < t + d"
  shows "case claim_attempt t' t1' j d' wp' (fold worker_step xs s1) of (x, _) \<Rightarrow> \<exists>e. x = Inl e"
proof -
  let ?r = "resource_str (ResourceId_for_job j)"
  obtain s0 where "acquire_lease t ?r (wp_worker_id wp) d s = (Inr True, s0)"
    using claim_attempt_leases(2) [of t t1 j d wp s a] assms(1)
    by (cases "acquire_lease t ?r (wp_worker_id wp) d s") auto
  then have "lease_of s1 ?r = Some (wp_worker_id wp, t + d)"
    using claim_attempt_leases(1) [of t t1 j d wp s] assms(1) leases.acq_true by simp
  then have held: "lease_of (fold worker_step xs s1) ?r = Some (wp_worker_id wp, t + d)"
    using other_workers_keep assms(2) by blast
  obtain x wp2 s2 where run: "claim_attempt t' t1' j d' wp' (fold worker_step xs s1) = (x, wp2, s2)"
    by (rule prod_cases3)
  obtain y s3 where acq: "acquire_lease t' ?r (wp_worker_id wp') d' (fold worker_step xs s1) = (y, s3)" by fastforce
  have "y \<noteq> Inr True" using leases.acq_held [OF held _ assms(4) acq] assms(3) by auto
  then have "\<exists>e. x = Inl e"
    using claim_attempt_leases(2) [of t' t1' j d' wp' "fold worker_step xs s1"] run acq by (cases x) auto
  then show ?thesis using run by simp
qed

theorem claims_exclusive_witness:
  "\<exists>e. fst (claim_attempt 105 105 (JobId 1) 300 \<lparr> wp_worker_id = WorkerId 2, wp_attempt_counter = 2, wp_is_running = False \<rparr>
     (snd (snd (claim_attempt 100 100 (JobId 1) 300 \<lparr> wp_worker_id = WorkerId 1, wp_attempt_counter = 1, wp_is_running = False \<rparr>
       (snd (register_job 5 (JobId 1) ''ManualIpc'' (CatalogGeneration 1) (ConfigGeneration 1) (Store_empty []))))))) = Inl e"
proof -
  let ?wp = "\<lparr> wp_worker_id = WorkerId 1, wp_attempt_counter = 1, wp_is_running = False \<rparr>"
  let ?s = "snd (register_job 5 (JobId 1) ''ManualIpc'' (CatalogGeneration 1) (ConfigGeneration 1) (Store_empty []))"
  have "fst (claim_attempt 100 100 (JobId 1) 300 ?wp ?s) = Inr (AttemptId 1)"
    by (simp add: claim_attempt_def acquire_lease_def sql_fault_def Store_empty_def delete_expired_def register_job_def
        job_exists_def create_attempt_def Let_def)
  then obtain wp1 s1 where run: "claim_attempt 100 100 (JobId 1) 300 ?wp ?s = (Inr (AttemptId 1), wp1, s1)"
    by (cases "claim_attempt 100 100 (JobId 1) 300 ?wp ?s") auto
  show ?thesis
    using claims_exclusive [OF run, of "[]" "\<lparr> wp_worker_id = WorkerId 2, wp_attempt_counter = 2, wp_is_running = False \<rparr>"
        105 105 300] run
    by (auto split: prod.splits)
qed

end
