(* ===== verification/Cancel_Token.thy ===== *)
theory Cancel_Token
  imports Prelude
begin

text \<open>
  The cancellation token of \<open>engine/cancellation.rs\<close>: a flag and a reason code, two atomic variables that
  callers on several threads write without a lock.  Every operation is the sequence of its atomic steps, and a
  concurrent run is any interleaving of such sequences.  The lemmas show that the reason reported is that of the
  first caller to reach the exchange, and what an unlucky interleaving with \<open>reset\<close> leaves behind.
\<close>

datatype CancelReason = ScreenOn | UserActivity | ThermalCritical | BatteryLow | Unplugged | Shutdown | Timeout
  | ManualCancel

primrec to_code :: "CancelReason \<Rightarrow> 8 word" where
  "to_code ScreenOn = 1"
| "to_code UserActivity = 2"
| "to_code ThermalCritical = 3"
| "to_code BatteryLow = 4"
| "to_code Unplugged = 5"
| "to_code Shutdown = 6"
| "to_code Timeout = 7"
| "to_code ManualCancel = 8"

definition from_code :: "8 word \<Rightarrow> CancelReason option" where
  "from_code code =
    (if code = 1 then Some ScreenOn
     else if code = 2 then Some UserActivity
     else if code = 3 then Some ThermalCritical
     else if code = 4 then Some BatteryLow
     else if code = 5 then Some Unplugged
     else if code = 6 then Some Shutdown
     else if code = 7 then Some Timeout
     else if code = 8 then Some ManualCancel
     else None)"

primrec CancelReason_as_str :: "CancelReason \<Rightarrow> string" where
  "CancelReason_as_str ScreenOn = ''ScreenOn''"
| "CancelReason_as_str UserActivity = ''UserActivity''"
| "CancelReason_as_str ThermalCritical = ''ThermalCritical''"
| "CancelReason_as_str BatteryLow = ''BatteryLow''"
| "CancelReason_as_str Unplugged = ''Unplugged''"
| "CancelReason_as_str Shutdown = ''Shutdown''"
| "CancelReason_as_str Timeout = ''Timeout''"
| "CancelReason_as_str ManualCancel = ''ManualCancel''"

datatype PauseReason = ThermalHot | CpuPressureHigh | IoPressureHigh

record CancellationToken =
  cancelled :: bool
  reason_code :: "8 word"

definition CancellationToken_new :: CancellationToken where
  "CancellationToken_new = \<lparr> cancelled = False, reason_code = 0 \<rparr>"

definition is_cancelled :: "CancellationToken \<Rightarrow> bool" where
  "is_cancelled tok = cancelled tok"

section \<open>Atomic steps\<close>

datatype AtomicStep = StoreFlag bool | ExchangeReason "8 word" | StoreReason "8 word"

fun atomic_step :: "AtomicStep \<Rightarrow> CancellationToken \<Rightarrow> CancellationToken" where
  "atomic_step (StoreFlag b) tok = tok\<lparr>cancelled := b\<rparr>"
| "atomic_step (ExchangeReason c) tok = (if reason_code tok = 0 then tok\<lparr>reason_code := c\<rparr> else tok)"
| "atomic_step (StoreReason c) tok = tok\<lparr>reason_code := c\<rparr>"

definition cancel_with_reason_steps :: "CancelReason \<Rightarrow> AtomicStep list" where
  "cancel_with_reason_steps r = [StoreFlag True, ExchangeReason (to_code r)]"

definition reset_steps :: "AtomicStep list" where
  "reset_steps = [StoreFlag False, StoreReason 0]"

definition cancel_with_reason :: "CancelReason \<Rightarrow> CancellationToken \<Rightarrow> CancellationToken" where
  "cancel_with_reason r tok = fold atomic_step (cancel_with_reason_steps r) tok"

definition cancel :: "CancellationToken \<Rightarrow> CancellationToken" where
  "cancel tok = cancel_with_reason ManualCancel tok"

definition get_cancel_reason :: "CancellationToken \<Rightarrow> CancelReason option" where
  "get_cancel_reason tok = from_code (reason_code tok)"

definition reset :: "CancellationToken \<Rightarrow> CancellationToken" where
  "reset tok = fold atomic_step reset_steps tok"

section \<open>Interleavings\<close>

text \<open>The interleavings of several sequences of steps, one per thread.\<close>

primrec interleavings :: "'a list list \<Rightarrow> 'a list set" where
  "interleavings [] = {[]}"
| "interleavings (t # ts) = (\<Union>zs\<in>interleavings ts. shuffles t zs)"

lemma interleavings_set: "zs \<in> interleavings ts \<Longrightarrow> set zs = (\<Union>t\<in>set ts. set t)"
  by (induction ts arbitrary: zs) (auto dest: set_shuffles)

lemma to_code_facts [simp]: "to_code r \<noteq> 0" "from_code (to_code r) = Some r"
  by (cases r; simp add: from_code_def)+

lemma from_code_0 [simp]: "from_code 0 = None"
  by (simp add: from_code_def)

text \<open>A caller stores the flag before it exchanges the reason, so every interleaving starts with a store of the
  flag.\<close>

lemma shuffle_starts:
  "zs \<in> shuffles xs ys \<Longrightarrow> hd xs = StoreFlag True \<Longrightarrow> hd ys = StoreFlag True \<Longrightarrow> zs = [] \<or> hd zs = StoreFlag True"
  by (induction xs ys rule: shuffles.induct) (auto split: if_splits)

lemma interleaving_starts:
  "zs \<in> interleavings (map cancel_with_reason_steps rs) \<Longrightarrow> zs = [] \<or> hd zs = StoreFlag True"
proof (induction rs arbitrary: zs)
  case (Cons r rs)
  then obtain ys where ys: "ys \<in> interleavings (map cancel_with_reason_steps rs)"
    "zs \<in> shuffles (cancel_with_reason_steps r) ys" by auto
  show ?case
  proof (cases ys)
    case Nil
    then show ?thesis using ys(2) by (simp add: cancel_with_reason_steps_def)
  next
    case (Cons y ys')
    then show ?thesis
      using ys shuffle_starts [OF ys(2)] Cons.IH [OF ys(1)] by (simp add: cancel_with_reason_steps_def)
  qed
qed simp

text \<open>The reasons exchanged by a sequence of steps, in order.\<close>

fun exchanged :: "AtomicStep list \<Rightarrow> (8 word) list" where
  "exchanged [] = []"
| "exchanged (ExchangeReason c # zs) = c # exchanged zs"
| "exchanged (_ # zs) = exchanged zs"

definition only_cancels :: "AtomicStep list \<Rightarrow> bool" where
  "only_cancels zs \<longleftrightarrow> (\<forall>z\<in>set zs. z = StoreFlag True \<or> (\<exists>r. z = ExchangeReason (to_code r)))"

lemma only_cancels_simps [simp]:
  "only_cancels []"
  "only_cancels (z # zs) \<longleftrightarrow> (z = StoreFlag True \<or> (\<exists>r. z = ExchangeReason (to_code r))) \<and> only_cancels zs"
  by (auto simp: only_cancels_def)

lemma cancels_run:
  "only_cancels zs \<Longrightarrow> fold atomic_step zs tok =
    \<lparr> cancelled = cancelled tok \<or> StoreFlag True \<in> set zs,
      reason_code = (if reason_code tok = 0 then (case exchanged zs of [] \<Rightarrow> 0 | c # _ \<Rightarrow> c) else reason_code tok) \<rparr>"
  by (induction zs arbitrary: tok) auto

lemma interleaving_only_cancels:
  "zs \<in> interleavings (map cancel_with_reason_steps rs) \<Longrightarrow> only_cancels zs"
  using interleavings_set [of zs "map cancel_with_reason_steps rs"]
  by (auto simp: only_cancels_def cancel_with_reason_steps_def)

lemma exchanged_set: "c \<in> set (exchanged zs) \<longleftrightarrow> ExchangeReason c \<in> set zs"
  by (induction zs rule: exchanged.induct) auto

lemma interleaving_exchanged:
  assumes "zs \<in> interleavings (map cancel_with_reason_steps rs)"
  shows "set (exchanged zs) = to_code ` set rs"
proof -
  have "ExchangeReason c \<in> set zs \<longleftrightarrow> c \<in> to_code ` set rs" for c
    using interleavings_set [OF assms] by (auto simp: cancel_with_reason_steps_def)
  then show ?thesis by (auto simp: exchanged_set)
qed

section \<open>Properties\<close>

text \<open>The codes of the cancel reasons form a bijection with the reasons: every reason is read back from its
  code, and a code is read as a reason only if it is that reason's code; zero, the initial value, is none.\<close>

theorem cancel_code_round_trip:
  "from_code (to_code r) = Some r \<and> (from_code c = Some r \<longleftrightarrow> c = to_code r) \<and>
   get_cancel_reason CancellationToken_new = None"
proof -
  have "from_code c = Some r \<longleftrightarrow> c = to_code r" by (cases r) (auto simp: from_code_def)
  then show ?thesis by (simp add: get_cancel_reason_def CancellationToken_new_def)
qed

text \<open>Cancelling from several threads: after any prefix of any interleaving of the callers' atomic steps on a
  fresh token, a reason is reported only once the token reads as cancelled, it is the reason of a caller, that of the
  first exchange, and no later step changes it; when all steps are done the token is cancelled and has a reason.\<close>

theorem first_cancel_reason_wins:
  assumes "pre @ post \<in> interleavings (map cancel_with_reason_steps rs)"
  shows "let tok = fold atomic_step pre CancellationToken_new; end = fold atomic_step post tok in
    (get_cancel_reason tok \<noteq> None \<longrightarrow> is_cancelled tok \<and> get_cancel_reason tok \<in> Some ` set rs \<and>
       get_cancel_reason end = get_cancel_reason tok) \<and>
    (is_cancelled tok \<longrightarrow> is_cancelled end) \<and>
    (rs \<noteq> [] \<longrightarrow> is_cancelled end \<and> get_cancel_reason end \<in> Some ` set rs)"
proof -
  define tok where "tok = fold atomic_step pre CancellationToken_new"
  define fin where "fin = fold atomic_step post tok"
  note all = interleaving_only_cancels [OF assms] interleaving_exchanged [OF assms]
  have only: "only_cancels pre" "only_cancels post" using all(1) by (auto simp: only_cancels_def)
  have exch: "exchanged (pre @ post) = exchanged pre @ exchanged post"
    by (induction pre rule: exchanged.induct) simp_all
  have starts: "StoreFlag True \<in> set pre" if "pre \<noteq> []"
    using interleaving_starts [OF assms] that by (cases pre) auto
  have tok: "cancelled tok \<longleftrightarrow> pre \<noteq> []" "reason_code tok = (case exchanged pre of [] \<Rightarrow> 0 | c # _ \<Rightarrow> c)"
    using starts by (auto simp: tok_def cancels_run [OF only(1)] CancellationToken_new_def)
  have nonzero: "0 \<notin> set (exchanged (pre @ post))" unfolding all(2) using to_code_facts(1) by (metis imageE)
  have run: "cancelled fin \<longleftrightarrow> cancelled tok \<or> StoreFlag True \<in> set post"
    "reason_code fin = (case exchanged (pre @ post) of [] \<Rightarrow> 0 | c # _ \<Rightarrow> c)"
    using tok(2) nonzero exch by (auto simp: fin_def cancels_run [OF only(2)] split: list.splits)
  have reported: "\<exists>r\<in>set rs. c = to_code r" if "c \<in> set (exchanged (pre @ post))" for c
    using that all(2) by auto
  have A: "is_cancelled tok \<and> get_cancel_reason tok \<in> Some ` set rs \<and> get_cancel_reason fin = get_cancel_reason tok"
    if some: "get_cancel_reason tok \<noteq> None"
  proof -
    obtain c cs where c: "exchanged pre = c # cs"
      using some tok(2) by (cases "exchanged pre") (auto simp: get_cancel_reason_def)
    then obtain r where "r \<in> set rs" "c = to_code r" using reported exch by fastforce
    then show ?thesis
      using c tok run exch by (auto simp: get_cancel_reason_def is_cancelled_def)
  qed
  have B: "is_cancelled fin \<and> get_cancel_reason fin \<in> Some ` set rs" if rs: "rs \<noteq> []"
  proof -
    obtain c cs where c: "exchanged (pre @ post) = c # cs"
      using rs all(2) by (cases "exchanged (pre @ post)") auto
    then obtain r where "r \<in> set rs" "c = to_code r" using reported by fastforce
    moreover have "StoreFlag True \<in> set (pre @ post)"
      using interleavings_set [OF assms] rs by (auto simp: cancel_with_reason_steps_def neq_Nil_conv)
    ultimately show ?thesis
      using c tok run by (auto simp: get_cancel_reason_def is_cancelled_def)
  qed
  show ?thesis
    unfolding Let_def tok_def [symmetric] fin_def [symmetric]
    using A B run(1) by (simp add: is_cancelled_def)
qed

theorem first_cancel_reason_wins_witness:
  "get_cancel_reason (fold atomic_step [StoreFlag True, StoreFlag True, ExchangeReason 6, ExchangeReason 1]
     CancellationToken_new) \<in> Some ` {ScreenOn, Shutdown}"
proof -
  have "[StoreFlag True, StoreFlag True, ExchangeReason 6] @ [ExchangeReason 1]
      \<in> interleavings (map cancel_with_reason_steps [ScreenOn, Shutdown])"
    by (simp add: cancel_with_reason_steps_def)
  from first_cancel_reason_wins [OF this] show ?thesis by (simp add: Let_def)
qed

text \<open>A reset that overlaps a cancellation can lose it and keep its reason: there is an interleaving after which
  the token is not cancelled and yet has the reason, and a later cancellation is reported with that stale reason.\<close>

theorem reset_race_keeps_stale_reason:
  "\<exists>zs. zs \<in> shuffles (cancel_with_reason_steps r) reset_steps \<and>
     (let tok = fold atomic_step zs CancellationToken_new in
        \<not> is_cancelled tok \<and> get_cancel_reason tok = Some r \<and>
        is_cancelled (cancel_with_reason r' tok) \<and> get_cancel_reason (cancel_with_reason r' tok) = Some r)"
  by (rule exI [of _ "[StoreFlag True, StoreFlag False, StoreReason 0, ExchangeReason (to_code r)]"])
    (simp add: cancel_with_reason_steps_def reset_steps_def CancellationToken_new_def is_cancelled_def
      get_cancel_reason_def cancel_with_reason_def)

end
