(* ===== verification/Texts.thy ===== *)
theory Texts
  imports Domain_Types
begin

text \<open>
  The string methods of the standard library that the program uses to read the text files of the kernel and the
  names of directories: parsing of unsigned decimal numbers, trimming, splitting into lines, fields and at the
  first occurrence of a character.  Strings are bytes, as everywhere.  The lemmas give the round trip of printing
  and parsing a number and the laws of splitting that the components use.
\<close>

section \<open>Numbers\<close>

definition is_digit :: "char \<Rightarrow> bool" where
  "is_digit c = (0x30 \<le> byte_of c \<and> byte_of c \<le> 0x39)"

definition digit_value :: "char \<Rightarrow> nat" where
  "digit_value c = byte_of c - 0x30"

text \<open>\<open>str::parse\<close> for an unsigned type: an optional plus sign and at least one digit, with a value that the type
  can hold.\<close>

definition parse_digits :: "string \<Rightarrow> nat option" where
  "parse_digits s =
    (if s \<noteq> [] \<and> list_all is_digit s then Some (foldl (\<lambda>n c. 10 * n + digit_value c) 0 s) else None)"

definition parse_nat :: "string \<Rightarrow> nat option" where
  "parse_nat s = (case s of c # cs \<Rightarrow> if c = CHR ''+'' then parse_digits cs else parse_digits s | [] \<Rightarrow> None)"

definition parse_word :: "string \<Rightarrow> 'a::len word option" where
  "parse_word s = (case parse_nat s of
     Some n \<Rightarrow> if n < 2 ^ LENGTH('a) then Some (of_nat n) else None
   | None \<Rightarrow> None)"

lemma digit_char_props [simp]:
  assumes "n < 10"
  shows "is_digit (digit_char n)" "digit_value (digit_char n) = n" "digit_char n \<noteq> CHR ''+''"
proof -
  have "byte_of (digit_char n) = 0x30 + n"
    using assms by (simp add: digit_char_def byte_of_def)
  then show "is_digit (digit_char n)" "digit_value (digit_char n) = n" "digit_char n \<noteq> CHR ''+''"
    using assms by (auto simp: is_digit_def digit_value_def byte_of_def)
qed

lemma decimal_digits: "list_all is_digit (decimal n)"
  by (induction n rule: decimal.induct) (subst decimal.simps, simp)

lemma decimal_value: "foldl (\<lambda>n c. 10 * n + digit_value c) 0 (decimal n) = n"
  by (induction n rule: decimal.induct) (subst decimal.simps, simp)

lemma parse_decimal [simp]: "parse_nat (decimal n) = Some n"
proof -
  obtain c cs where c: "decimal n = c # cs" by (cases "decimal n") simp_all
  then have "is_digit c" using decimal_digits [of n] by simp
  then have "c \<noteq> CHR ''+''" by (auto simp: is_digit_def byte_of_def)
  then show ?thesis
    using c decimal_digits [of n] decimal_value [of n] by (simp add: parse_nat_def parse_digits_def)
qed

lemma parse_word_decimal [simp]: "parse_word (decimal (unat w)) = Some (w :: 'a::len word)"
  by (simp add: parse_word_def)

section \<open>Pieces of a string\<close>

definition strip_prefix :: "string \<Rightarrow> string \<Rightarrow> string option" where
  "strip_prefix s pat = (if prefix pat s then Some (drop (length pat) s) else None)"

definition strip_suffix :: "string \<Rightarrow> string \<Rightarrow> string option" where
  "strip_suffix s pat = (if ends_with s pat then Some (take (length s - length pat) s) else None)"

lemma strip_suffix_Some_iff: "strip_suffix s pat = Some t \<longleftrightarrow> s = t @ pat"
  by (auto simp: strip_suffix_def ends_with_suffix suffix_def)

lemma strip_prefix_Some_iff: "strip_prefix s pat = Some t \<longleftrightarrow> s = pat @ t"
  by (auto simp: strip_prefix_def prefix_def)

text \<open>\<open>s.replace('/', \<dots>)\<close> with one character for another.\<close>

definition replace_char :: "char \<Rightarrow> char \<Rightarrow> string \<Rightarrow> string" where
  "replace_char a b s = map (\<lambda>c. if c = a then b else c) s"

definition split_once :: "char \<Rightarrow> string \<Rightarrow> (string \<times> string) option" where
  "split_once c s = (if c \<in> set s then Some (takeWhile (\<lambda>x. x \<noteq> c) s, tl (dropWhile (\<lambda>x. x \<noteq> c) s)) else None)"

lemma split_once_Some_iff: "split_once c s = Some (a, b) \<longleftrightarrow> s = a @ c # b \<and> c \<notin> set a"
proof -
  have "split_once c (a @ c # b) = Some (a, b)" if "c \<notin> set a"
  proof -
    have "takeWhile (\<lambda>x. x \<noteq> c) (a @ c # b) = a" "dropWhile (\<lambda>x. x \<noteq> c) (a @ c # b) = c # b"
      using that by (auto simp: takeWhile_append dropWhile_append)
    then show ?thesis by (simp add: split_once_def)
  qed
  moreover have "s = a @ c # b \<and> c \<notin> set a" if "split_once c s = Some (a, b)"
  proof -
    from that have mem: "c \<in> set s" and ab: "a = takeWhile (\<lambda>x. x \<noteq> c) s" "b = tl (dropWhile (\<lambda>x. x \<noteq> c) s)"
      by (auto simp: split_once_def split: if_splits)
    obtain d where "dropWhile (\<lambda>x. x \<noteq> c) s = c # d"
      using mem hd_dropWhile [of "\<lambda>x. x \<noteq> c" s] by (cases "dropWhile (\<lambda>x. x \<noteq> c) s") (auto simp: dropWhile_eq_Nil_conv)
    then show ?thesis
      using ab takeWhile_dropWhile_id [of "\<lambda>x. x \<noteq> c" s] set_takeWhileD [of c "\<lambda>x. x \<noteq> c" s] by auto
  qed
  ultimately show ?thesis by blast
qed

end
