(* ===== verification/Platform.thy ===== *)
theory Platform
  imports Texts Safe_Fs
begin

text \<open>
  The Android platform as the catalog sees it: the users of the device (\<open>platform/users.rs\<close>) and whether a
  user's credential-encrypted storage is unlocked (\<open>platform/encryption.rs\<close>).  The answers of \<open>std::fs\<close> and of the
  system properties are a parameter, functions of the state of the file system.  The lemmas characterise exactly
  when a storage counts as unlocked.
\<close>

text \<open>The queries of \<open>std::fs\<close>: \<open>exists\<close>, \<open>is_dir\<close>, the names of the readable entries of \<open>read_dir\<close>, the answer of an
  entry's \<open>metadata\<close>, the owner, \<open>canonicalize\<close>; and the property service.\<close>

record 'w FsView =
  fv_exists :: "string \<Rightarrow> 'w \<Rightarrow> bool"
  fv_is_dir :: "string \<Rightarrow> 'w \<Rightarrow> bool"
  fv_read_dir :: "string \<Rightarrow> 'w \<Rightarrow> string list option"
  fv_entry_metadata :: "string \<Rightarrow> string \<Rightarrow> 'w \<Rightarrow> (unit, errno) result"
  fv_owner :: "string \<Rightarrow> 'w \<Rightarrow> (u32 \<times> u32) option"
  fv_canonicalize :: "string \<Rightarrow> 'w \<Rightarrow> string option"
  fv_property :: "string \<Rightarrow> 'w \<Rightarrow> string option"

definition is_utf8 :: "string \<Rightarrow> bool" where
  "is_utf8 s = valid_utf8 (map byte_of s)"

section \<open>Users\<close>

record AndroidUser =
  au_user_id :: u32
  au_ce_path :: string
  au_de_path :: string
  au_media_path :: string

text \<open>The numbers among the names of a directory; the first directory holds files named after the user.\<close>

definition user_id_of :: "string \<Rightarrow> u32 option" where
  "user_id_of name = (if is_utf8 name then parse_word name else None)"

definition user_file_id :: "string \<Rightarrow> u32 option" where
  "user_file_id name =
    (if is_utf8 name then (case strip_suffix name ''.xml'' of Some num \<Rightarrow> parse_word num | None \<Rightarrow> None) else None)"

definition ids_in :: "(string \<Rightarrow> u32 option) \<Rightarrow> string list option \<Rightarrow> u32 list" where
  "ids_in f names = (case names of None \<Rightarrow> [] | Some ns \<Rightarrow> List.map_filter f ns)"

definition android_user :: "'w FsView \<Rightarrow> 'w \<Rightarrow> u32 \<Rightarrow> AndroidUser" where
  "android_user V w i =
    (let num = decimal (unat i);
         user_ce = ''/data/user/'' @ num;
         de_raw = ''/data/user_de/'' @ num;
         media_raw = ''/data/media/'' @ num
     in \<lparr> au_user_id = i,
          au_ce_path = (if i = 0 then (if fv_exists V ''/data/data'' w then ''/data/data'' else ''/data/user/0'')
                        else unwrap_or (fv_canonicalize V user_ce w) user_ce),
          au_de_path = unwrap_or (fv_canonicalize V de_raw w) de_raw,
          au_media_path = unwrap_or (fv_canonicalize V media_raw w) media_raw \<rparr>)"

definition enumerate_users :: "'w FsView \<Rightarrow> 'w \<Rightarrow> AndroidUser list" where
  "enumerate_users V w =
    (let ids = 0 # ids_in user_file_id (fv_read_dir V ''/data/system/users'' w)
             @ ids_in user_id_of (fv_read_dir V ''/data/user'' w)
             @ ids_in user_id_of (fv_read_dir V ''/data/user_de'' w)
             @ ids_in user_id_of (fv_read_dir V ''/data/media'' w)
             @ ids_in user_id_of (fv_read_dir V ''/data/misc/profiles/cur'' w)
     in map (android_user V w) (sort_dedup ids))"

section \<open>Encryption\<close>

datatype EncryptionState = Unencrypted | DeviceEncryptedOnly | FullyUnlocked | EncUnknown

abbreviation ENOKEY :: errno where "ENOKEY \<equiv> 126"

definition locked_errno :: "errno \<Rightarrow> bool" where
  "locked_errno e = (e = ENOKEY \<or> e = EACCES \<or> e = EPERM \<or> e = EIO)"

text \<open>The loop over the first entries: whether one could be read, and whether one was locked, where it stops.\<close>

fun probe_entries :: "(unit, errno) result list \<Rightarrow> bool \<Rightarrow> bool \<times> bool" where
  "probe_entries [] saw_ok = (saw_ok, False)"
| "probe_entries (Inr _ # es) saw_ok = probe_entries es True"
| "probe_entries (Inl e # es) saw_ok = (if locked_errno e then (saw_ok, True) else probe_entries es saw_ok)"

definition ce_user_dir :: "u32 \<Rightarrow> string" where
  "ce_user_dir i = (if i = 0 then ''/data/data'' else ''/data/user/'' @ decimal (unat i))"

definition de_user_dir :: "u32 \<Rightarrow> string" where
  "de_user_dir i = ''/data/user_de/'' @ decimal (unat i)"

definition reports_fbe :: "'w FsView \<Rightarrow> 'w \<Rightarrow> bool" where
  "reports_fbe V w =
    (unwrap_or (fv_property V ''ro.crypto.state'' w) ''unencrypted'' = ''encrypted'' \<and>
     (case fv_property V ''ro.crypto.type'' w of None \<Rightarrow> True | Some t \<Rightarrow> t = ''file'' \<or> t = ''filesystem''))"

definition check_encryption_state :: "'w FsView \<Rightarrow> 'w \<Rightarrow> u32 \<Rightarrow> EncryptionState" where
  "check_encryption_state V w i =
    (let ce = ce_user_dir i; de = de_user_dir i in
     if \<not> fv_exists V ''/data'' w then Unencrypted
     else if \<not> fv_exists V ce w \<and> \<not> fv_exists V de w then EncUnknown
     else if fv_exists V ce w
     then (case fv_read_dir V ce w of
        None \<Rightarrow> if fv_exists V de w then DeviceEncryptedOnly else EncUnknown
      | Some names \<Rightarrow>
          (case probe_entries (map (\<lambda>n. fv_entry_metadata V ce n w) (take 8 names)) False of
             (saw_ok, saw_locked) \<Rightarrow>
               if saw_locked then (if fv_exists V de w then DeviceEncryptedOnly else EncUnknown)
               else if saw_ok then FullyUnlocked
               else if reports_fbe V w \<and> fv_exists V de w then DeviceEncryptedOnly
               else if fv_exists V de w then DeviceEncryptedOnly
               else EncUnknown))
     else if fv_exists V de w then DeviceEncryptedOnly
     else EncUnknown)"

record StorageState =
  sst_ce_available :: bool
  sst_de_available :: bool
  sst_user_unlocked :: bool

definition StorageState_for_user :: "'w FsView \<Rightarrow> 'w \<Rightarrow> u32 \<Rightarrow> StorageState" where
  "StorageState_for_user V w i =
    (let enc = check_encryption_state V w i;
         ce = (enc = FullyUnlocked \<or> enc = Unencrypted)
     in \<lparr> sst_ce_available = ce,
          sst_de_available = (enc = FullyUnlocked \<or> enc = DeviceEncryptedOnly \<or> enc = Unencrypted),
          sst_user_unlocked = ce \<rparr>)"

section \<open>Lemmas\<close>

lemma probe_entries_spec:
  "probe_entries es ok = (a, b) \<Longrightarrow>
    (b \<longleftrightarrow> (\<exists>e\<in>set es. \<exists>n. e = Inl n \<and> locked_errno n)) \<and> (\<not> b \<longrightarrow> (a \<longleftrightarrow> ok \<or> Inr () \<in> set es))"
  by (induction es ok rule: probe_entries.induct) (auto split: if_splits)

text \<open>The property service makes no difference.\<close>

lemma check_encryption_state_cases:
  "check_encryption_state V w i =
    (let ce = ce_user_dir i; de = de_user_dir i;
         probed = map (\<lambda>n. fv_entry_metadata V ce n w) (take 8 (unwrap_or (fv_read_dir V ce w) [])) in
     if \<not> fv_exists V ''/data'' w then Unencrypted
     else if fv_exists V ce w \<and> Inr () \<in> set probed \<and> \<not> (\<exists>e. locked_errno e \<and> Inl e \<in> set probed) then FullyUnlocked
     else if fv_exists V de w then DeviceEncryptedOnly
     else EncUnknown)"
proof (cases "fv_read_dir V (ce_user_dir i) w")
  case None
  then show ?thesis by (simp add: check_encryption_state_def Let_def)
next
  case (Some names)
  define rs where "rs = map (\<lambda>n. fv_entry_metadata V (ce_user_dir i) n w) (take 8 names)"
  obtain ok lk where p: "probe_entries rs False = (ok, lk)" by fastforce
  define L where "L \<longleftrightarrow> (\<exists>e. locked_errno e \<and> Inl e \<in> set rs)"
  have lk: "lk = L" and ok: "\<not> L \<Longrightarrow> ok = (Inr () \<in> set rs)"
    using probe_entries_spec [OF p] unfolding L_def by blast+
  show ?thesis
    unfolding check_encryption_state_def Let_def Some unwrap_or_simps option.case rs_def [symmetric] p prod.case
      lk L_def [symmetric]
    by (cases L; cases ok; cases "fv_exists V (ce_user_dir i) w"; cases "fv_exists V (de_user_dir i) w")
      (use ok in simp_all)
qed

text \<open>Storage is opened fail-closed: a user's credential-encrypted storage counts as available exactly when there
  is no /data at all, or the user's directory exists, one of its first eight entries could be queried, and none of
  them answered with one of the errors of a missing key; device-encrypted storage then, or when its directory exists.
  The property service that reports the encryption of the device makes no difference.\<close>

theorem storage_fail_closed:
  "let ce = ce_user_dir i;
       probed = map (\<lambda>n. fv_entry_metadata V ce n w) (take 8 (unwrap_or (fv_read_dir V ce w) []));
       unlocked = (\<not> fv_exists V ''/data'' w \<or> (fv_exists V ce w \<and> Inr () \<in> set probed \<and>
         list_all (\<lambda>r. case r of Inl e \<Rightarrow> \<not> locked_errno e | Inr _ \<Rightarrow> True) probed))
   in StorageState_for_user V w i =
        \<lparr> sst_ce_available = unlocked, sst_de_available = (unlocked \<or> fv_exists V (de_user_dir i) w),
          sst_user_unlocked = unlocked \<rparr> \<and>
      StorageState_for_user (V\<lparr>fv_property := props\<rparr>) w i = StorageState_for_user V w i"
proof -
  have no_lock: "list_all (\<lambda>r. case r of Inl e \<Rightarrow> \<not> locked_errno e | Inr _ \<Rightarrow> True) rs \<longleftrightarrow>
      \<not> (\<exists>e. locked_errno e \<and> Inl e \<in> set rs)" for rs :: "(unit, errno) result list"
    by (auto simp: list_all_iff split: sum.splits)
  have same: "fv_exists (V\<lparr>fv_property := props\<rparr>) = fv_exists V" "fv_read_dir (V\<lparr>fv_property := props\<rparr>) = fv_read_dir V"
    "fv_entry_metadata (V\<lparr>fv_property := props\<rparr>) = fv_entry_metadata V" by simp_all
  have "check_encryption_state (V\<lparr>fv_property := props\<rparr>) w i = check_encryption_state V w i"
    unfolding check_encryption_state_cases same by (rule refl)
  then have props: "StorageState_for_user (V\<lparr>fv_property := props\<rparr>) w i = StorageState_for_user V w i"
    by (simp add: StorageState_for_user_def)
  define rs where "rs = map (\<lambda>n. fv_entry_metadata V (ce_user_dir i) n w) (take 8 (unwrap_or (fv_read_dir V (ce_user_dir i) w) []))"
  define U where "U \<longleftrightarrow> fv_exists V (ce_user_dir i) w \<and> Inr () \<in> set rs \<and> \<not> (\<exists>e. locked_errno e \<and> Inl e \<in> set rs)"
  have enc: "check_encryption_state V w i =
      (if \<not> fv_exists V ''/data'' w then Unencrypted else if U then FullyUnlocked
       else if fv_exists V (de_user_dir i) w then DeviceEncryptedOnly else EncUnknown)"
    using check_encryption_state_cases [of V w i] unfolding Let_def rs_def [symmetric] U_def [symmetric] .
  have "StorageState_for_user V w i =
      \<lparr> sst_ce_available = (\<not> fv_exists V ''/data'' w \<or> U),
        sst_de_available = ((\<not> fv_exists V ''/data'' w \<or> U) \<or> fv_exists V (de_user_dir i) w),
        sst_user_unlocked = (\<not> fv_exists V ''/data'' w \<or> U) \<rparr>"
    unfolding StorageState_for_user_def enc Let_def by (cases "fv_exists V ''/data'' w"; cases U) simp_all
  with props show ?thesis
    unfolding Let_def rs_def [symmetric] no_lock U_def [symmetric] by (rule conjI [rotated])
qed

end
