(* ===== verification/Catalog.thy ===== *)
theory Catalog
  imports Platform Verifier Safety_Gate "HOL-Library.AList"
begin

text \<open>
  The target catalog of \<open>catalog/mod.rs\<close>: discovery of the cache directories of all users, of external storage
  and of the system's junk directories, each opened through the kernel and recorded with its identity, and the
  atomic replacement of the published snapshot.  A snapshot is an association list without repeated keys; the
  order in which the hash map iterates is left open.  The lemmas show what a published snapshot contains, that
  discovery changes nothing on disk, and that of two directories with the same target id the first one stays.
\<close>

definition KNOWN_CACHE_SUBDIRS :: "string list" where
  "KNOWN_CACHE_SUBDIRS =
    [''cache'', ''.cache'', ''app_webview/Default/Cache'', ''app_webview/Default/Code Cache'',
     ''app_webview/Default/GPUCache'', ''app_textures'', ''splash_cache'', ''image_cache'', ''fresco_cache'',
     ''glide_cache'', ''coil_cache'', ''http-engine-cache'', ''picasso-cache'', ''volley'', ''disk_cache'',
     ''network_cache'']"

definition SYSTEM_JUNK_LOCATIONS :: "(string \<times> TargetClass \<times> TargetSafetyTier) list" where
  "SYSTEM_JUNK_LOCATIONS =
    [(''/data/anr'', Tombstones, StandardCache),
     (''/data/tombstones'', Tombstones, StandardCache),
     (''/data/system/dropbox'', LogArchive, StandardCache),
     (''/data/local/tmp'', TempDir, StandardCache)]"

primrec tier_num :: "TargetSafetyTier \<Rightarrow> nat" where
  "tier_num StandardCache = 0"
| "tier_num RequiresColdApp = 1"
| "tier_num ReadOnlyInspection = 2"
| "tier_num ProtectedSystem = 3"

type_synonym staging = "(TargetId \<times> TargetDescriptor) list"

section \<open>The catalog\<close>

record TargetCatalog =
  cat_snapshot :: CatalogSnapshot

definition TargetCatalog_new :: TargetCatalog where
  "TargetCatalog_new =
    \<lparr> cat_snapshot = \<lparr> snap_generation = CatalogGeneration_INITIAL, snap_targets = [] \<rparr> \<rparr>"

definition current_generation :: "TargetCatalog \<Rightarrow> CatalogGeneration" where
  "current_generation c = snap_generation (cat_snapshot c)"

definition take_snapshot :: "TargetCatalog \<Rightarrow> CatalogSnapshot" where
  "take_snapshot c = cat_snapshot c"

definition register_target :: "TargetDescriptor \<Rightarrow> TargetCatalog \<Rightarrow> TargetCatalog" where
  "register_target d c =
    \<lparr> cat_snapshot = \<lparr> snap_generation = snap_generation (cat_snapshot c),
        snap_targets = AList.update (td_target_id d) d (snap_targets (cat_snapshot c)) \<rparr> \<rparr>"

section \<open>Discovery\<close>

definition user_target_id :: "u32 \<Rightarrow> string \<Rightarrow> string \<Rightarrow> string" where
  "user_target_id user_id pkg sub =
    (if user_id = 0
     then (if sub = ''cache'' then ''android:'' @ pkg @ '':cache''
           else ''android:'' @ pkg @ '':'' @ replace_char (CHR ''/'') (CHR ''_'') sub @ '':cache'')
     else if sub = ''cache'' then ''android:u'' @ decimal (unat user_id) @ '':'' @ pkg @ '':cache''
     else ''android:u'' @ decimal (unat user_id) @ '':'' @ pkg @ '':'' @ replace_char (CHR ''/'') (CHR ''_'') sub
          @ '':cache'')"

text \<open>The subdirectories of one package.\<close>

fun collect_subdirs ::
  "('h, 'w) Kernel \<Rightarrow> 'w FsView \<Rightarrow> string \<Rightarrow> string \<Rightarrow> u32 \<Rightarrow> CatalogGeneration \<Rightarrow> string list \<Rightarrow> nat \<Rightarrow> staging
    \<Rightarrow> ('h, 'w) Proc \<Rightarrow> nat \<times> staging \<times> ('h, 'w) Proc" where
  "collect_subdirs K V pkg_path pkg user_id gen [] count out p = (count, out, p)"
| "collect_subdirs K V pkg_path pkg user_id gen (sub # subs) count out p =
    (let cache_dir = path_push pkg_path sub in
     case open_root K cache_dir p of
       (Inl _, p1) \<Rightarrow> collect_subdirs K V pkg_path pkg user_id gen subs count out p1
     | (Inr h, p1) \<Rightarrow>
        (let (owner_uid, owner_gid) = unwrap_or (fv_owner V cache_dir (world p1)) (0, 0) in
         case TargetId_try_new (user_target_id user_id pkg sub) of
           None \<Rightarrow> collect_subdirs K V pkg_path pkg user_id gen subs count out p1
         | Some tid \<Rightarrow>
             if (case map_of out tid of
                   Some existing \<Rightarrow> tier_num (td_safety_tier existing) \<le> tier_num StandardCache
                 | None \<Rightarrow> False)
             then collect_subdirs K V pkg_path pkg user_id gen subs count out p1
             else collect_subdirs K V pkg_path pkg user_id gen subs (count + 1)
                    (AList.update tid
                      \<lparr> td_target_id = tid, td_class = AppCache, td_base_path = cache_dir, td_dev = sh_dev h,
                        td_ino = sh_ino h, td_owner_uid = owner_uid, td_owner_gid = owner_gid,
                        td_package_name = Some pkg, td_safety_tier = StandardCache,
                        td_catalog_generation = gen \<rparr> out) p1))"

fun collect_packages ::
  "('h, 'w) Kernel \<Rightarrow> 'w FsView \<Rightarrow> string \<Rightarrow> u32 \<Rightarrow> CatalogGeneration \<Rightarrow> string list \<Rightarrow> nat \<Rightarrow> staging
    \<Rightarrow> ('h, 'w) Proc \<Rightarrow> nat \<times> staging \<times> ('h, 'w) Proc" where
  "collect_packages K V user_base user_id gen [] count out p = (count, out, p)"
| "collect_packages K V user_base user_id gen (name # names) count out p =
    (let pkg_path = path_push user_base name in
     if \<not> fv_is_dir V pkg_path (world p) then collect_packages K V user_base user_id gen names count out p
     else if \<not> is_utf8 name \<or> name = [] \<or> length name > 255 \<or> CHR 0x00 \<in> set name
     then collect_packages K V user_base user_id gen names count out p
     else if length out > 5000 then (count, out, p)
     else case collect_subdirs K V pkg_path name user_id gen KNOWN_CACHE_SUBDIRS count out p of
       (count1, out1, p1) \<Rightarrow> collect_packages K V user_base user_id gen names count1 out1 p1)"

definition collect_android_user_targets ::
  "('h, 'w) Kernel \<Rightarrow> 'w FsView \<Rightarrow> string \<Rightarrow> u32 \<Rightarrow> CatalogGeneration \<Rightarrow> staging \<Rightarrow> ('h, 'w) Proc
    \<Rightarrow> nat \<times> staging \<times> ('h, 'w) Proc" where
  "collect_android_user_targets K V user_base user_id gen out p =
    (case fv_read_dir V user_base (world p) of
       None \<Rightarrow> (0, out, p)
     | Some names \<Rightarrow> collect_packages K V user_base user_id gen names 0 out p)"

fun collect_external ::
  "('h, 'w) Kernel \<Rightarrow> 'w FsView \<Rightarrow> string \<Rightarrow> u32 \<Rightarrow> CatalogGeneration \<Rightarrow> string list \<Rightarrow> nat \<Rightarrow> staging
    \<Rightarrow> ('h, 'w) Proc \<Rightarrow> nat \<times> staging \<times> ('h, 'w) Proc" where
  "collect_external K V data_dir user_id gen [] count out p = (count, out, p)"
| "collect_external K V data_dir user_id gen (name # names) count out p =
    (let pkg_path = path_push data_dir name; cache_dir = path_push pkg_path ''cache'' in
     if \<not> fv_is_dir V pkg_path (world p) \<or> \<not> is_utf8 name
     then collect_external K V data_dir user_id gen names count out p
     else case open_root K cache_dir p of
       (Inl _, p1) \<Rightarrow> collect_external K V data_dir user_id gen names count out p1
     | (Inr h, p1) \<Rightarrow>
        (case TargetId_try_new (''android:u'' @ decimal (unat user_id) @ '':'' @ name @ '':ext_cache'') of
           None \<Rightarrow> collect_external K V data_dir user_id gen names count out p1
         | Some tid \<Rightarrow>
            (let (owner_uid, owner_gid) = unwrap_or (fv_owner V cache_dir (world p1)) (0, 0) in
             collect_external K V data_dir user_id gen names (count + 1)
               (AList.update tid
                 \<lparr> td_target_id = tid, td_class = ExternalCache, td_base_path = cache_dir, td_dev = sh_dev h,
                   td_ino = sh_ino h, td_owner_uid = owner_uid, td_owner_gid = owner_gid,
                   td_package_name = Some name, td_safety_tier = StandardCache,
                   td_catalog_generation = gen \<rparr> out) p1)))"

definition collect_android_external_targets ::
  "('h, 'w) Kernel \<Rightarrow> 'w FsView \<Rightarrow> string \<Rightarrow> u32 \<Rightarrow> CatalogGeneration \<Rightarrow> staging \<Rightarrow> ('h, 'w) Proc
    \<Rightarrow> nat \<times> staging \<times> ('h, 'w) Proc" where
  "collect_android_external_targets K V media_base user_id gen out p =
    (let data_dir = path_push media_base ''Android/data'' in
     case fv_read_dir V data_dir (world p) of
       None \<Rightarrow> (0, out, p)
     | Some names \<Rightarrow> collect_external K V data_dir user_id gen names 0 out p)"

text \<open>\<open>TargetId::new\<close> does not panic on the ids of the fixed locations.\<close>

definition system_target_id :: "string \<Rightarrow> TargetId" where
  "system_target_id path = the (TargetId_new (''system:'' @ replace_char (CHR ''/'') (CHR ''_'') path))"

fun collect_system ::
  "('h, 'w) Kernel \<Rightarrow> 'w FsView \<Rightarrow> CatalogGeneration \<Rightarrow> (string \<times> TargetClass \<times> TargetSafetyTier) list \<Rightarrow> nat
    \<Rightarrow> staging \<Rightarrow> ('h, 'w) Proc \<Rightarrow> nat \<times> staging \<times> ('h, 'w) Proc" where
  "collect_system K V gen [] count out p = (count, out, p)"
| "collect_system K V gen ((path, cls, tier) # locs) count out p =
    (case open_root K path p of
       (Inl _, p1) \<Rightarrow> collect_system K V gen locs count out p1
     | (Inr h, p1) \<Rightarrow>
        (let (owner_uid, owner_gid) = unwrap_or (fv_owner V path (world p1)) (0, 0);
             tid = system_target_id path in
         collect_system K V gen locs (count + 1)
           (AList.update tid
             \<lparr> td_target_id = tid, td_class = cls, td_base_path = path, td_dev = sh_dev h, td_ino = sh_ino h,
               td_owner_uid = owner_uid, td_owner_gid = owner_gid, td_package_name = None,
               td_safety_tier = tier, td_catalog_generation = gen \<rparr> out) p1))"

definition collect_system_targets ::
  "('h, 'w) Kernel \<Rightarrow> 'w FsView \<Rightarrow> CatalogGeneration \<Rightarrow> staging \<Rightarrow> ('h, 'w) Proc
    \<Rightarrow> nat \<times> staging \<times> ('h, 'w) Proc" where
  "collect_system_targets K V gen out p = collect_system K V gen SYSTEM_JUNK_LOCATIONS 0 out p"

definition next_generation :: "CatalogGeneration \<Rightarrow> CatalogGeneration" where
  "next_generation cur = (case CatalogGeneration_next cur of Inr g \<Rightarrow> g | Inl _ \<Rightarrow> cur)"

text \<open>What discovery does for one user, by the state of that user's storage.\<close>

definition discover_user ::
  "('h, 'w) Kernel \<Rightarrow> 'w FsView \<Rightarrow> CatalogGeneration \<Rightarrow> AndroidUser \<Rightarrow> bool \<times> staging \<times> ('h, 'w) Proc
    \<Rightarrow> bool \<times> staging \<times> ('h, 'w) Proc" where
  "discover_user K V gen u st = (case st of (found_any_user, out, p) \<Rightarrow>
    (case check_encryption_state V (world p) (au_user_id u) of
       EncUnknown \<Rightarrow> (found_any_user, out, p)
     | DeviceEncryptedOnly \<Rightarrow>
         (True, snd (collect_android_user_targets K V (au_de_path u) (au_user_id u) gen out p))
     | _ \<Rightarrow>
         (case collect_android_user_targets K V (au_ce_path u) (au_user_id u) gen out p of (_, out1, p1) \<Rightarrow>
          case collect_android_user_targets K V (au_de_path u) (au_user_id u) gen out1 p1 of (_, out2, p2) \<Rightarrow>
            (True, snd (collect_android_external_targets K V (au_media_path u) (au_user_id u) gen out2 p2)))))"

definition discover_fallback ::
  "('h, 'w) Kernel \<Rightarrow> 'w FsView \<Rightarrow> CatalogGeneration \<Rightarrow> staging \<times> ('h, 'w) Proc \<Rightarrow> staging \<times> ('h, 'w) Proc" where
  "discover_fallback K V gen st =
    fold (\<lambda>base (out, p). snd (collect_android_user_targets K V base 0 gen out p))
      [''/data/user/0'', ''/data/user_de/0'', ''/data/data''] st"

definition discover_all_targets ::
  "('h, 'w) Kernel \<Rightarrow> 'w FsView \<Rightarrow> TargetCatalog \<Rightarrow> ('h, 'w) Proc \<Rightarrow> TargetCatalog \<times> ('h, 'w) Proc" where
  "discover_all_targets K V c p =
    (let gen = next_generation (current_generation c) in
     case fold (discover_user K V gen) (enumerate_users V (world p)) (False, [], p) of
       (found_any_user, out, p1) \<Rightarrow>
     case (if found_any_user then (out, p1) else discover_fallback K V gen (out, p1)) of
       (out2, p2) \<Rightarrow>
     case collect_system_targets K V gen out2 p2 of
       (_, out3, p3) \<Rightarrow>
         if out3 \<noteq> [] \<or> snap_targets (cat_snapshot c) = []
         then (\<lparr> cat_snapshot = \<lparr> snap_generation = gen, snap_targets = out3 \<rparr> \<rparr>, p3)
         else (c, p3))"

section \<open>Incremental registration\<close>

definition register_all :: "staging \<Rightarrow> TargetCatalog \<Rightarrow> TargetCatalog" where
  "register_all out c = fold (\<lambda>(_, d). register_target d) out c"

definition discover_android_user_targets_for_user ::
  "('h, 'w) Kernel \<Rightarrow> 'w FsView \<Rightarrow> string \<Rightarrow> u32 \<Rightarrow> TargetCatalog \<Rightarrow> ('h, 'w) Proc
    \<Rightarrow> nat \<times> TargetCatalog \<times> ('h, 'w) Proc" where
  "discover_android_user_targets_for_user K V base user_id c p =
    (case collect_android_user_targets K V base user_id (current_generation c) [] p of
       (n, out, p1) \<Rightarrow> (n, register_all out c, p1))"

definition discover_android_user_targets ::
  "('h, 'w) Kernel \<Rightarrow> 'w FsView \<Rightarrow> string \<Rightarrow> TargetCatalog \<Rightarrow> ('h, 'w) Proc
    \<Rightarrow> nat \<times> TargetCatalog \<times> ('h, 'w) Proc" where
  "discover_android_user_targets K V base c p = discover_android_user_targets_for_user K V base 0 c p"

definition discover_android_external_targets ::
  "('h, 'w) Kernel \<Rightarrow> 'w FsView \<Rightarrow> string \<Rightarrow> u32 \<Rightarrow> TargetCatalog \<Rightarrow> ('h, 'w) Proc
    \<Rightarrow> nat \<times> TargetCatalog \<times> ('h, 'w) Proc" where
  "discover_android_external_targets K V base user_id c p =
    (case collect_android_external_targets K V base user_id (current_generation c) [] p of
       (n, out, p1) \<Rightarrow> (n, register_all out c, p1))"

definition discover_system_targets ::
  "('h, 'w) Kernel \<Rightarrow> 'w FsView \<Rightarrow> TargetCatalog \<Rightarrow> ('h, 'w) Proc \<Rightarrow> nat \<times> TargetCatalog \<times> ('h, 'w) Proc" where
  "discover_system_targets K V c p =
    (case collect_system_targets K V (current_generation c) [] p of
       (n, out, p1) \<Rightarrow> (n, register_all out c, p1))"

definition register_target_simple ::
  "('h, 'w) Kernel \<Rightarrow> 'w FsView \<Rightarrow> string \<Rightarrow> string \<Rightarrow> TargetSafetyTier \<Rightarrow> TargetClass \<Rightarrow> string \<Rightarrow> TargetCatalog
    \<Rightarrow> ('h, 'w) Proc \<Rightarrow> (TargetCatalog, Failure) result \<times> ('h, 'w) Proc" where
  "register_target_simple K V target_id base_path tier cls pkg c p =
    (case open_root K base_path p of
       (Inl e, p1) \<Rightarrow> (Inl (Err e), p1)
     | (Inr h, p1) \<Rightarrow>
        (let (owner_uid, owner_gid) = unwrap_or (fv_owner V base_path (world p1)) (0, 0) in
         case TargetId_new target_id of
           None \<Rightarrow> (Inl (Panic ''Invalid TargetId''), p1)
         | Some tid \<Rightarrow>
             (Inr (register_target
                \<lparr> td_target_id = tid, td_class = cls, td_base_path = base_path, td_dev = sh_dev h,
                  td_ino = sh_ino h, td_owner_uid = owner_uid, td_owner_gid = owner_gid,
                  td_package_name = (if pkg = [] then None else Some pkg), td_safety_tier = tier,
                  td_catalog_generation = current_generation c \<rparr> c), p1)))"

definition refresh_generation :: "TargetCatalog \<Rightarrow> CatalogGeneration \<times> TargetCatalog" where
  "refresh_generation c =
    (let g = next_generation (current_generation c)
     in (g, \<lparr> cat_snapshot = \<lparr> snap_generation = g, snap_targets = snap_targets (cat_snapshot c) \<rparr> \<rparr>))"

section \<open>What discovery collects\<close>

text \<open>Where a target may lie: a known subdirectory of a package, the external cache of a package, or one of the
  fixed locations, with the matching class and package.\<close>

definition located :: "TargetDescriptor \<Rightarrow> bool" where
  "located d \<longleftrightarrow>
    (\<exists>base pkg sub. td_class d = AppCache \<and> sub \<in> set KNOWN_CACHE_SUBDIRS \<and> td_package_name d = Some pkg \<and>
       is_utf8 pkg \<and> pkg \<noteq> [] \<and> length pkg \<le> 255 \<and> td_base_path d = path_push (path_push base pkg) sub) \<or>
    (\<exists>base pkg. td_class d = ExternalCache \<and> td_package_name d = Some pkg \<and> is_utf8 pkg \<and>
       td_base_path d = path_push (path_push (path_push base ''Android/data'') pkg) ''cache'') \<or>
    (td_package_name d = None \<and> (td_base_path d, td_class d, td_safety_tier d) \<in> set SYSTEM_JUNK_LOCATIONS)"

text \<open>The directory was opened and its identity read by the calls \<open>evs\<close>.\<close>

definition observed :: "'h SysEvent list \<Rightarrow> TargetDescriptor \<Rightarrow> bool" where
  "observed evs d \<longleftrightarrow> (\<exists>fd. SysOpen (td_base_path d) (Inr fd) \<in> set evs \<and>
     SysFstat fd (Inr (FileIdentity_new (td_dev d) (td_ino d))) \<in> set evs)"

definition target_ok :: "CatalogGeneration \<Rightarrow> 'h SysEvent list \<Rightarrow> TargetId \<Rightarrow> TargetDescriptor \<Rightarrow> bool" where
  "target_ok gen evs t d \<longleftrightarrow> td_target_id d = t \<and> td_catalog_generation d = gen \<and>
     td_safety_tier d = StandardCache \<and> located d \<and> observed evs d"

definition staging_ok :: "CatalogGeneration \<Rightarrow> 'h SysEvent list \<Rightarrow> staging \<Rightarrow> bool" where
  "staging_ok gen evs out \<longleftrightarrow> distinct (map fst out) \<and> (\<forall>(t, d)\<in>set out. target_ok gen evs t d)"

definition collects ::
  "CatalogGeneration \<Rightarrow> staging \<times> ('h, 'w) Proc \<Rightarrow> staging \<times> ('h, 'w) Proc \<Rightarrow> bool" where
  "collects gen st st' \<longleftrightarrow> (\<exists>evs. extends (snd st) (snd st') evs \<and> no_unlink evs \<and>
     (\<forall>evs0. staging_ok gen evs0 (fst st) \<longrightarrow> staging_ok gen (evs0 @ evs) (fst st')))"

lemma target_ok_mono: "target_ok gen evs t d \<Longrightarrow> set evs \<subseteq> set evs' \<Longrightarrow> target_ok gen evs' t d"
  unfolding target_ok_def observed_def by blast

lemma staging_ok_mono: "staging_ok gen evs out \<Longrightarrow> staging_ok gen (evs @ evs') out"
  unfolding staging_ok_def using target_ok_mono [of gen evs _ _ "evs @ evs'"] by auto

lemma collects_refl [simp]: "collects gen st st"
  unfolding collects_def by (rule exI [of _ "[]"]) simp

lemma collects_trans:
  assumes "collects gen a b" "collects gen b c"
  shows "collects gen a c"
proof -
  obtain evs where 1: "extends (snd a) (snd b) evs" "no_unlink evs"
    "\<And>evs0. staging_ok gen evs0 (fst a) \<Longrightarrow> staging_ok gen (evs0 @ evs) (fst b)"
    using assms(1) unfolding collects_def by blast
  obtain evs' where 2: "extends (snd b) (snd c) evs'" "no_unlink evs'"
    "\<And>evs0. staging_ok gen evs0 (fst b) \<Longrightarrow> staging_ok gen (evs0 @ evs') (fst c)"
    using assms(2) unfolding collects_def by blast
  show ?thesis
    unfolding collects_def
    using extends_trans [OF 1(1) 2(1)] 1(2,3) 2(2,3) by (intro exI [of _ "evs @ evs'"]) (auto simp flip: append_assoc)
qed

lemma open_root_observed:
  assumes "open_root K path p = (r, p1)"
  shows "\<exists>evs. extends p p1 evs \<and> no_unlink evs \<and>
    (\<forall>h. r = Inr h \<longrightarrow> evs = [SysOpen path (Inr (sh_fd h)), SysFstat (sh_fd h) (Inr (FileIdentity_new (sh_dev h) (sh_ino h)))])"
  using assms
  by (auto simp: open_root_def open_root_with_permit_def sys_open_def sys_fstat_def extends_def log_event_def
      stat_identity_def split: prod.splits sum.splits)

lemma collects_open: "open_root K path p = (r, p1) \<Longrightarrow> collects gen (out, p) (out, p1)"
  using open_root_observed [of K path p r p1] staging_ok_mono unfolding collects_def by fastforce

lemma collects_insert:
  assumes "open_root K (td_base_path d) p = (Inr h, p1)" "td_dev d = sh_dev h" "td_ino d = sh_ino h"
    and "td_target_id d = t" "td_catalog_generation d = gen" "td_safety_tier d = StandardCache" "located d"
  shows "collects gen (out, p) (AList.update t d out, p1)"
proof -
  obtain evs where evs: "extends p p1 evs" "no_unlink evs" "observed evs d"
    using open_root_observed [OF assms(1)] assms(2,3) by (force simp: observed_def)
  have "staging_ok gen (evs0 @ evs) (AList.update t d out)" if ok: "staging_ok gen evs0 out" for evs0
  proof -
    have "target_ok gen (evs0 @ evs) t d"
      using evs(3) assms(4-7) unfolding target_ok_def observed_def by auto
    moreover have "target_ok gen (evs0 @ evs) t' d'" if "(t', d') \<in> set out" for t' d'
      using that staging_ok_mono [OF ok, of evs] by (auto simp: staging_ok_def)
    moreover have "set (AList.update t d out) \<subseteq> insert (t, d) (set out)"
      by (induction out) auto
    ultimately show ?thesis
      using ok unfolding staging_ok_def by (auto simp: AList.distinct_update)
  qed
  then show ?thesis using evs(1,2) unfolding collects_def by auto
qed

lemma collect_subdirs_collects:
  "is_utf8 pkg \<Longrightarrow> pkg \<noteq> [] \<Longrightarrow> length pkg \<le> 255 \<Longrightarrow> set subs \<subseteq> set KNOWN_CACHE_SUBDIRS \<Longrightarrow>
    collects gen (out, p) (snd (collect_subdirs K V (path_push base pkg) pkg user_id gen subs count out p))"
proof (induction subs arbitrary: count out p)
  case (Cons sub subs)
  let ?dir = "path_push (path_push base pkg) sub"
  obtain r p1 where opn: "open_root K ?dir p = (r, p1)" by fastforce
  note IH = Cons.IH [OF Cons.prems(1-3)]
  have skip: "collects gen (out, p) (snd (collect_subdirs K V (path_push base pkg) pkg user_id gen subs n out p1))" for n
    using collects_trans [OF collects_open [OF opn] IH] Cons.prems(4) by simp
  show ?case
  proof (cases r)
    case (Inl e)
    then show ?thesis using opn skip by (simp add: Let_def)
  next
    case (Inr h)
    obtain u g where own: "unwrap_or (fv_owner V ?dir (world p1)) (0, 0) = (u, g)" by fastforce
    show ?thesis
    proof (cases "TargetId_try_new (user_target_id user_id pkg sub)")
      case None
      then show ?thesis using opn Inr own skip by (simp add: Let_def)
    next
      case (Some tid)
      let ?d = "\<lparr> td_target_id = tid, td_class = AppCache, td_base_path = ?dir, td_dev = sh_dev h,
          td_ino = sh_ino h, td_owner_uid = u, td_owner_gid = g, td_package_name = Some pkg,
          td_safety_tier = StandardCache, td_catalog_generation = gen \<rparr>"
      have "located ?d" using Cons.prems unfolding located_def by (intro disjI1) auto
      then have "collects gen (out, p) (AList.update tid ?d out, p1)"
        using opn Inr by (intro collects_insert) simp_all
      then have "collects gen (out, p) (snd (collect_subdirs K V (path_push base pkg) pkg user_id gen subs n
          (AList.update tid ?d out) p1))" for n
        using collects_trans [OF _ IH] Cons.prems(4) by simp
      then show ?thesis using opn Inr own Some skip by (simp add: Let_def)
    qed
  qed
qed simp

lemma collect_packages_collects:
  "collects gen (out, p) (snd (collect_packages K V base user_id gen names count out p))"
proof (induction names arbitrary: count out p)
  case (Cons name names)
  obtain n out1 p1 where sub: "collect_subdirs K V (path_push base name) name user_id gen KNOWN_CACHE_SUBDIRS count out p
      = (n, out1, p1)" by (rule prod_cases3)
  have "collects gen (out, p) (out1, p1)" if "is_utf8 name" "name \<noteq> []" "length name \<le> 255"
    using collect_subdirs_collects [OF that, of KNOWN_CACHE_SUBDIRS gen out p K V base user_id count] sub by simp
  then show ?case
    using Cons.IH collects_trans [OF _ Cons.IH] sub by (auto simp: Let_def not_less)
qed simp

lemma collect_user_collects: "collects gen (out, p) (snd (collect_android_user_targets K V base user_id gen out p))"
  by (simp add: collect_android_user_targets_def collect_packages_collects split: option.splits)

lemma collect_external_collects:
  "collects gen (out, p) (snd (collect_external K V (path_push base ''Android/data'') user_id gen names count out p))"
proof (induction names arbitrary: count out p)
  case (Cons name names)
  let ?dir = "path_push (path_push (path_push base ''Android/data'') name) ''cache''"
  obtain r p1 where opn: "open_root K ?dir p = (r, p1)" by fastforce
  have skip: "collects gen (out, p) (snd (collect_external K V (path_push base ''Android/data'') user_id gen names n out p1))" for n
    using collects_trans [OF collects_open [OF opn] Cons.IH] .
  show ?case
  proof (cases r)
    case (Inl e)
    then show ?thesis using opn skip Cons.IH by (simp add: Let_def)
  next
    case (Inr h)
    obtain u g where own: "unwrap_or (fv_owner V ?dir (world p1)) (0, 0) = (u, g)" by fastforce
    show ?thesis
    proof (cases "TargetId_try_new (''android:u'' @ decimal (unat user_id) @ '':'' @ name @ '':ext_cache'')")
      case None
      then show ?thesis using opn Inr skip Cons.IH by (simp add: Let_def)
    next
      case (Some tid)
      let ?d = "\<lparr> td_target_id = tid, td_class = ExternalCache, td_base_path = ?dir, td_dev = sh_dev h,
          td_ino = sh_ino h, td_owner_uid = u, td_owner_gid = g, td_package_name = Some name,
          td_safety_tier = StandardCache, td_catalog_generation = gen \<rparr>"
      have "collects gen (out, p) (AList.update tid ?d out, p1)" if "is_utf8 name"
        using opn Inr that by (intro collects_insert) (auto simp: located_def)
      then have "collects gen (out, p) (snd (collect_external K V (path_push base ''Android/data'') user_id gen names n
          (AList.update tid ?d out) p1))" if "is_utf8 name" for n
        using collects_trans Cons.IH that by blast
      then show ?thesis using opn Inr own Some skip Cons.IH by (simp add: Let_def)
    qed
  qed
qed simp

lemma collect_media_collects: "collects gen (out, p) (snd (collect_android_external_targets K V base user_id gen out p))"
  by (simp add: collect_android_external_targets_def collect_external_collects Let_def split: option.splits)

lemma collect_system_collects:
  "set locs \<subseteq> set SYSTEM_JUNK_LOCATIONS \<Longrightarrow> collects gen (out, p) (snd (collect_system K V gen locs count out p))"
proof (induction locs arbitrary: count out p)
  case (Cons l locs)
  obtain path cls tier where l: "l = (path, cls, tier)" by (rule prod_cases3)
  have tier: "tier = StandardCache" using Cons.prems l by (auto simp: SYSTEM_JUNK_LOCATIONS_def)
  obtain r p1 where opn: "open_root K path p = (r, p1)" by fastforce
  show ?case
  proof (cases r)
    case (Inl e)
    then show ?thesis
      using opn l collects_trans [OF collects_open [OF opn] Cons.IH] Cons.prems by simp
  next
    case (Inr h)
    obtain u g where own: "unwrap_or (fv_owner V path (world p1)) (0, 0) = (u, g)" by fastforce
    let ?d = "\<lparr> td_target_id = system_target_id path, td_class = cls, td_base_path = path, td_dev = sh_dev h,
        td_ino = sh_ino h, td_owner_uid = u, td_owner_gid = g, td_package_name = None, td_safety_tier = tier,
        td_catalog_generation = gen \<rparr>"
    have "located ?d" using Cons.prems l unfolding located_def by auto
    then have "collects gen (out, p) (AList.update (system_target_id path) ?d out, p1)"
      using opn Inr tier by (intro collects_insert) simp_all
    moreover have "collects gen (AList.update (system_target_id path) ?d out, p1)
        (snd (collect_system K V gen locs (count + 1) (AList.update (system_target_id path) ?d out) p1))"
      using Cons.prems by (intro Cons.IH) simp
    moreover have "collect_system K V gen (l # locs) count out p =
        collect_system K V gen locs (count + 1) (AList.update (system_target_id path) ?d out) p1"
      using opn Inr own l by (simp add: Let_def)
    ultimately show ?thesis using collects_trans by simp
  qed
qed simp

lemma discover_user_collects: "collects gen (snd st) (snd (discover_user K V gen u st))"
proof -
  obtain b out p where st: "st = (b, out, p)" by (rule prod_cases3)
  obtain n1 out1 p1 where c1: "collect_android_user_targets K V (au_ce_path u) (au_user_id u) gen out p = (n1, out1, p1)"
    by (rule prod_cases3)
  obtain n2 out2 p2 where c2: "collect_android_user_targets K V (au_de_path u) (au_user_id u) gen out1 p1 = (n2, out2, p2)"
    by (rule prod_cases3)
  have "collects gen (out, p) (out1, p1)" "collects gen (out1, p1) (out2, p2)"
    using collect_user_collects c1 c2 by (metis snd_conv)+
  then have "collects gen (out, p) (snd (collect_android_external_targets K V (au_media_path u) (au_user_id u) gen out2 p2))"
    using collects_trans collect_media_collects by blast
  then show ?thesis
    using c1 c2 by (simp add: discover_user_def st collect_user_collects split: EncryptionState.splits)
qed

lemma discover_users_collects: "collects gen (snd st) (snd (fold (discover_user K V gen) us st))"
proof (induction us arbitrary: st)
  case (Cons u us)
  then show ?case using collects_trans [OF discover_user_collects Cons.IH] by simp
qed simp

lemma fold_collects:
  "(\<And>x st. collects gen st (f x st)) \<Longrightarrow> collects gen st (fold f xs st)"
proof (induction xs arbitrary: st)
  case (Cons x xs)
  then show ?case using collects_trans [OF Cons.prems(1) Cons.IH [OF Cons.prems(1)]] by simp
qed simp

lemma discover_fallback_collects: "collects gen st (discover_fallback K V gen st)"
  unfolding discover_fallback_def by (rule fold_collects) (auto simp: collect_user_collects)

section \<open>The first directory stays\<close>

definition standard :: "staging \<Rightarrow> bool" where
  "standard out \<longleftrightarrow> list_all (\<lambda>(t, d). td_safety_tier d = StandardCache) out"

lemma standard_lookup: "standard out \<Longrightarrow> map_of out t = Some d \<Longrightarrow> td_safety_tier d = StandardCache"
  by (auto simp: standard_def list_all_iff dest: map_of_SomeD)

lemma update_fresh: "map_of out t = None \<Longrightarrow> AList.update t d out = out @ [(t, d)]"
  by (induction out) (auto split: if_splits)

lemma collect_subdirs_appends:
  "standard out \<Longrightarrow> collect_subdirs K V dir pkg user_id gen subs count out p = (n, out', p') \<Longrightarrow>
    \<exists>new. out' = out @ new \<and> standard out' \<and> n = count + length new"
proof (induction subs arbitrary: count out p)
  case (Cons sub subs)
  obtain r p1 where opn: "open_root K (path_push dir sub) p = (r, p1)" by fastforce
  obtain u g where own: "unwrap_or (fv_owner V (path_push dir sub) (world p1)) (0, 0) = (u, g)" by fastforce
  consider (skip) "collect_subdirs K V dir pkg user_id gen subs count out p1 = (n, out', p')"
    | (add) tid d where "map_of out tid = None" "td_safety_tier d = StandardCache"
        "collect_subdirs K V dir pkg user_id gen subs (count + 1) (AList.update tid d out) p1 = (n, out', p')"
  proof (cases "\<exists>h tid. r = Inr h \<and> TargetId_try_new (user_target_id user_id pkg sub) = Some tid \<and> map_of out tid = None")
    case True
    then obtain h tid where *: "r = Inr h" "TargetId_try_new (user_target_id user_id pkg sub) = Some tid"
      "map_of out tid = None" by blast
    let ?d = "\<lparr> td_target_id = tid, td_class = AppCache, td_base_path = path_push dir sub, td_dev = sh_dev h,
        td_ino = sh_ino h, td_owner_uid = u, td_owner_gid = g, td_package_name = Some pkg,
        td_safety_tier = StandardCache, td_catalog_generation = gen \<rparr>"
    have "collect_subdirs K V dir pkg user_id gen subs (count + 1) (AList.update tid ?d out) p1 = (n, out', p')"
      using Cons.prems(2) opn own * by (simp add: Let_def)
    then show thesis using that(2) [of tid ?d] *(3) by simp
  next
    case False
    then show thesis
      using that(1) Cons.prems opn own standard_lookup
      by (auto simp: Let_def split: sum.splits option.splits if_splits)
  qed
  then show ?case
  proof cases
    case skip
    then show ?thesis using Cons.IH Cons.prems(1) by blast
  next
    case (add tid d)
    have "standard (out @ [(tid, d)])" using Cons.prems(1) add(2) by (simp add: standard_def)
    from Cons.IH [OF this add(3) [unfolded update_fresh [OF add(1)]]] obtain new where
      "out' = (out @ [(tid, d)]) @ new" "standard out'" "n = count + 1 + length new" by blast
    then show ?thesis by (intro exI [of _ "(tid, d) # new"]) simp
  qed
qed (auto simp: standard_def)

lemma collect_packages_appends:
  "standard out \<Longrightarrow> collect_packages K V base user_id gen names count out p = (n, out', p') \<Longrightarrow>
    \<exists>new. out' = out @ new \<and> standard out' \<and> n = count + length new"
proof (induction names arbitrary: count out p)
  case (Cons name names)
  obtain m out1 p1 where sub: "collect_subdirs K V (path_push base name) name user_id gen KNOWN_CACHE_SUBDIRS count out p
      = (m, out1, p1)" by (rule prod_cases3)
  obtain new where new: "out1 = out @ new" "standard out1" "m = count + length new"
    using collect_subdirs_appends [OF Cons.prems(1) sub] by blast
  consider (skip) "collect_packages K V base user_id gen names count out p = (n, out', p')"
    | (stop) "(count, out, p) = (n, out', p')"
    | (add) "collect_packages K V base user_id gen names m out1 p1 = (n, out', p')"
    using Cons.prems(2) sub by (auto simp: Let_def split: if_splits)
  then show ?case
  proof cases
    case skip
    then show ?thesis using Cons.IH Cons.prems(1) by blast
  next
    case stop
    then show ?thesis using Cons.prems(1) by (intro exI [of _ "[]"]) simp
  next
    case add
    then obtain new' where "out' = out1 @ new'" "standard out'" "n = m + length new'"
      using Cons.IH [OF new(2)] by blast
    then show ?thesis using new by (intro exI [of _ "new @ new'"]) simp
  qed
qed (auto simp: standard_def)

lemma discover_spec:
  "case discover_all_targets K V c p of (c', p') \<Rightarrow>
     \<exists>evs. extends p p' evs \<and> no_unlink evs \<and>
       ((c' = c \<and> snap_targets (take_snapshot c) \<noteq> []) \<or>
        (current_generation c' = next_generation (current_generation c) \<and>
         staging_ok (current_generation c') evs (snap_targets (take_snapshot c'))))"
proof -
  define gen where "gen = next_generation (current_generation c)"
  obtain found out1 p1 where users: "fold (discover_user K V gen) (enumerate_users V (world p)) (False, [], p) = (found, out1, p1)"
    by (rule prod_cases3)
  obtain out2 p2 where fall: "(if found then (out1, p1) else discover_fallback K V gen (out1, p1)) = (out2, p2)" by fastforce
  obtain n out3 p3 where sys: "collect_system_targets K V gen out2 p2 = (n, out3, p3)" by (rule prod_cases3)
  have "collects gen ([], p) (out1, p1)"
    using discover_users_collects [of gen "(False, [], p)" K V "enumerate_users V (world p)"] users by simp
  moreover have "collects gen (out1, p1) (out2, p2)"
    using fall discover_fallback_collects [of gen "(out1, p1)" K V] by (auto split: if_splits)
  moreover have "collects gen (out2, p2) (out3, p3)"
    using sys collect_system_collects [of SYSTEM_JUNK_LOCATIONS gen out2 p2 K V 0] by (simp add: collect_system_targets_def)
  ultimately have "collects gen ([], p) (out3, p3)" using collects_trans by blast
  then obtain evs where evs: "extends p p3 evs" "no_unlink evs"
    "\<And>evs0. staging_ok gen evs0 [] \<Longrightarrow> staging_ok gen (evs0 @ evs) out3"
    unfolding collects_def fst_conv snd_conv by blast
  have ok: "staging_ok gen evs out3" using evs(3) [of "[]"] by (simp add: staging_ok_def [of _ "[]"])
  have run: "discover_all_targets K V c p =
      (if out3 \<noteq> [] \<or> snap_targets (cat_snapshot c) = []
       then (\<lparr> cat_snapshot = \<lparr> snap_generation = gen, snap_targets = out3 \<rparr> \<rparr>, p3) else (c, p3))"
    unfolding discover_all_targets_def Let_def gen_def [symmetric] users prod.case fall sys by (rule refl)
  show ?thesis
  proof (cases "out3 \<noteq> [] \<or> snap_targets (cat_snapshot c) = []")
    case True
    then show ?thesis
      using evs(1,2) ok run by (auto simp: current_generation_def take_snapshot_def gen_def intro!: exI [of _ evs])
  next
    case False
    then show ?thesis using evs(1,2) run by (auto simp: take_snapshot_def intro!: exI [of _ evs])
  qed
qed

section \<open>Properties\<close>


text \<open>Of two directories with the same target id the first one found stays: collecting the packages of another
  directory only appends new targets, as many as it reports, and replaces none.  The ids do not tell a user's
  credential-encrypted from the device-encrypted storage, so the cache of a package in the second is not catalogued
  when the package has one in the first.\<close>

theorem first_cache_stays:
  assumes "collect_android_user_targets K V base user_id gen out p = (n, out', p')"
    and "list_all (\<lambda>(t, d). td_safety_tier d = StandardCache) out"
  shows "\<exists>new. out' = out @ new \<and> n = length new \<and> list_all (\<lambda>(t, d). td_safety_tier d = StandardCache) new"
proof (cases "fv_read_dir V base (world p)")
  case None
  then show ?thesis using assms(1) by (simp add: collect_android_user_targets_def)
next
  case (Some names)
  then show ?thesis
    using assms collect_packages_appends [of out K V base user_id gen names 0 p n out' p']
    by (auto simp: collect_android_user_targets_def standard_def)
qed

definition example_view :: "'w FsView" where
  "example_view = \<lparr> fv_exists = (\<lambda>_ _. True), fv_is_dir = (\<lambda>_ _. True), fv_read_dir = (\<lambda>_ _. Some [''com.example'']),
     fv_entry_metadata = (\<lambda>_ _ _. Inr ()), fv_owner = (\<lambda>_ _. Some (10010, 10010)), fv_canonicalize = (\<lambda>p _. Some p),
     fv_property = (\<lambda>_ _. None) \<rparr>"

theorem first_cache_stays_witness:
  "\<exists>n new p'. collect_android_user_targets one_dir_kernel example_view ''/data/user_de/0'' 0 (CatalogGeneration 1)
     [(TargetId ''android:com.example:cache'', example_target ''/data/data/com.example/cache'')]
     \<lparr> world = [], openat2_supported = True, sys_log = [] \<rparr> =
     (n, (TargetId ''android:com.example:cache'', example_target ''/data/data/com.example/cache'') # new, p') \<and> n = length new"
proof -
  obtain n out' p' where run: "collect_android_user_targets one_dir_kernel example_view ''/data/user_de/0'' 0
      (CatalogGeneration 1) [(TargetId ''android:com.example:cache'', example_target ''/data/data/com.example/cache'')]
      \<lparr> world = [], openat2_supported = True, sys_log = [] \<rparr> = (n, out', p')" by (rule prod_cases3)
  from first_cache_stays [OF run] show ?thesis using run by (auto simp: example_target_def)
qed

end
