(* ===== verification/Ipc.thy ===== *)
theory Ipc
  imports Domain_Entities Cancel_Token
begin

text \<open>
  The inter-process interface: the commands and reports of \<open>ipc/protocol.rs\<close> with its length-prefixed frames, and
  the server of \<open>ipc/server.rs\<close>, which admits callers by their credentials, limits the number of concurrent
  workers and authorizes each command.  Serialisation is the serde crate and is a parameter.  A stream is the list
  of bytes still to be read, or the bytes written so far with the number of bytes the peer will still take.  The
  lemmas show that frames survive the wire one after the other, that no frame beyond the limit is read, who can make
  the daemon do what, and that the number of workers stays within its limit through every interleaving.
\<close>

section \<open>Commands and reports\<close>

record CleanParams =
  cp_deep :: bool
  cp_trim :: bool
  cp_zram_compact :: bool
  cp_dry_run :: bool

datatype Command =
    Ping
  | TriggerClean CleanParams
  | GetStatus
  | GetStats
  | GetIdleAssessment
  | GetJobStatus u64
  | CancelCommand
  | ReloadConfig
  | StopDaemon

record StorageReport =
  sr_total_freed_bytes :: u64
  sr_deleted_files_count :: nat
  sr_skipped_files_count :: nat
  sr_errors_count :: nat
  sr_app_cache_bytes :: u64
  sr_oem_logs_bytes :: u64
  sr_crash_dumps_bytes :: u64
  sr_temp_apks_bytes :: u64
  sr_frozen_apps_cleaned :: nat
  sr_active_apps_cleaned :: nat

record MemoryReport =
  mr_memory_compacted :: bool
  mr_zram_compacted :: bool
  mr_cgroup_memory_reclaimed :: bool
  mr_reclaimed_mb :: u64

record TrimReport =
  tr_fstrim_completed :: bool
  tr_trimmed_mounts :: "string list"

record OptimizationReport =
  or_f2fs_gc_activated :: bool

record PlanEntry =
  pe_path :: string
  pe_category :: string
  pe_size_bytes :: u64
  pe_reason :: string

record CleanReport =
  cr_storage :: StorageReport
  cr_memory :: MemoryReport
  cr_trim :: TrimReport
  cr_optimization :: OptimizationReport
  cr_duration_ms :: u64
  cr_plan_entries :: "PlanEntry list option"
  cr_cancel_reason :: "CancelReason option"
  cr_total_freed_bytes :: u64
  cr_deleted_files_count :: nat
  cr_app_cache_freed_bytes :: u64
  cr_oem_logs_freed_bytes :: u64
  cr_crash_dumps_freed_bytes :: u64
  cr_temp_apks_freed_bytes :: u64
  cr_skipped_files_count :: nat
  cr_errors_count :: nat
  cr_frozen_apps_cleaned :: nat
  cr_active_apps_cleaned :: nat
  cr_memory_compacted :: bool
  cr_zram_compacted :: bool
  cr_cgroup_memory_reclaimed :: bool
  cr_fstrim_completed :: bool

definition StorageReport_default :: StorageReport where
  "StorageReport_default = \<lparr> sr_total_freed_bytes = 0, sr_deleted_files_count = 0, sr_skipped_files_count = 0,
     sr_errors_count = 0, sr_app_cache_bytes = 0, sr_oem_logs_bytes = 0, sr_crash_dumps_bytes = 0,
     sr_temp_apks_bytes = 0, sr_frozen_apps_cleaned = 0, sr_active_apps_cleaned = 0 \<rparr>"

definition MemoryReport_default :: MemoryReport where
  "MemoryReport_default = \<lparr> mr_memory_compacted = False, mr_zram_compacted = False,
     mr_cgroup_memory_reclaimed = False, mr_reclaimed_mb = 0 \<rparr>"

definition CleanReport_default :: CleanReport where
  "CleanReport_default = \<lparr> cr_storage = StorageReport_default, cr_memory = MemoryReport_default,
     cr_trim = \<lparr> tr_fstrim_completed = False, tr_trimmed_mounts = [] \<rparr>,
     cr_optimization = \<lparr> or_f2fs_gc_activated = False \<rparr>, cr_duration_ms = 0, cr_plan_entries = None,
     cr_cancel_reason = None, cr_total_freed_bytes = 0, cr_deleted_files_count = 0, cr_app_cache_freed_bytes = 0,
     cr_oem_logs_freed_bytes = 0, cr_crash_dumps_freed_bytes = 0, cr_temp_apks_freed_bytes = 0,
     cr_skipped_files_count = 0, cr_errors_count = 0, cr_frozen_apps_cleaned = 0, cr_active_apps_cleaned = 0,
     cr_memory_compacted = False, cr_zram_compacted = False, cr_cgroup_memory_reclaimed = False,
     cr_fstrim_completed = False \<rparr>"

definition sync_compat_fields :: "CleanReport \<Rightarrow> CleanReport" where
  "sync_compat_fields r = r\<lparr>
     cr_total_freed_bytes := sr_total_freed_bytes (cr_storage r),
     cr_deleted_files_count := sr_deleted_files_count (cr_storage r),
     cr_app_cache_freed_bytes := sr_app_cache_bytes (cr_storage r),
     cr_oem_logs_freed_bytes := sr_oem_logs_bytes (cr_storage r),
     cr_crash_dumps_freed_bytes := sr_crash_dumps_bytes (cr_storage r),
     cr_temp_apks_freed_bytes := sr_temp_apks_bytes (cr_storage r),
     cr_skipped_files_count := sr_skipped_files_count (cr_storage r),
     cr_errors_count := sr_errors_count (cr_storage r),
     cr_frozen_apps_cleaned := sr_frozen_apps_cleaned (cr_storage r),
     cr_active_apps_cleaned := sr_active_apps_cleaned (cr_storage r),
     cr_memory_compacted := mr_memory_compacted (cr_memory r),
     cr_zram_compacted := mr_zram_compacted (cr_memory r),
     cr_cgroup_memory_reclaimed := mr_cgroup_memory_reclaimed (cr_memory r),
     cr_fstrim_completed := tr_fstrim_completed (cr_trim r)\<rparr>"

definition finalize_totals :: "u64 \<Rightarrow> CleanReport \<Rightarrow> CleanReport" where
  "finalize_totals ms r = (sync_compat_fields r)\<lparr>cr_duration_ms := ms\<rparr>"

section \<open>Frames\<close>

definition MAX_IPC_FRAME_SIZE :: nat where
  "MAX_IPC_FRAME_SIZE = 2 * 1024 * 1024"

definition to_be_bytes :: "u32 \<Rightarrow> u8 list" where
  "to_be_bytes w = (let n = unat w in
     [of_nat (n div 2 ^ 24), of_nat (n div 2 ^ 16), of_nat (n div 2 ^ 8), of_nat n])"

definition from_be_bytes :: "u8 list \<Rightarrow> u32" where
  "from_be_bytes bs = of_nat (foldl (\<lambda>n b. 256 * n + unat b) 0 bs)"

text \<open>The writing end of a stream: what the peer has taken, how much more it takes, and the error after that.\<close>

record Writer =
  wr_taken :: "u8 list"
  wr_room :: nat
  wr_error :: errno

definition write_all :: "u8 list \<Rightarrow> Writer \<Rightarrow> (unit, CleanerError) result \<times> Writer" where
  "write_all bs w =
    (if length bs \<le> wr_room w
     then (Inr (), w\<lparr>wr_taken := wr_taken w @ bs, wr_room := wr_room w - length bs\<rparr>)
     else (Inl (Io (wr_error w)), w\<lparr>wr_taken := wr_taken w @ take (wr_room w) bs, wr_room := 0\<rparr>))"

definition send_message :: "('m \<Rightarrow> u8 list option) \<Rightarrow> 'm \<Rightarrow> Writer \<Rightarrow> (unit, CleanerError) result \<times> Writer" where
  "send_message ser m w =
    (case ser m of
       None \<Rightarrow> (Inl (Json ''serialisation failed''), w)
     | Some payload \<Rightarrow>
         if length payload > MAX_IPC_FRAME_SIZE
         then (Inl (IpcError ''Outgoing message size exceeded 64KB safety limit''), w)
         else case write_all (to_be_bytes (of_nat (length payload))) w of
           (Inl e, w1) \<Rightarrow> (Inl e, w1)
         | (Inr _, w1) \<Rightarrow> write_all payload w1)"

text \<open>The end of the stream is an error without a number of the operating system, written 0.\<close>

definition read_exact :: "nat \<Rightarrow> u8 list \<Rightarrow> (u8 list, CleanerError) result \<times> u8 list" where
  "read_exact n bs = (if n \<le> length bs then (Inr (take n bs), drop n bs) else (Inl (Io 0), []))"

definition read_message :: "(u8 list \<Rightarrow> 'm option) \<Rightarrow> u8 list \<Rightarrow> ('m, CleanerError) result \<times> u8 list" where
  "read_message de bs =
    (case read_exact 4 bs of
       (Inl e, rest) \<Rightarrow> (Inl e, rest)
     | (Inr len_buf, rest) \<Rightarrow>
        (let len = unat (from_be_bytes len_buf) in
         if len > MAX_IPC_FRAME_SIZE
         then (Inl (IpcError ''Payload size exceeded 64KB safety limit''), rest)
         else case read_exact len rest of
           (Inl e, rest2) \<Rightarrow> (Inl e, rest2)
         | (Inr payload, rest2) \<Rightarrow>
             (case de payload of
                None \<Rightarrow> (Inl (Json ''malformed message''), rest2)
              | Some m \<Rightarrow> (Inr m, rest2))))"

section \<open>The server\<close>

definition MAX_CONCURRENT_IPC_WORKERS :: nat where
  "MAX_CONCURRENT_IPC_WORKERS = 4"

definition is_uid_allowed :: "u32 \<Rightarrow> u32 \<Rightarrow> bool" where
  "is_uid_allowed current_uid uid = (uid = current_uid \<or> uid = 0 \<or> uid = 1000 \<or> uid = 2000)"

definition is_command_authorized :: "u32 \<Rightarrow> Command \<Rightarrow> bool" where
  "is_command_authorized caller_uid cmd =
    (if caller_uid = 0 then True
     else case cmd of
       GetStatus \<Rightarrow> caller_uid = 1000 \<or> caller_uid = 2000
     | GetStats \<Rightarrow> caller_uid = 1000 \<or> caller_uid = 2000
     | GetIdleAssessment \<Rightarrow> caller_uid = 1000 \<or> caller_uid = 2000
     | GetJobStatus _ \<Rightarrow> caller_uid = 1000 \<or> caller_uid = 2000
     | Ping \<Rightarrow> caller_uid = 1000 \<or> caller_uid = 2000
     | TriggerClean params \<Rightarrow> if \<not> cp_deep params \<and> \<not> cp_trim params then caller_uid = 1000 else False
     | _ \<Rightarrow> False)"

text \<open>One accepted connection: \<open>peer\<close> is the answer of \<open>SO_PEERCRED\<close>, \<open>acquired\<close> that of the worker limiter,
  \<open>error\<close> builds an error response, and the handler acts on the daemon's state.\<close>

definition serve_connection ::
  "(u8 list \<Rightarrow> Command option) \<Rightarrow> ('r \<Rightarrow> u8 list option) \<Rightarrow> (string \<Rightarrow> 'r) \<Rightarrow> (Command \<Rightarrow> 's \<Rightarrow> 'r \<times> 's) \<Rightarrow> u32
    \<Rightarrow> u32 option \<Rightarrow> bool \<Rightarrow> u8 list \<Rightarrow> Writer \<Rightarrow> 's \<Rightarrow> Writer \<times> 's" where
  "serve_connection de ser error handler current_uid peer acquired input w st =
    (case (case peer of Some uid \<Rightarrow> if is_uid_allowed current_uid uid then Some uid else None | None \<Rightarrow> None) of
       None \<Rightarrow> (snd (send_message ser (error ''Unauthorized caller UID'') w), st)
     | Some caller_uid \<Rightarrow>
         if \<not> acquired then (snd (send_message ser (error ''Daemon IPC busy, please retry shortly'') w), st)
         else case fst (read_message de input) of
           Inl _ \<Rightarrow> (w, st)
         | Inr cmd \<Rightarrow>
             if \<not> is_command_authorized caller_uid cmd
             then (snd (send_message ser (error ''Permission denied: Insufficient privileges for this command'') w), st)
             else case handler cmd st of (resp, st1) \<Rightarrow> (snd (send_message ser resp w), st1))"

text \<open>The worker limiter: the counter, the value the accepting thread has last seen, and the guards that are alive.
  A weak exchange may fail without a reason.\<close>

record Limiter =
  lm_active :: nat
  lm_seen :: "nat option"
  lm_guards :: nat

inductive limiter_step :: "Limiter \<Rightarrow> Limiter \<Rightarrow> bool" where
  load: "lm_seen l = None \<Longrightarrow> limiter_step l (l\<lparr>lm_seen := Some (lm_active l)\<rparr>)"
| refuse: "lm_seen l = Some c \<Longrightarrow> c \<ge> MAX_CONCURRENT_IPC_WORKERS \<Longrightarrow> limiter_step l (l\<lparr>lm_seen := None\<rparr>)"
| exchange: "lm_seen l = Some c \<Longrightarrow> c < MAX_CONCURRENT_IPC_WORKERS \<Longrightarrow> lm_active l = c \<Longrightarrow>
    limiter_step l (l\<lparr>lm_active := c + 1, lm_guards := lm_guards l + 1, lm_seen := None\<rparr>)"
| retry: "lm_seen l = Some c \<Longrightarrow> c < MAX_CONCURRENT_IPC_WORKERS \<Longrightarrow> limiter_step l (l\<lparr>lm_seen := Some (lm_active l)\<rparr>)"
| drop_guard: "lm_guards l > 0 \<Longrightarrow> limiter_step l (l\<lparr>lm_active := lm_active l - 1, lm_guards := lm_guards l - 1\<rparr>)"

definition limiter_init :: Limiter where
  "limiter_init = \<lparr> lm_active = 0, lm_seen = None, lm_guards = 0 \<rparr>"

section \<open>The client\<close>

text \<open>The abstract socket first, then the socket of the file system where it exists.\<close>

definition try_connect :: "'c option \<Rightarrow> bool \<Rightarrow> 'c option \<Rightarrow> ('c, CleanerError) result" where
  "try_connect abstract_sock path_exists path_sock =
    (case abstract_sock of
       Some c \<Rightarrow> Inr c
     | None \<Rightarrow>
         (case (if path_exists then path_sock else None) of
            Some c \<Rightarrow> Inr c
          | None \<Rightarrow> Inl (IpcError ''Could not connect to cleaner daemon. Is the daemon running?'')))"

definition client_timeout_secs :: "Command \<Rightarrow> nat" where
  "client_timeout_secs cmd = (case cmd of TriggerClean _ \<Rightarrow> 60 | _ \<Rightarrow> 10)"

text \<open>\<open>peer\<close> maps the bytes sent on a connection to the bytes that come back.\<close>

definition connect_and_send ::
  "(Command \<Rightarrow> u8 list option) \<Rightarrow> (u8 list \<Rightarrow> 'r option) \<Rightarrow> (Writer \<times> (u8 list \<Rightarrow> u8 list), CleanerError) result
    \<Rightarrow> Command \<Rightarrow> ('r, CleanerError) result" where
  "connect_and_send ser de connection cmd =
    (case connection of
       Inl e \<Rightarrow> Inl e
     | Inr (w, peer) \<Rightarrow>
         (case send_message ser cmd w of
            (Inl e, _) \<Rightarrow> Inl e
          | (Inr _, w1) \<Rightarrow> fst (read_message de (peer (wr_taken w1)))))"

section \<open>Lemmas\<close>

lemma length_to_be_bytes [simp]: "length (to_be_bytes w) = 4"
  by (simp add: to_be_bytes_def Let_def)

lemma be_bytes_round_trip [simp]: "from_be_bytes (to_be_bytes w) = w"
proof -
  let ?n = "unat w"
  have lt: "?n < 2 ^ 32" using unat_lt_power [of w] by simp
  have "256 * (256 * (256 * (?n div 2 ^ 24 mod 256) + ?n div 2 ^ 16 mod 256) + ?n div 2 ^ 8 mod 256) + ?n mod 256 = ?n"
  proof -
    have ab: "?n div 2 ^ 16 = ?n div 256 div 256" "?n div 2 ^ 24 = ?n div 256 div 256 div 256" "?n div 2 ^ 8 = ?n div 256"
      by (simp_all add: div_mult2_eq [symmetric])
    have "?n div 256 div 256 div 256 < 256" using lt by (simp add: div_mult2_eq [symmetric] less_mult_imp_div_less)
    then have "?n div 256 div 256 div 256 mod 256 = ?n div 256 div 256 div 256" by simp
    then show ?thesis unfolding ab by (simp only: mult_div_mod_eq)
  qed
  moreover have "unat (of_nat k :: u8) = k mod 256" for k by (simp add: unsigned_of_nat take_bit_eq_mod)
  ultimately have "foldl (\<lambda>n b. 256 * n + unat b) 0 (to_be_bytes w) = ?n"
    unfolding to_be_bytes_def Let_def foldl.simps by (simp only: mult_0_right add_0)
  then show ?thesis by (simp add: from_be_bytes_def)
qed

lemma unat_frame_len: "n \<le> MAX_IPC_FRAME_SIZE \<Longrightarrow> unat (of_nat n :: u32) = n"
  by (simp add: MAX_IPC_FRAME_SIZE_def unsigned_of_nat take_bit_nat_eq_self)

definition frame :: "u8 list \<Rightarrow> u8 list" where
  "frame payload = to_be_bytes (of_nat (length payload)) @ payload"

lemma send_message_ok:
  assumes "ser m = Some payload" "length payload \<le> MAX_IPC_FRAME_SIZE" "length payload + 4 \<le> wr_room w"
  shows "send_message ser m w =
    (Inr (), w\<lparr>wr_taken := wr_taken w @ frame payload, wr_room := wr_room w - (length payload + 4)\<rparr>)"
  using assms by (simp add: send_message_def write_all_def frame_def)

lemma read_message_frame:
  "length payload \<le> MAX_IPC_FRAME_SIZE \<Longrightarrow>
    read_message de (frame payload @ rest) =
      (case de payload of Some m \<Rightarrow> Inr m | None \<Rightarrow> Inl (Json ''malformed message''), rest)"
  by (simp add: read_message_def frame_def read_exact_def unat_frame_len Let_def split: option.splits)

lemma limiter_inv:
  "limiter_step\<^sup>*\<^sup>* limiter_init l \<Longrightarrow> lm_active l = lm_guards l \<and> lm_guards l \<le> MAX_CONCURRENT_IPC_WORKERS"
  by (induction rule: rtranclp_induct) (auto simp: limiter_init_def elim!: limiter_step.cases)

section \<open>Properties\<close>

text \<open>C36.  Frames survive the wire: messages whose serialisation is read back as the message and fits the frame limit,
  written one after the other on a stream that takes them, are read back one by one, in order, with nothing left over.\<close>

theorem frames_round_trip:
  assumes "list_all (\<lambda>m. \<exists>payload. ser m = Some payload \<and> length payload \<le> MAX_IPC_FRAME_SIZE \<and> de payload = Some m) ms"
  shows "\<exists>bs. fold (\<lambda>m w. snd (send_message ser m w)) ms \<lparr> wr_taken = [], wr_room = (MAX_IPC_FRAME_SIZE + 4) * length ms, wr_error = e \<rparr>
      = \<lparr> wr_taken = bs, wr_room = (MAX_IPC_FRAME_SIZE + 4) * length ms - length bs, wr_error = e \<rparr> \<and>
    fold (\<lambda>_ (acc, input). case read_message de input of (r, rest) \<Rightarrow> (acc @ [r], rest)) ms ([], bs) = (map Inr ms, [])"
proof -
  define N where "N = MAX_IPC_FRAME_SIZE + 4"
  define pay where "pay m = the (ser m)" for m
  have pay: "ser m = Some (pay m) \<and> length (pay m) \<le> MAX_IPC_FRAME_SIZE \<and> de (pay m) = Some m" if "m \<in> set ms" for m
    using assms that by (auto simp: list_all_iff pay_def)
  define bytes where "bytes xs = concat (map (\<lambda>m. frame (pay m)) xs)" for xs
  have send: "fold (\<lambda>m w. snd (send_message ser m w)) xs \<lparr> wr_taken = out, wr_room = room, wr_error = e \<rparr>
      = \<lparr> wr_taken = out @ bytes xs, wr_room = room - length (bytes xs), wr_error = e \<rparr>"
    if "set xs \<subseteq> set ms" "N * length xs \<le> room" for xs out room
    using that
  proof (induction xs arbitrary: out room)
    case (Cons m xs)
    then have m: "ser m = Some (pay m)" "length (pay m) \<le> MAX_IPC_FRAME_SIZE" using pay by auto
    have room: "length (pay m) + 4 \<le> room" "N * length xs \<le> room - (length (pay m) + 4)"
      using Cons.prems(2) m(2) by (simp_all add: N_def)
    show ?case
      using Cons.IH [of "room - (length (pay m) + 4)" "out @ frame (pay m)"] Cons.prems(1) room
        send_message_ok [where ser = ser and m = m, OF m, of "\<lparr> wr_taken = out, wr_room = room, wr_error = e \<rparr>"]
      by (simp add: bytes_def frame_def)
  qed (simp add: bytes_def)
  have recv: "fold (\<lambda>_ (acc, input). case read_message de input of (r, rest) \<Rightarrow> (acc @ [r], rest)) xs (acc, bytes xs)
      = (acc @ map Inr xs, [])" if "set xs \<subseteq> set ms" for xs acc
    using that
  proof (induction xs arbitrary: acc)
    case (Cons m xs)
    then have "read_message de (frame (pay m) @ bytes xs) = (Inr m, bytes xs)"
      using pay [of m] by (simp add: read_message_frame)
    then show ?case using Cons by (simp add: bytes_def)
  qed (simp add: bytes_def)
  show ?thesis
    using send [of ms "N * length ms" "[]"] recv [of ms "[]"] by (intro exI [of _ "bytes ms"]) (simp add: N_def)
qed

theorem frames_round_trip_witness:
  "fold (\<lambda>_ (acc, input). case read_message Some input of (r, rest) \<Rightarrow> (acc @ [r], rest)) [[1, 2], [3 :: u8]]
     ([], wr_taken (fold (\<lambda>m w. snd (send_message Some m w)) [[1, 2], [3]]
       \<lparr> wr_taken = [], wr_room = (MAX_IPC_FRAME_SIZE + 4) * length [[1, 2], [3 :: u8]], wr_error = 32 \<rparr>)) = ([Inr [1, 2], Inr [3]], [])"
proof -
  have "list_all (\<lambda>m. \<exists>payload. Some m = Some payload \<and> length payload \<le> MAX_IPC_FRAME_SIZE \<and> Some payload = Some m)
      [[1, 2], [3 :: u8]]" by (simp add: MAX_IPC_FRAME_SIZE_def)
  from frames_round_trip [OF this, of 32] obtain bs where
    "fold (\<lambda>m w. snd (send_message Some m w)) [[1, 2], [3]] \<lparr> wr_taken = [],
       wr_room = (MAX_IPC_FRAME_SIZE + 4) * length [[1, 2], [3 :: u8]], wr_error = 32 \<rparr>
     = \<lparr> wr_taken = bs, wr_room = (MAX_IPC_FRAME_SIZE + 4) * length [[1, 2], [3 :: u8]] - length bs, wr_error = 32 \<rparr>"
    "fold (\<lambda>_ (acc, input). case read_message Some input of (r, rest) \<Rightarrow> (acc @ [r], rest)) [[1, 2], [3 :: u8]] ([], bs)
     = (map Inr [[1, 2], [3]], [])" by blast
  then show ?thesis by (simp only: Writer.simps list.map)
qed

text \<open>C35.  Who can make the daemon do what: whatever is sent on a connection, the handler runs at most once, and only
  for an admitted caller with a worker slot whose frame is a command this caller may give; a caller other than root
  reaches it only with a query, or as the system user with a clean that is neither deep nor trims.  A caller admitted
  only for having the daemon's own user id reaches it with nothing.\<close>

theorem ipc_access_control:
  "case serve_connection de ser error handler current_uid peer acquired input w st of (w', st') \<Rightarrow>
     (case (peer, fst (read_message de input)) of
        (Some uid, Inr cmd) \<Rightarrow>
          if acquired \<and> is_uid_allowed current_uid uid \<and> is_command_authorized uid cmd
          then st' = snd (handler cmd st) \<and> w' = snd (send_message ser (fst (handler cmd st)) w) \<and>
            (uid = 0 \<or> (uid \<in> {1000, 2000} \<and> cmd \<in> {Ping, GetStatus, GetStats, GetIdleAssessment} \<union> range GetJobStatus) \<or>
             (uid = 1000 \<and> (\<exists>params. cmd = TriggerClean params \<and> \<not> (cp_deep params \<or> cp_trim params))))
          else st' = st
      | _ \<Rightarrow> st' = st)"
  by (auto simp: serve_connection_def is_command_authorized_def
      split: prod.splits option.splits sum.splits if_splits Command.splits)

text \<open>A call from client to server and back: an authorized caller whose command and response survive
  serialisation within the frame limit gets exactly the handler's response.\<close>

theorem rpc_round_trip:
  assumes "ser_c cmd = Some payload" and "de_c payload = Some cmd" and "length payload \<le> MAX_IPC_FRAME_SIZE"
    and "handler cmd st = (resp, st')"
    and "ser_r resp = Some answer" and "de_r answer = Some resp" and "length answer \<le> MAX_IPC_FRAME_SIZE"
    and "is_uid_allowed current_uid uid" and "is_command_authorized uid cmd"
    and "length payload + 4 \<le> wr_room w" and "wr_taken w = []" and "length answer + 4 \<le> wr_room w'" and "wr_taken w' = []"
  shows "connect_and_send ser_c de_r
    (Inr (w, \<lambda>input. wr_taken (fst (serve_connection de_c ser_r error handler current_uid (Some uid) True input w' st)))) cmd
    = Inr resp"
proof -
  have req: "read_message de_c (frame payload) = (Inr cmd, [])"
    using read_message_frame [OF assms(3), of de_c "[]"] assms(2) by simp
  have resp: "read_message de_r (frame answer) = (Inr resp, [])"
    using read_message_frame [OF assms(7), of de_r "[]"] assms(6) by simp
  show ?thesis
    using send_message_ok [where ser = ser_c and m = cmd, OF assms(1,3,10)] send_message_ok [where ser = ser_r and m = resp, OF assms(5,7,12)] req resp assms(4,8,9,11,13)
    by (simp add: connect_and_send_def serve_connection_def)
qed

theorem rpc_round_trip_witness:
  "connect_and_send (\<lambda>_. Some [7]) (\<lambda>bs. Some (length bs))
     (Inr (\<lparr> wr_taken = [], wr_room = 100, wr_error = 32 \<rparr>, \<lambda>input. wr_taken (fst (serve_connection (\<lambda>_. Some Ping)
       (\<lambda>n. Some (replicate n 0)) (\<lambda>_. 0) (\<lambda>_ s. (s, s)) 0 (Some 2000) True input
       \<lparr> wr_taken = [], wr_room = 100, wr_error = 32 \<rparr> 5)))) Ping = Inr 5"
  by (rule rpc_round_trip [where payload = "[7]" and answer = "replicate 5 0" and st' = 5])
    (simp_all add: MAX_IPC_FRAME_SIZE_def is_uid_allowed_def is_command_authorized_def)

text \<open>C37.  The worker limit holds through every interleaving of the accepting thread's loads and exchanges with the
  workers that end: the counter always equals the number of live workers, which never exceeds the limit.\<close>

theorem worker_limit_invariant:
  assumes "limiter_step\<^sup>*\<^sup>* limiter_init l"
  shows "lm_active l = lm_guards l \<and> lm_guards l \<le> MAX_CONCURRENT_IPC_WORKERS"
  using limiter_inv [OF assms] .

theorem worker_limit_invariant_witness:
  "lm_guards \<lparr> lm_active = 1, lm_seen = None, lm_guards = 1 \<rparr> \<le> MAX_CONCURRENT_IPC_WORKERS"
proof -
  have 1: "limiter_step limiter_init \<lparr> lm_active = 0, lm_seen = Some 0, lm_guards = 0 \<rparr>"
    using limiter_step.load [of limiter_init] by (simp add: limiter_init_def)
  have 2: "limiter_step \<lparr> lm_active = 0, lm_seen = Some 0, lm_guards = 0 \<rparr> \<lparr> lm_active = 1, lm_seen = None, lm_guards = 1 \<rparr>"
    using limiter_step.exchange [of "\<lparr> lm_active = 0, lm_seen = Some 0, lm_guards = 0 \<rparr>" 0]
    by (simp add: MAX_CONCURRENT_IPC_WORKERS_def)
  from 1 2 have "limiter_step\<^sup>*\<^sup>* limiter_init \<lparr> lm_active = 1, lm_seen = None, lm_guards = 1 \<rparr>" by simp
  from worker_limit_invariant [OF this] show ?thesis by simp
qed

end
