(* ===== verification/Daemon_Config.thy ===== *)
theory Daemon_Config
  imports Config_Pipeline
begin

text \<open>
  The configuration of the daemon (\<open>config.rs\<close>): the sections with their built-in defaults, validation, the order in
  which files are tried, and saving by writing a temporary file and renaming it.  Reading and printing TOML is the toml
  crate and is a parameter.  The lemmas show that whatever the files hold the daemon starts with a valid configuration,
  and that saving replaces the file at once or not at all, wherever it fails.
\<close>

definition CONFIG_PATH :: string where
  "CONFIG_PATH = ''/data/adb/cleaner/config.toml''"

definition SOCKET_PATH :: string where
  "SOCKET_PATH = ''/data/adb/cleaner/run/daemon''"

record CleaningRulesConfig =
  cl_app_cache :: bool
  cl_webview_cache :: bool
  cl_image_caches :: bool
  cl_thumbnails :: bool
  cl_code_cache :: bool
  cl_oem_logs :: bool
  cl_crash_dumps :: bool
  cl_keep_recent_crash_files :: nat
  cl_temp_apks :: bool
  cl_min_file_age_hours :: u32

record OptimizationConfig =
  op_zram_compaction :: bool
  op_compact_memory :: bool
  op_cgroup_memory_reclaim :: bool
  op_cgroup_reclaim_amount_mb :: u64
  op_freezer_aware_cleaning :: bool
  op_psi_adaptive_monitoring :: bool
  op_psi_moderate_stall_ms :: u32
  op_psi_critical_stall_ms :: u32
  op_psi_cooldown_secs :: u64
  op_f2fs_gc_urgent :: bool
  op_fstrim_partitions :: bool
  op_trim_mount_points :: "string list"

datatype SafetyMode = Safe | Balanced | Aggressive

record SafetyConfig =
  sf_mode :: SafetyMode
  sf_whitelist_packages :: "string list"
  sf_protected_directory_names :: "string list"

record DaemonConfig =
  dc_maintenance_interval_secs :: u64
  dc_socket_path :: string
  dc_abstract_socket_name :: string
  dc_require_screen_off :: bool
  dc_require_charging_for_deep_clean :: bool
  dc_min_screen_off_secs :: u64
  dc_max_soc_temp_c :: f32
  dc_max_battery_temp_c :: f32
  dc_cleaning :: CleaningRulesConfig
  dc_optimization :: OptimizationConfig
  dc_safety :: SafetyConfig

section \<open>Defaults\<close>

text \<open>The scalar defaults compute by simplification.\<close>

definition default_maintenance_interval_secs :: u64 where [simp]:
  "default_maintenance_interval_secs = 3600 * 6"

definition default_socket_path :: string where [simp]:
  "default_socket_path = SOCKET_PATH"

definition default_abstract_socket_name :: string where [simp]:
  "default_abstract_socket_name = ''cleaner_daemon''"

definition default_true :: bool where [simp]:
  "default_true = True"

definition default_false :: bool where [simp]:
  "default_false = False"

definition default_min_screen_off_secs :: u64 where [simp]:
  "default_min_screen_off_secs = 180"

definition default_max_soc_temp :: f32 where [simp]:
  "default_max_soc_temp = Fin 44"

definition default_max_battery_temp :: f32 where [simp]:
  "default_max_battery_temp = Fin (79 / 2)"

definition default_keep_crashes :: nat where [simp]:
  "default_keep_crashes = 3"

definition default_min_file_age_hours :: u32 where [simp]:
  "default_min_file_age_hours = 24"

definition default_reclaim_amount_mb :: u64 where [simp]:
  "default_reclaim_amount_mb = 128"

definition default_psi_moderate_stall_ms :: u32 where [simp]:
  "default_psi_moderate_stall_ms = 150"

definition default_psi_critical_stall_ms :: u32 where [simp]:
  "default_psi_critical_stall_ms = 250"

definition default_psi_cooldown_secs :: u64 where [simp]:
  "default_psi_cooldown_secs = 45"

definition default_safety_mode :: SafetyMode where [simp]:
  "default_safety_mode = Safe"

definition default_trim_mounts :: "string list" where
  "default_trim_mounts = [''/data'', ''/cache'', ''/metadata'']"

definition default_whitelist_packages :: "string list" where
  "default_whitelist_packages =
    [''com.android.systemui'', ''com.android.settings'', ''com.android.providers.settings'',
     ''com.android.providers.media'', ''com.google.android.gms'', ''com.google.android.googlequicksearchbox'']"

definition default_protected_directory_names :: "string list" where
  "default_protected_directory_names =
    [''.nomedia'', ''shared_prefs'', ''databases'', ''lib'', ''files'', ''keystore'', ''fpdata'']"

definition CleaningRulesConfig_default :: CleaningRulesConfig where
  "CleaningRulesConfig_default = \<lparr> cl_app_cache = default_true, cl_webview_cache = default_true,
     cl_image_caches = default_true, cl_thumbnails = default_false, cl_code_cache = default_false,
     cl_oem_logs = default_false, cl_crash_dumps = default_false, cl_keep_recent_crash_files = default_keep_crashes,
     cl_temp_apks = default_false, cl_min_file_age_hours = default_min_file_age_hours \<rparr>"

definition OptimizationConfig_default :: OptimizationConfig where
  "OptimizationConfig_default = \<lparr> op_zram_compaction = default_false, op_compact_memory = default_false,
     op_cgroup_memory_reclaim = default_false, op_cgroup_reclaim_amount_mb = default_reclaim_amount_mb,
     op_freezer_aware_cleaning = default_true, op_psi_adaptive_monitoring = default_true,
     op_psi_moderate_stall_ms = default_psi_moderate_stall_ms, op_psi_critical_stall_ms = default_psi_critical_stall_ms,
     op_psi_cooldown_secs = default_psi_cooldown_secs, op_f2fs_gc_urgent = default_true,
     op_fstrim_partitions = default_false, op_trim_mount_points = default_trim_mounts \<rparr>"

definition SafetyConfig_default :: SafetyConfig where
  "SafetyConfig_default = \<lparr> sf_mode = default_safety_mode, sf_whitelist_packages = default_whitelist_packages,
     sf_protected_directory_names = default_protected_directory_names \<rparr>"

definition DaemonConfig_default :: DaemonConfig where
  "DaemonConfig_default = \<lparr> dc_maintenance_interval_secs = default_maintenance_interval_secs,
     dc_socket_path = default_socket_path, dc_abstract_socket_name = default_abstract_socket_name,
     dc_require_screen_off = default_true, dc_require_charging_for_deep_clean = default_true,
     dc_min_screen_off_secs = default_min_screen_off_secs, dc_max_soc_temp_c = default_max_soc_temp,
     dc_max_battery_temp_c = default_max_battery_temp, dc_cleaning = CleaningRulesConfig_default,
     dc_optimization = OptimizationConfig_default, dc_safety = SafetyConfig_default \<rparr>"

section \<open>Validation\<close>

text \<open>\<open><\<close> on floats is false when either side is not a number.\<close>

definition f32_lt :: "f32 \<Rightarrow> f32 \<Rightarrow> bool" where
  "f32_lt a b = (a \<noteq> NaN \<and> b \<noteq> NaN \<and> \<not> f32_le b a)"

definition degrees :: string where
  "degrees = [CHR 0xC2, CHR 0xB0, CHR 0x43]"

definition validate :: "DaemonConfig \<Rightarrow> (unit, CleanerError) result" where
  "validate c =
    (if dc_maintenance_interval_secs c < 30
     then Inl (Config ''maintenance_interval_secs must be at least 30 seconds'')
     else if f32_lt (dc_max_soc_temp_c c) (Fin 20) \<or> f32_lt (Fin 95) (dc_max_soc_temp_c c)
     then Inl (Config (''max_soc_temp_c must be between 20.0'' @ degrees @ '' and 95.0'' @ degrees))
     else if f32_lt (dc_max_battery_temp_c c) (Fin 20) \<or> f32_lt (Fin 65) (dc_max_battery_temp_c c)
     then Inl (Config (''max_battery_temp_c must be between 20.0'' @ degrees @ '' and 65.0'' @ degrees))
     else if sf_protected_directory_names (dc_safety c) = []
     then Inl (Config ''safety.protected_directory_names cannot be empty'')
     else Inr ())"

section \<open>Loading\<close>

text \<open>\<open>parse_file\<close> reads a file and parses it, with the errors of both.\<close>

definition load_from_file_strict ::
  "(string \<Rightarrow> (DaemonConfig, CleanerError) result) \<Rightarrow> string \<Rightarrow> (DaemonConfig, CleanerError) result" where
  "load_from_file_strict parse_file path =
    bind_result (parse_file path) (\<lambda>config. bind_result (validate config) (\<lambda>_. Inr config))"

text \<open>A file that exists and loads ends the search.\<close>

definition try_existing ::
  "(string \<Rightarrow> (DaemonConfig, CleanerError) result) \<Rightarrow> (string \<Rightarrow> bool) \<Rightarrow> string
    \<Rightarrow> (DaemonConfig \<times> string option) \<Rightarrow> DaemonConfig \<times> string option" where
  "try_existing parse_file path_exists path otherwise =
    (if path_exists path
     then (case load_from_file_strict parse_file path of Inr cfg \<Rightarrow> (cfg, Some path) | Inl _ \<Rightarrow> otherwise)
     else otherwise)"

definition load_or_default_with_path ::
  "(string \<Rightarrow> (DaemonConfig, CleanerError) result) \<Rightarrow> (string \<Rightarrow> bool) \<Rightarrow> string option
    \<Rightarrow> DaemonConfig \<times> string option" where
  "load_or_default_with_path parse_file path_exists path =
    (let fallback = try_existing parse_file path_exists CONFIG_PATH
                      (try_existing parse_file path_exists ''config.toml'' (DaemonConfig_default, None))
     in case path of
          None \<Rightarrow> fallback
        | Some p \<Rightarrow> (case load_from_file_strict parse_file p of Inr cfg \<Rightarrow> (cfg, Some p) | Inl _ \<Rightarrow> fallback))"

definition load_or_default ::
  "(string \<Rightarrow> (DaemonConfig, CleanerError) result) \<Rightarrow> (string \<Rightarrow> bool) \<Rightarrow> string option \<Rightarrow> DaemonConfig" where
  "load_or_default parse_file path_exists path = fst (load_or_default_with_path parse_file path_exists path)"

definition reload_from_path ::
  "(string \<Rightarrow> (DaemonConfig, CleanerError) result) \<Rightarrow> (string \<Rightarrow> bool) \<Rightarrow> string option
    \<Rightarrow> (DaemonConfig, CleanerError) result" where
  "reload_from_path parse_file path_exists path =
    (case path of
       Some p \<Rightarrow> load_from_file_strict parse_file p
     | None \<Rightarrow>
         if path_exists CONFIG_PATH then load_from_file_strict parse_file CONFIG_PATH
         else Inr (fst (load_or_default_with_path parse_file path_exists None)))"

section \<open>Saving\<close>

text \<open>The files by path, and the step at which saving fails, if any; writing may fail after some bytes.\<close>

type_synonym files = "string \<Rightarrow> string option"

datatype SaveFault = FailMkdir errno | FailCreate errno | FailWrite nat errno | FailSync errno | FailRename errno

text \<open>\<open>with_extension("tmp")\<close> for a path that ends in a file name: the name up to its last dot, unless that is its
  first character.\<close>

definition file_stem :: "string \<Rightarrow> string" where
  "file_stem name =
    (let before = rev (tl (dropWhile (\<lambda>c. c \<noteq> CHR ''.'') (rev name)))
     in if CHR ''.'' \<in> set name \<and> before \<noteq> [] then before else name)"

definition tmp_path :: "string \<Rightarrow> string" where
  "tmp_path path =
    rev (dropWhile (\<lambda>c. c \<noteq> CHR ''/'') (rev path)) @ file_stem (rev (takeWhile (\<lambda>c. c \<noteq> CHR ''/'') (rev path)))
    @ ''.tmp''"

definition save_to_file ::
  "(DaemonConfig \<Rightarrow> (string, CleanerError) result) \<Rightarrow> SaveFault option \<Rightarrow> DaemonConfig \<Rightarrow> string \<Rightarrow> files
    \<Rightarrow> (unit, CleanerError) result \<times> files" where
  "save_to_file print_config fault c target fs =
    (case bind_result (validate c) (\<lambda>_. print_config c) of
       Inl e \<Rightarrow> (Inl e, fs)
     | Inr content \<Rightarrow>
        (let tmp = tmp_path target in
         case fault of
           Some (FailMkdir e) \<Rightarrow> (Inl (Io e), fs)
         | Some (FailCreate e) \<Rightarrow> (Inl (Io e), fs)
         | Some (FailWrite n e) \<Rightarrow> (Inl (Io e), fs(tmp \<mapsto> take n content))
         | Some (FailSync e) \<Rightarrow> (Inl (Io e), fs(tmp \<mapsto> content))
         | Some (FailRename e) \<Rightarrow> (Inl (Io e), fs(tmp \<mapsto> content))
         | None \<Rightarrow> (Inr (), fs(tmp := None, target \<mapsto> content))))"

section \<open>Properties\<close>

lemma default_valid: "validate DaemonConfig_default = Inr ()"
  by (simp add: validate_def DaemonConfig_default_def f32_lt_def SafetyConfig_default_def
      default_protected_directory_names_def)

lemma load_strict_valid: "load_from_file_strict parse_file p = Inr c \<Longrightarrow> validate c = Inr ()"
  by (auto simp: load_from_file_strict_def)

lemma try_existing_valid:
  "validate (fst d) = Inr () \<Longrightarrow> validate (fst (try_existing parse_file path_exists p d)) = Inr ()"
  by (auto simp: try_existing_def dest: load_strict_valid split: sum.splits)


text \<open>Saving is atomic: wherever it fails, the file keeps its old content or has the complete new content, no other
  file but the temporary one changes, and it reports success exactly when the new content is in place and the
  temporary file is gone.\<close>

theorem save_atomic:
  assumes "tmp_path target \<noteq> target"
  shows "case save_to_file print_config fault c target fs of (r, fs') \<Rightarrow>
    (\<forall>p. p \<notin> {target, tmp_path target} \<longrightarrow> fs' p = fs p) \<and>
    (case r of
       Inl _ \<Rightarrow> fs' target = fs target
     | Inr _ \<Rightarrow> validate c = Inr () \<and> (\<exists>content. print_config c = Inr content \<and> fs' target = Some content) \<and>
         fs' (tmp_path target) = None)"
  using assms by (auto simp: save_to_file_def Let_def split: sum.splits option.splits SaveFault.splits)

theorem save_atomic_witness:
  "snd (save_to_file (\<lambda>_. Inr ''new'') (Some (FailWrite 1 28)) DaemonConfig_default ''/d/config.toml''
     [''/d/config.toml'' \<mapsto> ''old'']) ''/d/config.toml'' = Some ''old''"
proof -
  have tmp: "tmp_path ''/d/config.toml'' = ''/d/config.tmp''" by (simp add: tmp_path_def file_stem_def Let_def)
  obtain r fs' where run: "save_to_file (\<lambda>_. Inr ''new'') (Some (FailWrite 1 28)) DaemonConfig_default ''/d/config.toml''
      [''/d/config.toml'' \<mapsto> ''old''] = (r, fs')" by fastforce
  have "r = Inl (Io 28)" using run default_valid by (simp add: save_to_file_def Let_def)
  then show ?thesis
    using save_atomic [where target = "''/d/config.toml''" and print_config = "\<lambda>_. Inr ''new''" and
        fault = "Some (FailWrite 1 28)" and c = DaemonConfig_default and fs = "[''/d/config.toml'' \<mapsto> ''old'']"] run tmp
    by simp
qed

end
