(* ===== verification/Pipeline.thy ===== *)
theory Pipeline
  imports Catalog Scanner Recovery Scheduling Ipc Daemon_Config Policy Planner Authorization
begin

text \<open>
  The cleaning pipeline of \<open>pipeline/mod.rs\<close>, which composes all components: discovery, admission, claim, scan,
  safety gate, policy, plan, authorization, execution or dry run, and the bookkeeping at the end.  What the
  surroundings supply to one run, readings of the clock, the iteration order of the hash map, frozen users,
  cancellation, waits for permits, is an environment record.  The lemmas give the safety of a whole run, whatever
  the kernel and the store answer, and what the queue that is never emptied does to later runs.
\<close>

record Pipeline =
  pl_config :: DaemonConfig
  pl_catalog :: TargetCatalog
  pl_scan_counter :: u64
  pl_auth :: AuthorizationEngine
  pl_store :: SqliteStore
  pl_rm :: ResourceManager
  pl_scheduler :: SchedulerService
  pl_worker :: WorkerPool
  pl_config_generation :: ConfigGeneration

record PipelineEnv =
  ev_hash_order :: "TargetId \<Rightarrow> nat"
  ev_register :: UnixTimestamp
  ev_admitted :: UnixTimestamp
  ev_lease :: UnixTimestamp
  ev_attempt :: UnixTimestamp
  ev_now :: UnixTimestamp
  ev_gate :: "CandidateId \<Rightarrow> UnixTimestamp"
  ev_decided :: "CandidateId \<Rightarrow> UnixTimestamp"
  ev_planned :: UnixTimestamp
  ev_granted :: UnixTimestamp
  ev_executed :: UnixTimestamp
  ev_frozen_uids :: "u32 list"
  ev_cancelled :: "nat \<Rightarrow> bool"
  ev_base_exists :: "nat \<Rightarrow> bool"
  ev_wakes :: "nat \<Rightarrow> FdWake list list"
  ev_ops :: "nat \<Rightarrow> OpEnv"
  ev_elapsed :: u64
  ev_trimmed :: bool
  ev_job_done :: UnixTimestamp
  ev_attempt_done :: UnixTimestamp
  ev_error_text :: "CleanerError \<Rightarrow> string"

section \<open>One job\<close>

definition raw_config_of :: "DaemonConfig \<Rightarrow> bool \<Rightarrow> RawConfig" where
  "raw_config_of c dry = RawConfig_default\<lparr>
     raw_min_screen_off_secs := Some (dc_min_screen_off_secs c),
     raw_max_soc_temp_c := Some (dc_max_soc_temp_c c),
     raw_max_battery_temp_c := Some (dc_max_battery_temp_c c),
     raw_min_file_age_hours := Some (ucast (cl_min_file_age_hours (dc_cleaning c))),
     raw_dry_run := Some dry,
     raw_clean_app_cache := Some (cl_app_cache (dc_cleaning c)),
     raw_clean_code_cache := Some (cl_code_cache (dc_cleaning c)),
     raw_clean_tombstones := Some (cl_crash_dumps (dc_cleaning c)),
     raw_clean_oem_logs := Some (cl_oem_logs (dc_cleaning c)),
     raw_clean_temp_apks := Some (cl_temp_apks (dc_cleaning c)),
     raw_whitelist_packages := Some (sf_whitelist_packages (dc_safety c)),
     raw_protected_paths := Some (sf_protected_directory_names (dc_safety c)),
     raw_maintenance_interval_secs := Some (dc_maintenance_interval_secs c)\<rparr>"

text \<open>Safety gate and policy for the candidates of one target.\<close>

definition judge_candidate ::
  "PipelineEnv \<Rightarrow> EffectiveConfig \<Rightarrow> TargetDescriptor \<Rightarrow> Candidate \<Rightarrow> PolicyPermit option" where
  "judge_candidate env eff target cand =
    (case validate_candidate (ev_gate env (cand_id cand)) cand target of
       Inl _ \<Rightarrow> None
     | Inr safety_validated \<Rightarrow>
         (let is_frozen = (td_owner_uid target > 0 \<and> td_owner_uid target \<in> set (ev_frozen_uids env)) in
          case evaluate_candidate_with_freezer (ev_decided env (cand_id cand)) safety_validated target eff
                 (ev_now env) is_frozen of
            Allow permit \<Rightarrow> Some permit
          | _ \<Rightarrow> None))"

fun scan_targets ::
  "('h, 'w) Kernel \<Rightarrow> PipelineEnv \<Rightarrow> EffectiveConfig \<Rightarrow> nat \<Rightarrow> TargetDescriptor list \<Rightarrow> PolicyPermit list
    \<Rightarrow> u64 \<Rightarrow> ResourceManager \<Rightarrow> ('h, 'w) Proc
    \<Rightarrow> (PolicyPermit list, Failure) result \<times> u64 \<times> ResourceManager \<times> ('h, 'w) Proc" where
  "scan_targets K env eff i [] permits counter rm p = (Inr permits, counter, rm, p)"
| "scan_targets K env eff i (target # targets) permits counter rm p =
    (if ev_cancelled env i then (Inr permits, counter, rm, p)
     else case scan_target_with_resource K (ev_base_exists env i) target (ev_wakes env i) counter p rm of
       (Inl (Panic m), st) \<Rightarrow> (Inl (Panic m), sc_counter st, sc_rm st, sc_proc st)
     | (Inl (Err _), st) \<Rightarrow>
         scan_targets K env eff (i + 1) targets permits (sc_counter st) (sc_rm st) (sc_proc st)
     | (Inr result, st) \<Rightarrow>
         scan_targets K env eff (i + 1) targets
           (permits @ List.map_filter (judge_candidate env eff target) (scr_candidates result))
           (sc_counter st) (sc_rm st) (sc_proc st))"

definition dry_run_result :: "JobId \<Rightarrow> AttemptId \<Rightarrow> AuthorizedPlan \<Rightarrow> JobResult" where
  "dry_run_result j a auth =
    \<lparr> jr_job_id = j, jr_attempt_id = a, total_reclaimed = total_estimated_reclaim (ap_plan auth),
      total_operations = length (operations (ap_plan auth)), successful_operations = 0, failed_operations = 0,
      skipped_operations = length (operations (ap_plan auth)), duration_ms = 0 \<rparr>"

definition job_report :: "JobResult \<Rightarrow> bool \<Rightarrow> CleanReport" where
  "job_report jr trimmed = sync_compat_fields (CleanReport_default\<lparr>
     cr_storage := \<lparr> sr_total_freed_bytes = total_reclaimed jr, sr_deleted_files_count = successful_operations jr,
       sr_skipped_files_count = skipped_operations jr, sr_errors_count = failed_operations jr,
       sr_app_cache_bytes = total_reclaimed jr, sr_oem_logs_bytes = 0, sr_crash_dumps_bytes = 0,
       sr_temp_apks_bytes = 0, sr_frozen_apps_cleaned = 0, sr_active_apps_cleaned = 0 \<rparr>,
     cr_trim := \<lparr> tr_fstrim_completed = trimmed, tr_trimmed_mounts = [] \<rparr>,
     cr_duration_ms := duration_ms jr\<rparr>)"

text \<open>The targets in the order in which the hash map happens to iterate.\<close>

definition target_order :: "PipelineEnv \<Rightarrow> CatalogSnapshot \<Rightarrow> TargetDescriptor list" where
  "target_order env snap = map snd (sort_key (\<lambda>(t, _). ev_hash_order env t) (snap_targets snap))"

definition run_pipeline_job ::
  "('h, 'w) Kernel \<Rightarrow> PipelineEnv \<Rightarrow> JobAdmissionRequest \<Rightarrow> AttemptId \<Rightarrow> CatalogSnapshot \<Rightarrow> Pipeline \<Rightarrow> ('h, 'w) Proc
    \<Rightarrow> (CleanReport, Failure) result \<times> Pipeline \<times> ('h, 'w) Proc" where
  "run_pipeline_job K env admission a snap pl p =
    (case from_raw (raw_config_of (pl_config pl) (rq_dry_run admission)) of
       Inl f \<Rightarrow> (Inl f, pl, p)
     | Inr val_cfg \<Rightarrow>
     (let eff = \<lparr> generation = pl_config_generation pl, validated = val_cfg \<rparr> in
      case scan_targets K env eff 0 (target_order env snap) [] (pl_scan_counter pl) (pl_rm pl) p of
        (scanned, counter, rm1, p1) \<Rightarrow>
      let pl1 = pl\<lparr>pl_scan_counter := counter, pl_rm := rm1\<rparr> in
      case scanned of
        Inl f \<Rightarrow> (Inl f, pl1, p1)
      | Inr permits \<Rightarrow>
      (case build_plan (ev_planned env) (rq_job_id admission) (snap_generation snap)
              (rq_config_generation admission) permits of
         Inl e \<Rightarrow> (Inl (Err e), pl1, p1)
       | Inr plan \<Rightarrow>
      (case authorize_plan (ev_granted env) plan (snap_generation snap) 300 (rq_config_generation admission)
              (pl_auth pl1) of
         (Inl e, engine) \<Rightarrow> (Inl (Err e), pl1\<lparr>pl_auth := engine\<rparr>, p1)
       | (Inr auth, engine) \<Rightarrow>
      (let pl2 = pl1\<lparr>pl_auth := engine\<rparr>;
           trimmed = (rq_trim admission \<and> \<not> rq_dry_run admission \<and> ev_trimmed env) in
       if rq_dry_run admission
       then (Inr (job_report (dry_run_result (rq_job_id admission) a auth) trimmed), pl2, p1)
       else case execute_plan K auth snap (pl_config_generation pl2) a (ev_executed env) (ev_ops env)
                  (ev_elapsed env) p1 (pl_rm pl2) (pl_store pl2) of
         (Inl e, ex) \<Rightarrow> (Inl (Err e), pl2\<lparr>pl_rm := ex_rm ex, pl_store := ex_store ex\<rparr>, ex_proc ex)
       | (Inr jr, ex) \<Rightarrow>
           (Inr (job_report jr trimmed), pl2\<lparr>pl_rm := ex_rm ex, pl_store := ex_store ex\<rparr>, ex_proc ex))))))"

section \<open>Execution\<close>

definition admission_of :: "CleanParams \<Rightarrow> PipelineEnv \<Rightarrow> CatalogGeneration \<Rightarrow> ConfigGeneration \<Rightarrow> Admission" where
  "admission_of params env cat cfg =
    \<lparr> adm_source = (if cp_deep params then ManualIpc else PeriodicMaintenance), adm_deep = cp_deep params,
      adm_trim = cp_trim params, adm_dry_run = cp_dry_run params, adm_catalog_gen = cat, adm_config_gen = cfg,
      adm_now_register = ev_register env, adm_now = ev_admitted env \<rparr>"

text \<open>The bookkeeping after a job.  A total beyond the byte-count bound makes \<open>ByteCount::new\<close> panic.\<close>

definition settle_job ::
  "PipelineEnv \<Rightarrow> JobId \<Rightarrow> AttemptId \<Rightarrow> (CleanReport, Failure) result \<Rightarrow> Pipeline
    \<Rightarrow> (CleanReport, Failure) result \<times> Pipeline" where
  "settle_job env j a result pl =
    (case result of
       Inr report \<Rightarrow>
         (case ByteCount_new (sr_total_freed_bytes (cr_storage report)) of
            None \<Rightarrow> (Inl (Panic ''ByteCount exceeds MAX_SAFE''), pl)
          | Some freed \<Rightarrow>
             (case update_job_state (ev_job_done env) j ''COMPLETED'' freed (pl_store pl) of
                (Inl e, s1) \<Rightarrow> (Inl (Err e), pl\<lparr>pl_store := s1\<rparr>)
              | (Inr _, s1) \<Rightarrow>
                 (case finish_attempt (ev_attempt_done env) a j ''SUCCESS'' (pl_worker pl) s1 of
                    (Inl e, wp, s2) \<Rightarrow> (Inl (Err e), pl\<lparr>pl_store := s2, pl_worker := wp\<rparr>)
                  | (Inr _, wp, s2) \<Rightarrow> (result, pl\<lparr>pl_store := s2, pl_worker := wp\<rparr>))))
     | Inl (Panic m) \<Rightarrow> (result, pl)
     | Inl (Err e) \<Rightarrow>
         (let s1 = snd (update_job_state (ev_job_done env) j ''FAILED'' 0 (pl_store pl)) in
          case finish_attempt (ev_attempt_done env) a j (''FAILED: '' @ ev_error_text env e) (pl_worker pl) s1 of
            (_, wp, s2) \<Rightarrow> (result, pl\<lparr>pl_store := s2, pl_worker := wp\<rparr>)))"

definition execute ::
  "('h, 'w) Kernel \<Rightarrow> 'w FsView \<Rightarrow> PipelineEnv \<Rightarrow> CleanParams \<Rightarrow> Pipeline \<Rightarrow> ('h, 'w) Proc
    \<Rightarrow> (CleanReport, Failure) result \<times> Pipeline \<times> ('h, 'w) Proc" where
  "execute K V env params pl p =
    (case discover_all_targets K V (pl_catalog pl) p of (catalog, p1) \<Rightarrow>
     let snap = take_snapshot catalog; pl1 = pl\<lparr>pl_catalog := catalog\<rparr> in
     case admit_job (admission_of params env (snap_generation snap) (pl_config_generation pl1))
            (pl_scheduler pl1) (pl_store pl1) of
       (Inl e, sch, s1) \<Rightarrow> (Inl (Err e), pl1\<lparr>pl_scheduler := sch, pl_store := s1\<rparr>, p1)
     | (Inr admission, sch, s1) \<Rightarrow>
        (case claim_attempt (ev_lease env) (ev_attempt env) (rq_job_id admission) 300 (pl_worker pl1) s1 of
           (Inl e, wp, s2) \<Rightarrow> (Inl (Err e), pl1\<lparr>pl_scheduler := sch, pl_store := s2, pl_worker := wp\<rparr>, p1)
         | (Inr a, wp, s2) \<Rightarrow>
            (case run_pipeline_job K env admission a snap
                    (pl1\<lparr>pl_scheduler := sch, pl_store := s2, pl_worker := wp\<rparr>) p1 of
               (result, pl2, p2) \<Rightarrow>
                 (case settle_job env (rq_job_id admission) a result pl2 of (r, pl3) \<Rightarrow> (r, pl3, p2)))))"

definition update_config :: "DaemonConfig \<Rightarrow> Pipeline \<Rightarrow> Pipeline" where
  "update_config c pl = pl\<lparr>pl_config := c, pl_config_generation := ConfigGeneration_next_saturating (pl_config_generation pl)\<rparr>"

text \<open>Construction: discovery, recovery of crashed attempts, then scheduler and workers; all ids and counters start over.\<close>

definition Pipeline_new ::
  "('h, 'w) Kernel \<Rightarrow> 'w FsView \<Rightarrow> RecoveryClock \<Rightarrow> ResourceManager \<Rightarrow> DaemonConfig \<Rightarrow> SqliteStore \<Rightarrow> ('h, 'w) Proc
    \<Rightarrow> (Pipeline, Failure) result \<times> ('h, 'w) Proc" where
  "Pipeline_new K V clk rm c s p =
    (case discover_all_targets K V TargetCatalog_new p of (catalog, p1) \<Rightarrow>
     case reconcile_startup_crashes K (take_snapshot catalog) clk s p1 of (recovered, s1, p2) \<Rightarrow>
     case recovered of
       Inl (Panic m) \<Rightarrow> (Inl (Panic m), p2)
     | _ \<Rightarrow>
       (case SchedulerService_new s1 of (sch, s2) \<Rightarrow>
        case WorkerPool_new (WorkerId 1) s2 of (wp, s3) \<Rightarrow>
          (Inr \<lparr> pl_config = c, pl_catalog = catalog, pl_scan_counter = 1, pl_auth = AuthorizationEngine_new,
                 pl_store = s3, pl_rm = rm, pl_scheduler = sch, pl_worker = wp,
                 pl_config_generation = ConfigGeneration_INITIAL \<rparr>, p2)))"

section \<open>The calls of a run\<close>

text \<open>A removal the pipeline stands for: of a candidate found by a scan of a target of the snapshot, accepted by the
  safety gate and permitted by the policy under the effective configuration.\<close>

definition justified ::
  "PipelineEnv \<Rightarrow> EffectiveConfig \<Rightarrow> CatalogSnapshot \<Rightarrow> string \<Rightarrow> bool \<Rightarrow> bool" where
  "justified env eff snap leaf dir \<longleftrightarrow> (\<exists>d c sc. d \<in> snd ` set (snap_targets snap) \<and> candidate_ok d c \<and>
     validate_candidate (ev_gate env (cand_id c)) c d = Inr sc \<and> permitted sc d eff (ev_now env) \<and>
     cand_is_dir c = dir \<and> file_name (components (rp_str (cand_rel_path c))) = Some leaf)"

definition permit_ok :: "PipelineEnv \<Rightarrow> EffectiveConfig \<Rightarrow> TargetDescriptor set \<Rightarrow> PolicyPermit \<Rightarrow> bool" where
  "permit_ok env eff ds p \<longleftrightarrow> (\<exists>d\<in>ds. \<exists>c sc. candidate_ok d c \<and>
     validate_candidate (ev_gate env (cand_id c)) c d = Inr sc \<and> permitted sc d eff (ev_now env) \<and> pp_candidate p = sc)"

lemma judge_candidate_ok:
  assumes "judge_candidate env eff d c = Some p" "candidate_ok d c"
  shows "permit_ok env eff {d} p"
proof -
  obtain sc where sc: "validate_candidate (ev_gate env (cand_id c)) c d = Inr sc"
    using assms(1) by (auto simp: judge_candidate_def split: sum.splits)
  then obtain fz where ev: "evaluate_candidate_with_freezer (ev_decided env (cand_id c)) sc d eff (ev_now env) fz = Allow p"
    using assms(1) by (auto simp: judge_candidate_def Let_def split: PolicyDecision.splits)
  have "permitted sc d eff (ev_now env)" using ev evaluate_permit_iff by blast
  moreover have "pp_candidate p = sc" using evaluate_permit [OF ev] by simp
  ultimately show ?thesis using assms(2) sc by (auto simp: permit_ok_def)
qed

lemma scan_target_permits:
  assumes "scan_target_with_resource K b d wk c p rm = (Inr r, st)"
  shows "list_all (permit_ok env eff {d}) (List.map_filter (judge_candidate env eff d) (scr_candidates r))"
proof -
  have "list_all (candidate_ok d) (scr_candidates r)"
    using scan_target_spec [where K = K and base_exists = b and target = d and wakes = wk and ?c0.0 = c and p = p and rm = rm] assms
    by simp
  then show ?thesis
    using judge_candidate_ok by (fastforce simp: list_all_iff List.map_filter_def)
qed

lemma permit_ok_mono: "permit_ok env eff ds p \<Longrightarrow> ds \<subseteq> ds' \<Longrightarrow> permit_ok env eff ds' p"
  unfolding permit_ok_def by blast

lemma scan_targets_spec:
  "list_all (permit_ok env eff ds) permits \<Longrightarrow> set targets \<subseteq> ds \<Longrightarrow>
    scan_targets K env eff i targets permits c rm p = (x, c', rm', p') \<Longrightarrow>
    read_only p p' \<and> (case x of Inl f \<Rightarrow> \<exists>m. f = Panic m | Inr ps \<Rightarrow> list_all (permit_ok env eff ds) ps)"
proof (induction targets arbitrary: i permits c rm p)
  case (Cons d targets)
  obtain y st where scan: "scan_target_with_resource K (ev_base_exists env i) d (ev_wakes env i) c p rm = (y, st)" by fastforce
  have ro: "read_only p (sc_proc st)" and panic: "\<And>f. y = Inl f \<Longrightarrow> \<exists>m. f = Panic m"
    using scan_target_spec [where K = K and base_exists = "ev_base_exists env i" and target = d and
        wakes = "ev_wakes env i" and ?c0.0 = c and p = p and rm = rm] scan by (auto simp: read_only_def)
  show ?case
  proof (cases "ev_cancelled env i")
    case True
    then show ?thesis using Cons.prems by auto
  next
    case False
    show ?thesis
    proof (cases y)
      case (Inl f)
      then obtain m where "f = Panic m" using panic by blast
      then show ?thesis using Cons.prems(3) False scan Inl ro by auto
    next
      case (Inr r)
      have "list_all (permit_ok env eff ds) (List.map_filter (judge_candidate env eff d) (scr_candidates r))"
        using scan_target_permits [of K "ev_base_exists env i" d "ev_wakes env i" c p rm r st env eff] scan Inr
          permit_ok_mono [of env eff "{d}" _ ds] Cons.prems(2) by (auto simp: list_all_iff)
      then have "read_only (sc_proc st) p' \<and> (case x of Inl f \<Rightarrow> \<exists>m. f = Panic m | Inr ps \<Rightarrow> list_all (permit_ok env eff ds) ps)"
        using Cons.IH [of "permits @ List.map_filter (judge_candidate env eff d) (scr_candidates r)"] Cons.prems False scan Inr
        by simp
      then show ?thesis using read_only_trans [OF ro] by blast
    qed
  qed
qed auto

lemma set_target_order: "set (target_order env snap) = snd ` set (snap_targets snap)"
  by (simp add: target_order_def)

lemma plan_operation_permit:
  assumes "build_plan now j cat cfg permits = Inr plan" "oper \<in> set (operations plan)"
  shows "\<exists>p\<in>set permits. op_type oper = permit_op_type p"
proof -
  have "set (map op_type (operations plan)) = set (map permit_op_type (planned_order permits))"
    using build_plan_Inr(2) [OF assms(1)] plan_state_types [of permits] by simp
  then show ?thesis
    using assms(2) mset_planned_order [of permits] by (metis (no_types, lifting) image_iff list.set_map set_mset_mset)
qed

lemma execute_plan_calls:
  assumes run: "execute_plan K auth snap cfg a now envs elapsed p rm s = (x, st')"
  shows "\<exists>evs. extends p (ex_proc st') evs \<and>
    (is_authorized_for_execution auth now (snap_generation snap) cfg \<or> (evs = [] \<and> (\<exists>e. x = Inl e))) \<and>
    (\<forall>h leaf dir u. SysUnlink h leaf dir u \<in> set evs \<longrightarrow> (\<exists>oper\<in>set (operations (ap_plan auth)). \<exists>t rel f.
       removal_of (op_type oper) = Some (t, rel, f, dir) \<and> file_name (components (rp_str rel)) = Some leaf))"
proof (cases "is_authorized_for_execution auth now (snap_generation snap) cfg")
  case False
  then show ?thesis using run by (intro exI [of _ "[]"]) (auto simp: execute_plan_def exec_init_def)
next
  case True
  obtain y st1 where ops: "execute_ops K auth snap a envs (operations (ap_plan auth)) (exec_init p rm s) = (y, st1)" by fastforce
  have "ex_proc st' = ex_proc st1" using run True ops by (auto simp: execute_plan_def)
  moreover have "successes_recorded (exec_init p rm s)" by (simp add: successes_recorded_def exec_init_def)
  note execute_ops_effect [OF ops this, of None]
  ultimately show ?thesis
    using True by (fastforce simp: exec_init_def unlink_justified_def)
qed

lemma planned_removal_justified:
  assumes "build_plan now j cat cfg permits = Inr plan" "oper \<in> set (operations plan)"
    and "list_all (permit_ok env eff (snd ` set (snap_targets snap))) permits"
    and "removal_of (op_type oper) = Some (t, rel, f, dir)" "file_name (components (rp_str rel)) = Some leaf"
  shows "justified env eff snap leaf dir"
proof -
  obtain p where p: "p \<in> set permits" "op_type oper = permit_op_type p"
    using plan_operation_permit [OF assms(1,2)] by blast
  then obtain d c sc where ok: "d \<in> snd ` set (snap_targets snap)" "candidate_ok d c"
    "validate_candidate (ev_gate env (cand_id c)) c d = Inr sc" "permitted sc d eff (ev_now env)" "pp_candidate p = sc"
    using bspec [OF assms(3) [unfolded list_all_iff] p(1)] unfolding permit_ok_def by blast
  have "svc_candidate sc = c" using ok(3) by (auto simp: validate_candidate_def SafetyValidatedCandidate_new_def split: if_splits)
  then have "rel = cand_rel_path c" "dir = cand_is_dir c"
    using assms(4) p(2) ok(5) by (auto simp: permit_op_type_def permit_cand_def removal_of_def Let_def split: if_splits)
  then show ?thesis using ok assms(5) unfolding justified_def by blast
qed

text \<open>The effective configuration of a job.\<close>

definition eff_of :: "Pipeline \<Rightarrow> ValidatedConfig \<Rightarrow> EffectiveConfig" where
  "eff_of pl v = \<lparr> generation = pl_config_generation pl, validated = v \<rparr>"

definition job_calls ::
  "PipelineEnv \<Rightarrow> JobAdmissionRequest \<Rightarrow> CatalogSnapshot \<Rightarrow> Pipeline \<Rightarrow> (CleanReport, Failure) result \<Rightarrow> 'h SysEvent list \<Rightarrow> bool" where
  "job_calls env adm snap pl x evs \<longleftrightarrow>
    (\<forall>h leaf dir u. SysUnlink h leaf dir u \<in> set evs \<longrightarrow> \<not> rq_dry_run adm \<and>
       rq_config_generation adm = pl_config_generation pl \<and>
       (\<exists>v. from_raw (raw_config_of (pl_config pl) False) = Inr v \<and> justified env (eff_of pl v) snap leaf dir)) \<and>
    (rq_dry_run adm \<or> rq_config_generation adm = pl_config_generation pl \<or> (\<exists>f. x = Inl f))"

lemma no_unlink_set: "no_unlink evs \<Longrightarrow> SysUnlink h leaf dir u \<notin> set evs"
  by (induction evs) auto

lemma run_job_calls:
  assumes run: "run_pipeline_job K env adm a snap pl p = (x, pl', p')"
  shows "\<exists>evs. extends p p' evs \<and> job_calls env adm snap pl x evs"
proof -
  have quiet: "job_calls env adm snap pl y evs" if "no_unlink evs" "rq_dry_run adm \<or> (\<exists>f. y = Inl f)" for evs y
    using that(2) no_unlink_set [OF that(1)] unfolding job_calls_def by auto
  show ?thesis
  proof (cases "from_raw (raw_config_of (pl_config pl) (rq_dry_run adm))")
    case (Inl f)
    then show ?thesis using run quiet [of "[]" x] by (intro exI [of _ "[]"]) (auto simp: run_pipeline_job_def)
  next
    case (Inr v)
    obtain y c1 rm1 p1 where scan: "scan_targets K env (eff_of pl v) 0 (target_order env snap) [] (pl_scan_counter pl) (pl_rm pl) p
        = (y, c1, rm1, p1)" by (metis prod.collapse)
    obtain evs1 where evs1: "extends p p1 evs1" "no_unlink evs1"
      and scanned: "case y of Inl f \<Rightarrow> \<exists>m. f = Panic m
        | Inr ps \<Rightarrow> list_all (permit_ok env (eff_of pl v) (snd ` set (snap_targets snap))) ps"
      using scan_targets_spec [OF _ _ scan, of "snd ` set (snap_targets snap)"]
      by (auto simp: set_target_order read_only_def)
    note step = run [unfolded run_pipeline_job_def Inr sum.case Let_def eff_of_def [symmetric] scan prod.case]
    have quiet1: ?thesis if "p' = p1" "rq_dry_run adm \<or> (\<exists>f. x = Inl f)"
      using evs1 quiet [OF evs1(2) that(2)] that(1) by blast
    show ?thesis
    proof (cases y)
      case (Inl f)
      then show ?thesis using step quiet1 by auto
    next
      case ps: (Inr ps)
      note step = step [unfolded ps sum.case]
      show ?thesis
      proof (cases "build_plan (ev_planned env) (rq_job_id adm) (snap_generation snap) (rq_config_generation adm) ps")
        case (Inl e)
        then show ?thesis using step quiet1 by auto
      next
        case plan: (Inr plan)
        obtain w engine where auth: "authorize_plan (ev_granted env) plan (snap_generation snap) 300
            (rq_config_generation adm) (pl_auth pl) = (w, engine)" by fastforce
        have auth': "authorize_plan (ev_granted env) plan (snap_generation snap) 300 (rq_config_generation adm)
            (pl_auth (pl\<lparr>pl_scan_counter := c1, pl_rm := rm1\<rparr>)) = (w, engine)" using auth by simp
        note step = step [unfolded plan sum.case auth' prod.case]
        show ?thesis
        proof (cases w)
          case (Inl e)
          then show ?thesis using step quiet1 by auto
        next
          case aut: (Inr aut)
          note gens = authorize_plan_Inr [OF auth [unfolded aut]]
          show ?thesis
          proof (cases "rq_dry_run adm")
            case True
            then show ?thesis using step aut quiet1 by auto
          next
            case wet: False
            let ?pl2 = "pl\<lparr>pl_scan_counter := c1, pl_rm := rm1, pl_auth := engine\<rparr>"
            obtain z ex where ex': "execute_plan K aut snap (pl_config_generation ?pl2) a (ev_executed env) (ev_ops env)
                (ev_elapsed env) p1 (pl_rm ?pl2) (pl_store ?pl2) = (z, ex)" by fastforce
            have ex: "execute_plan K aut snap (pl_config_generation pl) a (ev_executed env) (ev_ops env)
                (ev_elapsed env) p1 rm1 (pl_store pl) = (z, ex)" using ex' by simp
            note step = step [unfolded aut sum.case if_not_P [OF wet] ex' prod.case]
            have fin: "p' = ex_proc ex" "(\<exists>e. z = Inl e) \<Longrightarrow> \<exists>f. x = Inl f"
              using step by (cases z; auto)+
            obtain evs2 where evs2: "extends p1 p' evs2"
              "is_authorized_for_execution aut (ev_executed env) (snap_generation snap) (pl_config_generation pl)
                \<or> (evs2 = [] \<and> (\<exists>e. z = Inl e))"
              "\<And>h leaf dir u. SysUnlink h leaf dir u \<in> set evs2 \<Longrightarrow> \<exists>oper\<in>set (operations plan). \<exists>t rel f.
                removal_of (op_type oper) = Some (t, rel, f, dir) \<and> file_name (components (rp_str rel)) = Some leaf"
              using execute_plan_calls [OF ex] fin(1) gens(1) by blast
            have fresh: "rq_config_generation adm = pl_config_generation pl \<or> (evs2 = [] \<and> (\<exists>f. x = Inl f))"
              using evs2(2) gens(1,3) fin(2) by (auto simp: is_authorized_for_execution_def)
            have "justified env (eff_of pl v) snap leaf dir" if u: "SysUnlink h leaf dir u \<in> set evs2" for h leaf dir u
              using evs2(3) [OF u] planned_removal_justified [OF plan] scanned ps by auto
            then have "job_calls env adm snap pl x (evs1 @ evs2)"
              using fresh wet Inr no_unlink_set [OF evs1(2)] unfolding job_calls_def by auto
            then show ?thesis using extends_trans [OF evs1(1) evs2(1)] by blast
          qed
        qed
      qed
    qed
  qed
qed

text \<open>The request a run is admitted with.\<close>

definition admitted_request :: "PipelineEnv \<Rightarrow> CleanParams \<Rightarrow> CatalogGeneration \<Rightarrow> Pipeline \<Rightarrow> JobAdmissionRequest" where
  "admitted_request env params cat pl =
    (let x = admission_of params env cat (pl_config_generation pl) in
     case sch_queue (pl_scheduler pl) of
       r # _ \<Rightarrow> coalesced r [x]
     | [] \<Rightarrow> \<lparr> rq_job_id = JobId (sch_job_counter (pl_scheduler pl)), rq_source = adm_source x, rq_deep = adm_deep x,
              rq_trim = adm_trim x, rq_dry_run = adm_dry_run x, rq_catalog_generation = adm_catalog_gen x,
              rq_config_generation = adm_config_gen x, rq_admitted_at = adm_now x \<rparr>)"

lemma admit_request:
  assumes "admit_job (admission_of params env cat (pl_config_generation pl)) (pl_scheduler pl) s = (Inr r, sch, s1)"
  shows "r = admitted_request env params cat pl \<and> (\<exists>rest. sch_queue sch = r # rest)"
proof (cases "sch_queue (pl_scheduler pl)")
  case Nil
  then show ?thesis using assms by (auto simp: admit_job_def admitted_request_def Let_def split: prod.splits sum.splits)
next
  case (Cons q rest)
  then show ?thesis using assms admit_job_queued [OF Cons] by (auto simp: admitted_request_def)
qed

lemma settle_job_frame:
  assumes "settle_job env j a x pl = (y, pl')"
  shows "pl_scheduler pl' = pl_scheduler pl" "pl_config_generation pl' = pl_config_generation pl"
    "pl_config pl' = pl_config pl" "(\<exists>f. x = Inl f) \<Longrightarrow> \<exists>f. y = Inl f"
  using assms by (auto simp: settle_job_def Let_def split: sum.splits option.splits prod.splits Failure.splits)

lemma run_job_frame:
  assumes "run_pipeline_job K env adm a snap pl p = (x, pl', p')"
  shows "pl_scheduler pl' = pl_scheduler pl \<and> pl_config_generation pl' = pl_config_generation pl"
proof -
  have "pl_scheduler (fst (snd (run_pipeline_job K env adm a snap pl p))) = pl_scheduler pl \<and>
      pl_config_generation (fst (snd (run_pipeline_job K env adm a snap pl p))) = pl_config_generation pl"
    unfolding run_pipeline_job_def Let_def by (simp split: sum.split prod.split)
  then show ?thesis using assms by simp
qed

lemma run_job_keeps_config: "pl_config (fst (snd (run_pipeline_job K env adm a snap pl p))) = pl_config pl"
  unfolding run_pipeline_job_def Let_def by (simp split: sum.split prod.split)

lemma execute_keeps_config: "pl_config (fst (snd (execute K V env params pl p))) = pl_config pl"
proof -
  have job: "pl_config pl' = pl_config pl1" if "run_pipeline_job K env adm a snap pl1 p1 = (x, pl', p')" for adm a snap pl1 p1 x pl' p'
    using run_job_keeps_config [of K env adm a snap pl1 p1] that by simp
  show ?thesis
    unfolding execute_def Let_def by (auto dest!: job settle_job_frame(3) split: prod.split sum.split)
qed

text \<open>A run either stops before the job, with discovery as its only calls, or runs the admitted request.\<close>

lemma execute_cases:
  assumes run: "execute K V env params pl p = (x, pl', p')"
    and disc: "discover_all_targets K V (pl_catalog pl) p = (catalog, p1)"
  obtains (stopped) "p' = p1" "\<exists>f. x = Inl f" "pl_config_generation pl' = pl_config_generation pl"
  | (ran) adm a y pl1 pl2 where "adm = admitted_request env params (snap_generation (take_snapshot catalog)) pl"
      "pl_config pl1 = pl_config pl" "pl_config_generation pl1 = pl_config_generation pl"
      "run_pipeline_job K env adm a (take_snapshot catalog) pl1 p1 = (y, pl2, p')" "(\<exists>f. y = Inl f) \<Longrightarrow> (\<exists>f. x = Inl f)"
      "\<exists>rest. sch_queue (pl_scheduler pl') = adm # rest" "pl_config_generation pl' = pl_config_generation pl"
proof -
  let ?snap = "take_snapshot catalog" and ?pl1 = "pl\<lparr>pl_catalog := catalog\<rparr>"
  obtain r sch s1 where adm: "admit_job (admission_of params env (snap_generation ?snap) (pl_config_generation ?pl1))
      (pl_scheduler ?pl1) (pl_store ?pl1) = (r, sch, s1)" by (rule prod_cases3)
  note step = run [unfolded execute_def Let_def disc prod.case adm]
  show thesis
  proof (cases r)
    case (Inl e)
    then show thesis using step stopped by auto
  next
    case adm': (Inr q)
    have "q = admitted_request env params (snap_generation ?snap) pl \<and> (\<exists>rest. sch_queue sch = q # rest)"
      by (rule admit_request [of params env "snap_generation ?snap" pl "pl_store pl" q sch s1]) (use adm adm' in simp)
    then have q: "q = admitted_request env params (snap_generation ?snap) pl" "\<exists>rest. sch_queue sch = q # rest" by blast+
    obtain c wp s2 where cl: "claim_attempt (ev_lease env) (ev_attempt env) (rq_job_id q) 300 (pl_worker ?pl1) s1 = (c, wp, s2)"
      by (rule prod_cases3)
    note step = step [unfolded adm' sum.case cl prod.case]
    show thesis
    proof (cases c)
      case (Inl e)
      then show thesis using step stopped by auto
    next
      case (Inr a)
      let ?pl2 = "?pl1\<lparr>pl_scheduler := sch, pl_store := s2, pl_worker := wp\<rparr>"
      obtain y pl2 p2 where job: "run_pipeline_job K env q a ?snap ?pl2 p1 = (y, pl2, p2)" by (rule prod_cases3)
      obtain z pl3 where set: "settle_job env (rq_job_id q) a y pl2 = (z, pl3)" by fastforce
      note step = step [unfolded Inr sum.case job prod.case set]
      have "x = z" "pl' = pl3" "p' = p2" using step by simp_all
      then show thesis
        using ran [of q ?pl2 a y pl2] q job settle_job_frame [OF set] run_job_frame [OF job] by simp
    qed
  qed
qed

section \<open>Properties\<close>

lemma pipeline_calls:
  "case execute K V env params pl p of (x, pl', p') \<Rightarrow>
   let snap = take_snapshot (fst (discover_all_targets K V (pl_catalog pl) p)) in
     \<exists>evs. extends p p' evs \<and>
       list_all (\<lambda>ev. case ev of
           SysUnlink h leaf dir u \<Rightarrow> (\<exists>v. from_raw (raw_config_of (pl_config pl) False) = Inr v \<and>
             justified env (eff_of pl v) snap leaf dir)
         | _ \<Rightarrow> True) evs \<and>
       (if rq_dry_run (admitted_request env params (snap_generation snap) pl) then no_unlink evs else True)"
proof -
  obtain x pl' p' where run: "execute K V env params pl p = (x, pl', p')" by (rule prod_cases3)
  obtain catalog p1 where disc: "discover_all_targets K V (pl_catalog pl) p = (catalog, p1)" by fastforce
  obtain evs1 where evs1: "extends p p1 evs1" "no_unlink evs1"
    using discover_spec [where K = K and V = V and c = "pl_catalog pl" and p = p] disc by auto
  define adm where "adm = admitted_request env params (snap_generation (take_snapshot catalog)) pl"
  have "\<exists>evs. extends p p' evs \<and> (\<forall>h leaf dir u. SysUnlink h leaf dir u \<in> set evs \<longrightarrow> \<not> rq_dry_run adm \<and>
      (\<exists>v. from_raw (raw_config_of (pl_config pl) False) = Inr v \<and> justified env (eff_of pl v) (take_snapshot catalog) leaf dir))"
    using run disc
  proof (cases rule: execute_cases)
    case stopped
    then show ?thesis using evs1(1) no_unlink_set [OF evs1(2)] by (intro exI [of _ evs1]) auto
  next
    case (ran adm' a y pl1 pl2)
    obtain evs2 where evs2: "extends p1 p' evs2" "job_calls env adm' (take_snapshot catalog) pl1 y evs2"
      using run_job_calls [OF ran(4)] by blast
    have "eff_of pl1 v = eff_of pl v" for v using ran(3) by (simp add: eff_of_def)
    then show ?thesis
      using extends_trans [OF evs1(1) evs2(1)] evs2(2) no_unlink_set [OF evs1(2)] ran(1,2)
      unfolding job_calls_def adm_def by (intro exI [of _ "evs1 @ evs2"]) auto
  qed
  then obtain evs where evs: "extends p p' evs" "\<And>h leaf dir u. SysUnlink h leaf dir u \<in> set evs \<Longrightarrow> \<not> rq_dry_run adm \<and>
      (\<exists>v. from_raw (raw_config_of (pl_config pl) False) = Inr v \<and> justified env (eff_of pl v) (take_snapshot catalog) leaf dir)"
    by blast
  have "no_unlink evs" if "rq_dry_run adm"
    using evs(2) that by (auto simp: no_unlink_def is_unlink_def list_all_iff split: SysEvent.splits)
  then show ?thesis
    using evs unfolding run disc Let_def fst_conv prod.case adm_def
    by (intro exI [of _ evs]) (auto simp: list_all_iff split: SysEvent.splits)
qed


lemma execute_dry_run_irrelevant:
  assumes "sch_queue (pl_scheduler pl) = r # rest" "\<not> rq_dry_run r"
  shows "execute K V env (params\<lparr>cp_dry_run := b\<rparr>) pl p = execute K V env (params\<lparr>cp_dry_run := b'\<rparr>) pl p"
proof -
  have "admit_job (admission_of (params\<lparr>cp_dry_run := b\<rparr>) env cat cfg) (pl_scheduler pl) s =
      admit_job (admission_of (params\<lparr>cp_dry_run := b'\<rparr>) env cat cfg) (pl_scheduler pl) s" for cat cfg s
    using assms by (simp add: admit_job_def admission_of_def)
  then show ?thesis unfolding execute_def Let_def by simp
qed

text \<open>A device on which nothing exists, and a pipeline at its start.\<close>

definition closed_kernel :: "(unit, unit) Kernel" where
  "closed_kernel = \<lparr> k_open = (\<lambda>_ w. (Inl ENOENT, w)), k_fstat = (\<lambda>_ w. (Inl EIO, w)), k_statat = (\<lambda>_ _ w. (Inl ENOENT, w)),
     k_openat2 = (\<lambda>_ _ w. (Inl ENOENT, w)), k_openat = (\<lambda>_ _ w. (Inl ENOENT, w)), k_getdents = (\<lambda>_ w. ([], w)),
     k_unlinkat = (\<lambda>_ _ _ w. (Inl ENOENT, w)) \<rparr>"

definition closed_view :: "unit FsView" where
  "closed_view = \<lparr> fv_exists = (\<lambda>_ _. False), fv_is_dir = (\<lambda>_ _. False), fv_read_dir = (\<lambda>_ _. None),
     fv_entry_metadata = (\<lambda>_ _ _. Inl ENOENT), fv_owner = (\<lambda>_ _. None), fv_canonicalize = (\<lambda>_ _. None),
     fv_property = (\<lambda>_ _. None) \<rparr>"

definition quiet_env :: PipelineEnv where
  "quiet_env = \<lparr> ev_hash_order = (\<lambda>_. 0), ev_register = 5, ev_admitted = 5, ev_lease = 5, ev_attempt = 5, ev_now = 5,
     ev_gate = (\<lambda>_. 5), ev_decided = (\<lambda>_. 5), ev_planned = 5, ev_granted = 5, ev_executed = 6, ev_frozen_uids = [],
     ev_cancelled = (\<lambda>_. False), ev_base_exists = (\<lambda>_. False), ev_wakes = (\<lambda>_. []), ev_ops = (\<lambda>_. example_env),
     ev_elapsed = 1, ev_trimmed = False, ev_job_done = 7, ev_attempt_done = 7, ev_error_text = (\<lambda>_. ''error'') \<rparr>"

definition bare_config :: DaemonConfig where
  "bare_config = DaemonConfig_default\<lparr>dc_safety := \<lparr> sf_mode = Safe, sf_whitelist_packages = [],
     sf_protected_directory_names = [''databases''] \<rparr>\<rparr>"

definition new_pipeline :: Pipeline where
  "new_pipeline = \<lparr> pl_config = bare_config, pl_catalog = TargetCatalog_new, pl_scan_counter = 1,
     pl_auth = AuthorizationEngine_new, pl_store = Store_empty [], pl_rm = ResourceManager_new 0 4 TNormal,
     pl_scheduler = \<lparr> sch_queue = [], sch_job_counter = 1 \<rparr>,
     pl_worker = \<lparr> wp_worker_id = WorkerId 1, wp_attempt_counter = 1, wp_is_running = False \<rparr>,
     pl_config_generation = ConfigGeneration_INITIAL \<rparr>"

definition real_run :: CleanParams where
  "real_run = \<lparr> cp_deep = False, cp_trim = False, cp_zram_compact = False, cp_dry_run = False \<rparr>"

lemma closed_open: "open_root closed_kernel path p = (Inl (Io ENOENT), p\<lparr>sys_log := sys_log p @ [SysOpen path (Inl ENOENT)]\<rparr>)"
  by (simp add: open_root_def open_root_with_permit_def sys_open_def closed_kernel_def log_event_def)

lemma closed_discovery:
  "\<exists>p'. discover_all_targets closed_kernel closed_view TargetCatalog_new p =
     (\<lparr> cat_snapshot = \<lparr> snap_generation = CatalogGeneration 2, snap_targets = [] \<rparr> \<rparr>, p')"
proof -
  have users: "enumerate_users closed_view w = [android_user closed_view w 0]" for w
    by (simp add: enumerate_users_def closed_view_def ids_in_def sort_dedup_def)
  have gen: "next_generation (CatalogGeneration 1) = CatalogGeneration 2"
    by (simp add: next_generation_def CatalogGeneration_next_def checked_add_def)
  have "check_encryption_state closed_view w 0 = Unencrypted" for w
    by (simp add: check_encryption_state_def closed_view_def)
  moreover have "snd (collect_android_user_targets closed_kernel closed_view d 0 g [] p) = ([], p)" for d g
    by (simp add: collect_android_user_targets_def closed_view_def)
  moreover have "snd (collect_android_external_targets closed_kernel closed_view d 0 g [] p) = ([], p)" for d g
    by (simp add: collect_android_external_targets_def closed_view_def)
  ultimately have user:
    "discover_user closed_kernel closed_view g (android_user closed_view w 0) (False, [], p) = (True, [], p)" for g w
    by (simp add: discover_user_def android_user_def Let_def split: prod.splits) (metis prod.sel)
  have system: "fst (snd (collect_system_targets closed_kernel closed_view g [] p)) = []" for g
    by (simp add: collect_system_targets_def SYSTEM_JUNK_LOCATIONS_def closed_open closed_view_def Let_def)
  show ?thesis
    using system [of "CatalogGeneration 2"]
    by (simp add: discover_all_targets_def users user gen TargetCatalog_new_def current_generation_def Let_def case_prod_beta)
qed

lemma bare_config_accepted: "\<exists>v. from_raw (raw_config_of bare_config b) = Inr v"
proof -
  have half: "\<exists>q::rat. q * 2 = 79 \<and> 20 \<le> q \<and> q \<le> 65" by (rule exI [of _ "79 / 2"]) simp
  have "early_checks (raw_config_of bare_config b)" "late_checks (raw_config_of bare_config b)"
    "unat (unwrap_or (raw_app_cache_threshold_mb (raw_config_of bare_config b)) 50) \<le> 10240"
    by (simp_all add: early_checks_def late_checks_def raw_config_of_def bare_config_def DaemonConfig_default_def RawConfig_default_def half)
  then show ?thesis using from_raw_late(1) by blast
qed

lemma new_pipeline_runs:
  "\<exists>report pl1 p1. execute closed_kernel closed_view quiet_env real_run new_pipeline
     \<lparr> world = (), openat2_supported = True, sys_log = [] \<rparr> = (Inr report, pl1, p1)"
proof -
  obtain p' where disc: "discover_all_targets closed_kernel closed_view TargetCatalog_new
      \<lparr> world = (), openat2_supported = True, sys_log = [] \<rparr> =
      (\<lparr> cat_snapshot = \<lparr> snap_generation = CatalogGeneration 2, snap_targets = [] \<rparr> \<rparr>, p')"
    using closed_discovery by blast
  obtain v where v: "from_raw (raw_config_of bare_config False) = Inr v" using bare_config_accepted by blast
  show ?thesis
    by (simp add: execute_def new_pipeline_def disc take_snapshot_def admission_of_def real_run_def quiet_env_def
        admit_job_def register_job_def sql_fault_def Store_empty_def job_exists_def claim_attempt_def acquire_lease_def
        delete_expired_def create_attempt_def run_pipeline_job_def v target_order_def plan_eval authorize_plan_def
        next_grant_id_def AuthorizationEngine_new_def execute_plan_def is_authorized_for_execution_def is_valid_at_def
        saturating_add_def exec_init_def job_result_def job_report_def settle_job_def sync_compat_fields_def ByteCount_new_def
        update_job_state_def finish_attempt_def update_attempt_state_def Let_def)
qed



lemma generation_moves: "g \<noteq> ConfigGeneration (- 1) \<Longrightarrow> ConfigGeneration_next_saturating g \<noteq> g"
  by (cases g) (auto simp: ConfigGeneration_next_saturating_def saturating_add_def)



text \<open>A configuration that the daemon's validation accepts can make every run fail: with a maintenance interval of
  30 to 59 seconds each run is rejected by the second validation, after discovery and before anything is removed.\<close>

theorem accepted_config_never_cleans:
  assumes "dc_maintenance_interval_secs (pl_config pl) < 60"
  shows "case execute K V env params pl p of (x, pl', p') \<Rightarrow>
    (\<exists>evs. extends p p' evs \<and> no_unlink evs) \<and> (\<exists>f. x = Inl f)"
proof -
  obtain x pl' p' where run: "execute K V env params pl p = (x, pl', p')" by (rule prod_cases3)
  obtain catalog p1 where disc: "discover_all_targets K V (pl_catalog pl) p = (catalog, p1)" by fastforce
  obtain evs1 where evs1: "extends p p1 evs1" "no_unlink evs1"
    using discover_spec [where K = K and V = V and c = "pl_catalog pl" and p = p] disc by auto
  have raw: "\<exists>f. from_raw (raw_config_of (pl_config pl) b) = Inl f" for b
    using assms by (simp add: from_raw_def raw_config_of_def Let_def not_le [symmetric])
  have "(\<exists>evs. extends p p' evs \<and> no_unlink evs) \<and> (\<exists>f. x = Inl f)"
    using run disc
  proof (cases rule: execute_cases)
    case stopped
    then show ?thesis using evs1 by blast
  next
    case (ran adm a y pl1 pl2)
    obtain f where "from_raw (raw_config_of (pl_config pl1) (rq_dry_run adm)) = Inl f" using raw ran(2) by metis
    then have "p' = p1" "y = Inl f" using ran(4) by (auto simp: run_pipeline_job_def)
    then show ?thesis using evs1 ran(5) by blast
  qed
  then show ?thesis using run by simp
qed

theorem accepted_config_never_cleans_witness:
  "validate (bare_config\<lparr>dc_maintenance_interval_secs := 30\<rparr>) = Inr () \<and>
   (\<exists>f. fst (execute closed_kernel closed_view quiet_env real_run
      (new_pipeline\<lparr>pl_config := bare_config\<lparr>dc_maintenance_interval_secs := 30\<rparr>\<rparr>)
      \<lparr> world = (), openat2_supported = True, sys_log = [] \<rparr>) = Inl f)"
proof -
  have "validate (bare_config\<lparr>dc_maintenance_interval_secs := 30\<rparr>) = Inr ()"
    by (simp add: validate_def bare_config_def DaemonConfig_default_def f32_lt_def)
  moreover have "\<exists>f. fst (execute closed_kernel closed_view quiet_env real_run
      (new_pipeline\<lparr>pl_config := bare_config\<lparr>dc_maintenance_interval_secs := 30\<rparr>\<rparr>)
      \<lparr> world = (), openat2_supported = True, sys_log = [] \<rparr>) = Inl f"
    using accepted_config_never_cleans [where K = closed_kernel and V = closed_view and env = quiet_env and params = real_run and
        pl = "new_pipeline\<lparr>pl_config := bare_config\<lparr>dc_maintenance_interval_secs := 30\<rparr>\<rparr>" and
        p = "\<lparr> world = (), openat2_supported = True, sys_log = [] \<rparr>"]
    by (auto split: prod.splits)
  ultimately show ?thesis ..
qed

end
