(* ===== verification/Sysfs.thy ===== *)
theory Sysfs
  imports Platform Daemon_Config
begin

text \<open>
  How the daemon reads the text files of the kernel: the state of the pseudo file systems as a parameter, the reads of
  \<open>std::fs\<close> and of \<open>util/io_fast.rs\<close>, and the string methods those parsers use (white space as Unicode defines it,
  lines, fields, numbers and decimal floats).  A float is its exact rational value, so the rounding of a parsed number
  is not part of the model; letters outside ASCII keep their case.  The lemmas give the round trip of a number
  written on a line, and the laws of splitting at a character.
\<close>

section \<open>The file system as it is read\<close>

text \<open>One state of the pseudo file systems: \<open>exists\<close>, \<open>is_dir\<close>, the names of the readable entries of a directory, the
  content of a readable file, the output of a command that ends successfully, and the property service.\<close>

record SysFs =
  sy_exists :: "string \<Rightarrow> bool"
  sy_is_dir :: "string \<Rightarrow> bool"
  sy_read_dir :: "string \<Rightarrow> string list option"
  sy_content :: "string \<Rightarrow> string option"
  sy_command :: "string list \<Rightarrow> string option"
  sy_libc_property :: "string \<Rightarrow> string option"

text \<open>One read into a buffer of \<open>n\<close> bytes.\<close>

definition read_file_to_buf :: "SysFs \<Rightarrow> string \<Rightarrow> nat \<Rightarrow> string option" where
  "read_file_to_buf S path n =
    (case sy_content S path of
       None \<Rightarrow> None
     | Some content \<Rightarrow> if is_utf8 (take n content) then Some (take n content) else None)"

definition read_to_string :: "SysFs \<Rightarrow> string \<Rightarrow> string option" where
  "read_to_string S path =
    (case sy_content S path of None \<Rightarrow> None | Some content \<Rightarrow> if is_utf8 content then Some content else None)"

definition entries_of :: "SysFs \<Rightarrow> string \<Rightarrow> string list" where
  "entries_of S dir = (case sy_read_dir S dir of None \<Rightarrow> [] | Some names \<Rightarrow> names)"

definition child :: "string \<Rightarrow> string \<Rightarrow> string" where
  "child dir name = dir @ ''/'' @ name"

text \<open>The first answer in a list of places.\<close>

fun first_some :: "('a \<Rightarrow> 'b option) \<Rightarrow> 'a list \<Rightarrow> 'b option" where
  "first_some f [] = None"
| "first_some f (x # xs) = (case f x of Some y \<Rightarrow> Some y | None \<Rightarrow> first_some f xs)"

lemma first_some_Some: "first_some f xs = Some y \<Longrightarrow> \<exists>x \<in> set xs. f x = Some y"
  by (induction xs) (auto split: option.splits)

section \<open>Splitting\<close>

fun contains :: "string \<Rightarrow> string \<Rightarrow> bool" where
  "contains pat [] = (pat = [])"
| "contains pat (c # cs) = (prefix pat (c # cs) \<or> contains pat cs)"

lemma contains_iff: "contains pat s \<longleftrightarrow> (\<exists>a b. s = a @ pat @ b)"
proof (induction s)
  case (Cons c cs)
  have "(\<exists>a b. c # cs = a @ pat @ b) \<longleftrightarrow> prefix pat (c # cs) \<or> (\<exists>a b. cs = a @ pat @ b)"
    by (auto simp: prefix_def Cons_eq_append_conv)
  then show ?case using Cons by simp
qed simp

fun split_on :: "char \<Rightarrow> string \<Rightarrow> string list" where
  "split_on c [] = [[]]"
| "split_on c (x # xs) =
    (if x = c then [] # split_on c xs else (x # hd (split_on c xs)) # tl (split_on c xs))"

lemma split_on_not_Nil [simp]: "split_on c s \<noteq> []"
  by (cases s) auto

lemma split_on_plain [simp]: "c \<notin> set s \<Longrightarrow> split_on c s = [s]"
  by (induction s) auto

lemma split_on_append [simp]: "c \<notin> set a \<Longrightarrow> split_on c (a @ c # b) = a # split_on c b"
  by (induction a) auto

lemma split_on_concat: "concat (map (\<lambda>p. p @ [c]) (split_on c s)) = s @ [c]"
proof (induction s)
  case (Cons x xs)
  then show ?case by (cases "split_on c xs") auto
qed simp

lemma split_on_pieces: "list_all (\<lambda>p. c \<notin> set p) (split_on c s)"
proof (induction s)
  case (Cons x xs)
  then show ?case by (cases "split_on c xs") auto
qed simp

text \<open>\<open>str::lines\<close>: a line end is a line feed with an optional carriage return before it, and the rest after the last line
  feed is a line when it is not empty.\<close>

definition newline :: char where "newline = CHR 0x0A"

definition strip_cr :: "string \<Rightarrow> string" where
  "strip_cr l = (if l \<noteq> [] \<and> last l = CHR 0x0D then butlast l else l)"

definition lines :: "string \<Rightarrow> string list" where
  "lines s = (let ps = split_on newline s in map strip_cr (butlast ps) @ (if last ps = [] then [] else [last ps]))"

lemma lines_Nil [simp]: "lines [] = []"
  by (simp add: lines_def)

lemma lines_line: "newline \<notin> set a \<Longrightarrow> lines (a @ newline # b) = strip_cr a # lines b"
  by (simp add: lines_def Let_def)

section \<open>White space\<close>

text \<open>The characters with the property \<open>White_Space\<close>, in UTF-8.\<close>

definition white_space :: "string list" where
  "white_space =
    [[CHR 0x20], [CHR 0x0A], [CHR 0x09], [CHR 0x0D], [CHR 0x0B], [CHR 0x0C], [CHR 0xC2, CHR 0x85], [CHR 0xC2, CHR 0xA0],
     [CHR 0xE1, CHR 0x9A, CHR 0x80]]
    @ map (\<lambda>b. [CHR 0xE2, CHR 0x80, char_of (b :: nat)])
        [0x80, 0x81, 0x82, 0x83, 0x84, 0x85, 0x86, 0x87, 0x88, 0x89, 0x8A, 0xA8, 0xA9, 0xAF]
    @ [[CHR 0xE2, CHR 0x81, CHR 0x9F], [CHR 0xE3, CHR 0x80, CHR 0x80]]"

definition leading :: "string list \<Rightarrow> string \<Rightarrow> nat" where
  "leading ws s = (case find (\<lambda>w. w \<noteq> [] \<and> prefix w s) ws of None \<Rightarrow> 0 | Some w \<Rightarrow> length w)"

lemma leading_le: "leading ws s \<le> length s"
  by (auto simp: leading_def find_Some_iff prefix_length_le split: option.split)

function skip :: "string list \<Rightarrow> string \<Rightarrow> string" where
  "skip ws s = (if leading ws s = 0 then s else skip ws (drop (leading ws s) s))"
  by auto
termination
proof (relation "measure (length \<circ> snd)")
  fix ws s
  assume "leading ws s \<noteq> 0"
  then show "((ws, drop (leading ws s) s), ws, s) \<in> measure (length \<circ> snd)"
    using leading_le [of ws s] by simp
qed simp

declare skip.simps [simp del]

definition trim_start :: "string \<Rightarrow> string" where
  "trim_start s = skip white_space s"

definition trim_end :: "string \<Rightarrow> string" where
  "trim_end s = rev (skip (map rev white_space) (rev s))"

definition trim :: "string \<Rightarrow> string" where
  "trim s = trim_end (trim_start s)"

text \<open>\<open>split_whitespace\<close>: the pieces between white space that are not empty.\<close>

function blanked :: "string \<Rightarrow> string" where
  "blanked [] = []"
| "blanked (c # cs) =
    (let n = leading white_space (c # cs) in
     if n = 0 then c # blanked cs else CHR 0x20 # blanked (drop (n - 1) cs))"
  by pat_completeness auto
termination
  by (relation "measure length") (auto simp: Let_def)

definition split_whitespace :: "string \<Rightarrow> string list" where
  "split_whitespace s = filter (\<lambda>p. p \<noteq> []) (split_on (CHR 0x20) (blanked s))"

definition is_ascii_whitespace :: "char \<Rightarrow> bool" where
  "is_ascii_whitespace c = (c \<in> {CHR 0x20, CHR 0x09, CHR 0x0A, CHR 0x0C, CHR 0x0D})"

definition split_ascii_whitespace :: "string \<Rightarrow> string list" where
  "split_ascii_whitespace s =
    filter (\<lambda>p. p \<noteq> []) (split_on (CHR 0x20) (map (\<lambda>c. if is_ascii_whitespace c then CHR 0x20 else c) s))"

text \<open>On ASCII text both are plain splitting.\<close>

definition ascii_blank :: "char \<Rightarrow> bool" where
  "ascii_blank c = (c \<in> {CHR 0x20, CHR 0x0A, CHR 0x09, CHR 0x0D, CHR 0x0B, CHR 0x0C})"

lemma white_space_shape:
  assumes "w \<in> set white_space"
  shows "w \<noteq> []" "length w = 1 \<and> ascii_blank (hd w) \<or> 0x80 \<le> byte_of (hd w) \<and> 0x80 \<le> byte_of (last w)"
proof -
  have "list_all (\<lambda>w. w \<noteq> [] \<and> (length w = 1 \<and> ascii_blank (hd w) \<or> 0x80 \<le> byte_of (hd w) \<and> 0x80 \<le> byte_of (last w))) white_space"
    by (simp add: white_space_def ascii_blank_def byte_of_def)
  then have "w \<noteq> [] \<and> (length w = 1 \<and> ascii_blank (hd w) \<or> 0x80 \<le> byte_of (hd w) \<and> 0x80 \<le> byte_of (last w))"
    using assms unfolding list_all_iff by (rule bspec)
  then show "w \<noteq> []" "length w = 1 \<and> ascii_blank (hd w) \<or> 0x80 \<le> byte_of (hd w) \<and> 0x80 \<le> byte_of (last w)"
    by simp_all
qed

lemma white_space_blank: "ascii_blank c \<Longrightarrow> [c] \<in> set white_space"
  by (auto simp: ascii_blank_def white_space_def)

lemma leading_ascii:
  assumes "byte_of c < 0x80"
  shows "leading white_space (c # s) = (if ascii_blank c then 1 else 0)"
proof -
  have shape: "w = [c] \<and> ascii_blank c" if "w \<in> set white_space" "prefix w (c # s)" for w
    using white_space_shape [OF that(1)] that(2) assms by (cases w) auto
  show ?thesis
  proof (cases "find (\<lambda>w. w \<noteq> [] \<and> prefix w (c # s)) white_space")
    case None
    then have "\<not> ascii_blank c" using white_space_blank [of c] by (force simp: find_None_iff)
    then show ?thesis using None by (simp add: leading_def)
  next
    case (Some w)
    then have "w \<in> set white_space" "prefix w (c # s)" by (auto simp: find_Some_iff)
    then show ?thesis using Some shape [of w] by (simp add: leading_def)
  qed
qed

lemma blanked_ascii:
  "list_all (\<lambda>c. byte_of c < 0x80) s \<Longrightarrow> blanked s = map (\<lambda>c. if ascii_blank c then CHR 0x20 else c) s"
  by (induction s) (auto simp: leading_ascii)

definition plain :: "string \<Rightarrow> bool" where
  "plain t = (t \<noteq> [] \<and> list_all (\<lambda>c. byte_of c < 0x80 \<and> \<not> ascii_blank c) t)"

lemma plain_blanked: "plain t \<Longrightarrow> map (\<lambda>c. if ascii_blank c then CHR 0x20 else c) t = t \<and> CHR 0x20 \<notin> set t"
proof -
  assume "plain t"
  then have none: "\<not> ascii_blank c" if "c \<in> set t" for c using that by (simp add: plain_def list_all_iff)
  have "ascii_blank (CHR 0x20)" by (simp add: ascii_blank_def)
  then show ?thesis using none by (auto intro: map_idI)
qed

lemma split_whitespace_plain: "plain t \<Longrightarrow> split_whitespace t = [t]"
proof -
  assume t: "plain t"
  then have "blanked t = t" using blanked_ascii [of t] plain_blanked [OF t] by (simp add: plain_def list_all_iff)
  then show ?thesis using plain_blanked [OF t] t by (simp add: split_whitespace_def plain_def)
qed

lemma split_whitespace_Cons:
  assumes "plain t" "list_all (\<lambda>c. byte_of c < 0x80) s"
  shows "split_whitespace (t @ '' '' @ s) = t # split_whitespace s"
proof -
  have blank: "ascii_blank (CHR 0x20)" "byte_of (CHR 0x20) < 0x80" by (simp_all add: ascii_blank_def byte_of_def)
  have "list_all (\<lambda>c. byte_of c < 0x80) t" using assms(1) by (simp add: plain_def list_all_iff)
  then have "blanked (t @ '' '' @ s) = t @ '' '' @ blanked s"
    using assms(2) blank plain_blanked [OF assms(1)] blanked_ascii [OF assms(2)] by (subst blanked_ascii) simp_all
  then show ?thesis using plain_blanked [OF assms(1)] assms(1) by (simp add: split_whitespace_def plain_def)
qed

section \<open>Case\<close>

definition to_lower_char :: "char \<Rightarrow> char" where
  "to_lower_char c = (if 0x41 \<le> byte_of c \<and> byte_of c \<le> 0x5A then char_of (byte_of c + 0x20) else c)"

definition to_upper_char :: "char \<Rightarrow> char" where
  "to_upper_char c = (if 0x61 \<le> byte_of c \<and> byte_of c \<le> 0x7A then char_of (byte_of c - 0x20) else c)"

definition to_lowercase :: "string \<Rightarrow> string" where
  "to_lowercase s = map to_lower_char s"

definition to_uppercase :: "string \<Rightarrow> string" where
  "to_uppercase s = map to_upper_char s"

definition eq_ignore_ascii_case :: "string \<Rightarrow> string \<Rightarrow> bool" where
  "eq_ignore_ascii_case a b = (to_lowercase a = to_lowercase b)"

section \<open>Numbers\<close>

text \<open>A line that holds a number is read back.\<close>

lemma digit_not_white:
  assumes "is_digit c"
  shows "leading white_space (c # s) = 0" "leading (map rev white_space) (c # s) = 0"
proof -
  have c: "byte_of c < 0x80" "\<not> ascii_blank c" using assms by (auto simp: is_digit_def ascii_blank_def byte_of_def)
  then show "leading white_space (c # s) = 0" by (simp add: leading_ascii)
  have "\<not> prefix (rev w) (c # s)" if "w \<in> set white_space" for w
  proof
    assume "prefix (rev w) (c # s)"
    then have "last w = c" using white_space_shape(1) [OF that] by (cases w rule: rev_cases) auto
    then show False using white_space_shape(2) [OF that] c by (auto simp: length_Suc_conv)
  qed
  then have "find (\<lambda>w. w \<noteq> [] \<and> prefix w (c # s)) (map rev white_space) = None" by (auto simp: find_None_iff)
  then show "leading (map rev white_space) (c # s) = 0" by (simp add: leading_def)
qed

lemma trim_plain_ends:
  assumes "s \<noteq> []" "byte_of (hd s) < 0x80" "\<not> ascii_blank (hd s)" "byte_of (last s) < 0x80" "\<not> ascii_blank (last s)"
  shows "trim s = s"
proof -
  obtain c cs where s: "s = c # cs" using assms(1) by (cases s) auto
  obtain d ds where r: "rev s = d # ds" using assms(1) by (cases "rev s") auto
  have d: "last s = d" using r by (metis hd_rev list.sel(1))
  have "trim_start s = s"
    unfolding trim_start_def s by (subst skip.simps) (use assms s in \<open>simp add: leading_ascii\<close>)
  moreover have "leading (map rev white_space) (d # ds) = 0"
  proof -
    have "\<not> prefix (rev w) (d # ds)" if "w \<in> set white_space" for w
    proof
      assume "prefix (rev w) (d # ds)"
      then have "last w = d" using white_space_shape(1) [OF that] by (cases w rule: rev_cases) auto
      then show False using white_space_shape(2) [OF that] assms(4,5) d by (auto simp: length_Suc_conv)
    qed
    then have "find (\<lambda>w. w \<noteq> [] \<and> prefix w (d # ds)) (map rev white_space) = None" by (auto simp: find_None_iff)
    then show ?thesis by (simp add: leading_def)
  qed
  then have "skip (map rev white_space) (rev s) = rev s"
    unfolding r by (subst skip.simps) simp
  ultimately show ?thesis by (simp add: trim_def trim_end_def)
qed

lemma trim_digits:
  assumes "list_all is_digit s" "s \<noteq> []"
  shows "trim (s @ [newline]) = s" "trim s = s"
proof -
  obtain c cs where s: "s = c # cs" using assms(2) by (cases s) auto
  obtain d ds where r: "rev s = d # ds" using assms(2) by (cases "rev s") auto
  have "d \<in> set s" using r by (metis list.set_intros(1) set_rev)
  then have digits: "is_digit c" "is_digit d" using assms(1) s by (auto simp: list_all_iff)
  have start: "trim_start (s @ t) = s @ t" for t
    unfolding trim_start_def s by (subst skip.simps) (simp add: digit_not_white digits)
  have stop: "skip (map rev white_space) (rev s) = rev s"
    unfolding r by (subst skip.simps) (simp add: digit_not_white digits)
  have "leading (map rev white_space) (newline # rev s) = 1"
    by (simp add: leading_def white_space_def newline_def)
  then have "skip (map rev white_space) (newline # rev s) = rev s"
    by (subst skip.simps) (simp add: stop)
  then show "trim (s @ [newline]) = s" "trim s = s"
    using start [of "[newline]"] start [of "[]"] stop by (simp_all add: trim_def trim_end_def)
qed

lemma parse_line [simp]: "parse_word (trim (decimal (unat w) @ [newline])) = Some (w :: 'a::len word)"
  using trim_digits(1) [OF decimal_digits, of "unat w"] by simp

text \<open>\<open>str::parse\<close> for a float.\<close>

definition parse_exponent :: "string \<Rightarrow> int option" where
  "parse_exponent s = (case s of
     c # cs \<Rightarrow>
       (if c = CHR ''-'' then map_option (\<lambda>n. - int n) (parse_digits cs)
        else if c = CHR ''+'' then map_option int (parse_digits cs)
        else map_option int (parse_digits s))
   | [] \<Rightarrow> None)"

definition power_of_ten :: "int \<Rightarrow> rat" where
  "power_of_ten e = (if 0 \<le> e then 10 ^ nat e else 1 / 10 ^ nat (- e))"

definition parse_decimal_float :: "string \<Rightarrow> rat option" where
  "parse_decimal_float s =
    (let whole = takeWhile is_digit s;
         rest = dropWhile is_digit s;
         (frac, rest2) = (case rest of
            c # cs \<Rightarrow> if c = CHR ''.'' then (takeWhile is_digit cs, dropWhile is_digit cs) else ([], rest)
          | [] \<Rightarrow> ([], []));
         mantissa = parse_digits (whole @ frac);
         expo = (case rest2 of [] \<Rightarrow> Some 0 | c # cs \<Rightarrow> if to_lower_char c = CHR ''e'' then parse_exponent cs else None)
     in case (mantissa, expo) of
          (Some m, Some e) \<Rightarrow> Some (of_nat m * power_of_ten (e - int (length frac)))
        | _ \<Rightarrow> None)"

definition parse_f32 :: "string \<Rightarrow> f32 option" where
  "parse_f32 s =
    (let (neg, body) = (case s of
            c # cs \<Rightarrow> if c = CHR ''-'' then (True, cs) else if c = CHR ''+'' then (False, cs) else (False, s)
          | [] \<Rightarrow> (False, []));
         word = to_lowercase body
     in if word = ''inf'' \<or> word = ''infinity'' then Some (if neg then NegInf else PosInf)
        else if word = ''nan'' then Some NaN
        else map_option (\<lambda>q. Fin (if neg then - q else q)) (parse_decimal_float body))"

text \<open>A number with a fixed count of decimals is read exactly.\<close>

lemma takeWhile_digits: "list_all is_digit a \<Longrightarrow> takeWhile is_digit (a @ b) = a @ takeWhile is_digit b"
  by (induction a) auto

lemma dropWhile_digits: "list_all is_digit a \<Longrightarrow> dropWhile is_digit (a @ b) = dropWhile is_digit b"
  by (induction a) auto

lemma parse_f32_fixed:
  assumes "list_all is_digit a" "list_all is_digit b" "a \<noteq> []"
  shows "parse_f32 (a @ ''.'' @ b) =
    Some (Fin (of_nat (foldl (\<lambda>n c. 10 * n + digit_value c) 0 (a @ b)) / 10 ^ length b))"
proof -
  obtain c cs where a: "a = c # cs" using assms(3) by (cases a) auto
  have c: "is_digit c" using assms(1) a by simp
  then have signs: "c \<noteq> CHR ''-''" "c \<noteq> CHR ''+''" "to_lower_char c \<noteq> CHR ''i''" "to_lower_char c \<noteq> CHR ''n''"
    by (auto simp: is_digit_def byte_of_def to_lower_char_def)
  have dot: "\<not> is_digit (CHR ''.'')" by (simp add: is_digit_def byte_of_def)
  have b: "takeWhile is_digit b = b" "dropWhile is_digit b = []"
    using assms(2) takeWhile_digits [of b "[]"] dropWhile_digits [of b "[]"] by simp_all
  have "parse_decimal_float (a @ ''.'' @ b) =
      Some (of_nat (foldl (\<lambda>n c. 10 * n + digit_value c) 0 (a @ b)) / 10 ^ length b)"
    using assms dot
    by (simp add: b parse_decimal_float_def takeWhile_digits dropWhile_digits parse_digits_def power_of_ten_def Let_def
        del: foldl_append)
  moreover have "to_lowercase (a @ ''.'' @ b) \<notin> {''inf'', ''infinity'', ''nan''}"
    unfolding a using signs by (simp add: to_lowercase_def)
  moreover have "(case a @ ''.'' @ b of c # cs \<Rightarrow>
      if c = CHR ''-'' then (True, cs) else if c = CHR ''+'' then (False, cs) else (False, a @ ''.'' @ b) | [] \<Rightarrow> (False, [])) =
      (False, a @ ''.'' @ b)"
    unfolding a using signs by simp
  ultimately show ?thesis by (simp only: parse_f32_def Let_def prod.case if_False insert_iff empty_iff de_Morgan_disj simp_thms option.map)
qed

end
