(* ===== verification/Sensors.thy ===== *)
theory Sensors
  imports Sysfs
begin

text \<open>
  The sensors of the device (\<open>hardware/uevent.rs\<close>, \<open>hardware/thermal.rs\<close>, \<open>hardware/telemetry.rs\<close>): parsing of kernel
  events, and charger, battery, screen and temperatures as they are read from the files of the kernel.  The lemmas show
  that a kernel event is read back as it was sent, that every temperature that is reported is in a plausible range,
  whatever the files hold, and that the battery level is a percentage.
\<close>

section \<open>Kernel events\<close>

datatype ChargerState = Charging | Discharging | Full | ChargerUnknown

datatype ScreenState = On | Off | ScreenUnknown

record UeventMessage =
  uev_action :: string
  uev_devpath :: string
  uev_subsystem :: string
  uev_properties :: "string \<rightharpoonup> string"

definition uevent_line :: "string \<Rightarrow> UeventMessage \<Rightarrow> UeventMessage" where
  "uevent_line line m =
    (case split_once (CHR ''='') line of
       None \<Rightarrow> m
     | Some (k, v) \<Rightarrow>
         if k = ''ACTION'' then m\<lparr>uev_action := v\<rparr>
         else if k = ''DEVPATH'' then m\<lparr>uev_devpath := v\<rparr>
         else if k = ''SUBSYSTEM'' then m\<lparr>uev_subsystem := v\<rparr>
         else m\<lparr>uev_properties := (uev_properties m)(k \<mapsto> v)\<rparr>)"

definition uevent_parse :: "string \<Rightarrow> UeventMessage option" where
  "uevent_parse buffer =
    (if \<not> is_utf8 buffer then None
     else case filter (\<lambda>s. s \<noteq> []) (split_on (CHR 0x00) buffer) of
       [] \<Rightarrow> None
     | first_line # rest \<Rightarrow>
         (let (action, devpath) = (case split_once (CHR ''@'') first_line of Some (act, path) \<Rightarrow> (act, path) | None \<Rightarrow> ([], []));
              m = fold uevent_line rest
                    \<lparr> uev_action = action, uev_devpath = devpath, uev_subsystem = [], uev_properties = Map.empty \<rparr>
          in if uev_action m = [] \<and> uev_subsystem m = [] \<and> uev_devpath m = [] then None else Some m))"

text \<open>The queue of the netlink socket as the datagrams still to be received; an empty receive or an error is the end.
  Reading stops at the first datagram that does not parse.\<close>

definition read_event :: "string list \<Rightarrow> UeventMessage option \<times> string list" where
  "read_event queue =
    (case queue of
       [] \<Rightarrow> (None, [])
     | d # ds \<Rightarrow> (if d = [] then None else uevent_parse (take 4096 d), ds))"

fun read_events :: "string list \<Rightarrow> UeventMessage list \<times> string list" where
  "read_events [] = ([], [])"
| "read_events (d # ds) =
    (case fst (read_event (d # ds)) of
       None \<Rightarrow> ([], ds)
     | Some ev \<Rightarrow> (case read_events ds of (evs, rest) \<Rightarrow> (ev # evs, rest)))"

section \<open>Charger and battery\<close>

record PowerScan =
  ps_online :: bool
  ps_battery :: ChargerState

definition typed_supply :: "SysFs \<Rightarrow> string \<Rightarrow> string \<Rightarrow> PowerScan \<Rightarrow> PowerScan" where
  "typed_supply S path supply_type ps =
    (let type_upper = to_uppercase (trim supply_type) in
     if contains ''USB'' type_upper \<or> contains ''AC'' type_upper \<or> contains ''MAINS'' type_upper \<or>
        contains ''WIRELESS'' type_upper \<or> contains ''WIPOWER'' type_upper
     then (case read_file_to_buf S (child path ''online'') 16 of
             Some v \<Rightarrow> if trim v = ''1'' then ps\<lparr>ps_online := True\<rparr> else ps
           | None \<Rightarrow> ps)
     else if contains ''BATTERY'' type_upper \<or> contains ''BMS'' type_upper
     then (case read_file_to_buf S (child path ''status'') 32 of
             Some s \<Rightarrow>
               (let st = trim s in
                if eq_ignore_ascii_case st ''Charging'' then ps\<lparr>ps_battery := Charging\<rparr>
                else if eq_ignore_ascii_case st ''Full'' then ps\<lparr>ps_battery := Full\<rparr>
                else if (eq_ignore_ascii_case st ''Discharging'' \<or> eq_ignore_ascii_case st ''Not charging'')
                        \<and> ps_battery ps = ChargerUnknown
                then ps\<lparr>ps_battery := Discharging\<rparr> else ps)
           | None \<Rightarrow> ps)
     else ps)"

definition untyped_supply :: "SysFs \<Rightarrow> string \<Rightarrow> PowerScan \<Rightarrow> PowerScan" where
  "untyped_supply S path ps =
    (case read_file_to_buf S (child path ''status'') 32 of
       Some s \<Rightarrow>
         (let st = trim s in
          if eq_ignore_ascii_case st ''Charging'' \<or> st = ''1'' then ps\<lparr>ps_battery := Charging\<rparr>
          else if eq_ignore_ascii_case st ''Full'' then ps\<lparr>ps_battery := Full\<rparr>
          else if eq_ignore_ascii_case st ''Discharging'' \<and> ps_battery ps = ChargerUnknown
          then ps\<lparr>ps_battery := Discharging\<rparr> else ps)
     | None \<Rightarrow> ps)"

definition power_supply :: "SysFs \<Rightarrow> string \<Rightarrow> PowerScan \<Rightarrow> PowerScan" where
  "power_supply S name ps =
    (let path = child ''/sys/class/power_supply'' name in
     if \<not> sy_is_dir S path then ps
     else case read_file_to_buf S (child path ''type'') 64 of
       Some supply_type \<Rightarrow> typed_supply S path supply_type ps
     | None \<Rightarrow> untyped_supply S path ps)"

definition charger_status_paths :: "string list" where
  "charger_status_paths =
    [''/sys/class/power_supply/battery/status'', ''/sys/class/power_supply/bms/status'',
     ''/sys/class/power_supply/usb/online'', ''/sys/class/power_supply/ac/online'',
     ''/sys/class/power_supply/main/online'']"

fun charger_fallback_in :: "SysFs \<Rightarrow> string list \<Rightarrow> ChargerState" where
  "charger_fallback_in S [] = ChargerUnknown"
| "charger_fallback_in S (path # paths) =
    (case read_file_to_buf S path 32 of
       Some content \<Rightarrow>
         (let trimmed = trim content in
          if eq_ignore_ascii_case trimmed ''Charging'' \<or> trimmed = ''1'' then Charging
          else if eq_ignore_ascii_case trimmed ''Discharging'' \<or> trimmed = ''0'' then Discharging
          else if eq_ignore_ascii_case trimmed ''Full'' then Full
          else charger_fallback_in S paths)
     | None \<Rightarrow> charger_fallback_in S paths)"

definition get_charger_state_fallback :: "SysFs \<Rightarrow> ChargerState" where
  "get_charger_state_fallback S = charger_fallback_in S charger_status_paths"

definition get_charger_state :: "SysFs \<Rightarrow> ChargerState" where
  "get_charger_state S =
    (if \<not> sy_exists S ''/sys/class/power_supply'' then get_charger_state_fallback S
     else let ps = fold (power_supply S) (entries_of S ''/sys/class/power_supply'')
                     \<lparr> ps_online = False, ps_battery = ChargerUnknown \<rparr>
          in if ps_online ps then (if ps_battery ps = Full then Full else Charging)
             else if ps_battery ps \<noteq> ChargerUnknown then ps_battery ps
             else get_charger_state_fallback S)"

definition capacity_of :: "SysFs \<Rightarrow> string \<Rightarrow> u8 option" where
  "capacity_of S path =
    (case read_file_to_buf S path 16 of
       Some content \<Rightarrow> (case parse_word (trim content) of Some pct \<Rightarrow> if pct \<le> 100 then Some pct else None | None \<Rightarrow> None)
     | None \<Rightarrow> None)"

definition get_battery_percent :: "SysFs \<Rightarrow> u8 option" where
  "get_battery_percent S =
    first_some (capacity_of S)
      ([''/sys/class/power_supply/battery/capacity'', ''/sys/class/power_supply/bms/capacity'',
        ''/sys/class/power_supply/qcom-battery/capacity'']
       @ map (\<lambda>name. child (child ''/sys/class/power_supply'' name) ''capacity'')
           (entries_of S ''/sys/class/power_supply''))"

section \<open>Screen\<close>

definition brightness_state :: "string option \<Rightarrow> ScreenState option" where
  "brightness_state content =
    (case content of
       Some s \<Rightarrow> map_option (\<lambda>b. if (b :: u32) > 0 then On else Off) (parse_word (trim s))
     | None \<Rightarrow> None)"

definition backlight_state :: "SysFs \<Rightarrow> string \<Rightarrow> ScreenState option" where
  "backlight_state S name =
    (let p = child ''/sys/class/backlight'' name in
     brightness_state (case read_file_to_buf S (child p ''actual_brightness'') 32 of
       Some c \<Rightarrow> Some c
     | None \<Rightarrow> read_file_to_buf S (child p ''brightness'') 32))"

definition led_state :: "SysFs \<Rightarrow> string \<Rightarrow> ScreenState option" where
  "led_state S name =
    (if contains ''backlight'' name \<or> contains ''lcd'' name \<or> contains ''wled'' name
     then brightness_state (read_file_to_buf S (child (child ''/sys/class/leds'' name) ''brightness'') 32)
     else None)"

definition blank_state :: "SysFs \<Rightarrow> string \<Rightarrow> ScreenState option" where
  "blank_state S path =
    (case read_file_to_buf S path 32 of
       Some s \<Rightarrow> map_option (\<lambda>b. if (b :: u32) = 0 then On else Off) (parse_word (trim s))
     | None \<Rightarrow> None)"

definition dpms_state :: "SysFs \<Rightarrow> string \<Rightarrow> ScreenState option" where
  "dpms_state S name =
    (case read_file_to_buf S (child (child ''/sys/class/drm'' name) ''dpms'') 32 of
       Some s \<Rightarrow>
         (let trimmed = trim s in
          if trimmed = ''0'' \<or> eq_ignore_ascii_case trimmed ''On'' then Some On
          else if trimmed = ''3'' \<or> eq_ignore_ascii_case trimmed ''Off'' then Some Off
          else None)
     | None \<Rightarrow> None)"

definition dumpsys_state :: "SysFs \<Rightarrow> ScreenState option" where
  "dumpsys_state S =
    (case sy_command S [''dumpsys'', ''display''] of
       Some out \<Rightarrow>
         if contains ''mScreenState=ON'' out \<or> contains ''state=ON'' out \<or> contains ''Display State: ON'' out \<or>
            contains ''Display Power: state=ON'' out then Some On
         else if contains ''mScreenState=OFF'' out \<or> contains ''state=OFF'' out \<or> contains ''Display State: OFF'' out \<or>
            contains ''Display Power: state=OFF'' out then Some Off
         else None
     | None \<Rightarrow> None)"

definition get_screen_state :: "SysFs \<Rightarrow> ScreenState" where
  "get_screen_state S =
    (case first_some (backlight_state S) (entries_of S ''/sys/class/backlight'') of Some st \<Rightarrow> st | None \<Rightarrow>
     (case first_some (led_state S) (entries_of S ''/sys/class/leds'') of Some st \<Rightarrow> st | None \<Rightarrow>
     (case first_some (blank_state S) [''/sys/class/graphics/fb0/blank'', ''/sys/class/graphics/fb1/blank''] of
        Some st \<Rightarrow> st | None \<Rightarrow>
     (case first_some (dpms_state S) (entries_of S ''/sys/class/drm'') of Some st \<Rightarrow> st | None \<Rightarrow>
     (case dumpsys_state S of Some st \<Rightarrow> st | None \<Rightarrow> ScreenUnknown)))))"

section \<open>Temperatures\<close>

record ThermalReport =
  tr_max_soc_temp_c :: f32
  tr_battery_temp_c :: f32

definition f32_scale :: "rat \<Rightarrow> f32 \<Rightarrow> f32" where
  "f32_scale d x = (case x of Fin q \<Rightarrow> Fin (q / d) | _ \<Rightarrow> x)"

definition normalize_temp :: "f32 \<Rightarrow> f32" where
  "normalize_temp raw =
    (if f32_lt (Fin 1000) raw then f32_scale 1000 raw
     else if f32_lt (Fin 150) raw then f32_scale 10 raw
     else raw)"

definition temp_in :: "SysFs \<Rightarrow> rat \<Rightarrow> string \<Rightarrow> f32 option" where
  "temp_in S limit path =
    (case read_file_to_buf S path 64 of
       Some s \<Rightarrow>
         (case parse_f32 (trim s) of
            Some raw \<Rightarrow>
              (let temp_c = normalize_temp raw in
               if f32_lt (Fin 0) temp_c \<and> f32_lt temp_c (Fin limit) then Some temp_c else None)
          | None \<Rightarrow> None)
     | None \<Rightarrow> None)"

definition battery_temp :: "SysFs \<Rightarrow> f32" where
  "battery_temp S =
    (case first_some (temp_in S 100)
            (map (\<lambda>name. child (child ''/sys/class/power_supply'' name) ''temp'') (entries_of S ''/sys/class/power_supply'')
             @ [''/sys/class/power_supply/battery/temp'', ''/sys/class/power_supply/bms/temp'',
                ''/sys/class/power_supply/main/temp'']) of
       Some t \<Rightarrow> t
     | None \<Rightarrow> Fin 0)"

definition is_soc_zone :: "string \<Rightarrow> bool" where
  "is_soc_zone type_name =
    list_ex (\<lambda>pat. contains pat type_name)
      [''cpu'', ''soc'', ''tsens'', ''mtktscpu'', ''cluster'', ''ap-therm'', ''exynos'', ''tensor'', ''gpu'']"

text \<open>The highest temperature of the zones of the chip, and of the others.\<close>

definition thermal_zone :: "SysFs \<Rightarrow> string \<Rightarrow> f32 \<times> f32 \<Rightarrow> f32 \<times> f32" where
  "thermal_zone S name acc = (case acc of (max_soc, fallback) \<Rightarrow>
    if is_utf8 name \<and> prefix ''thermal_zone'' name
    then let path = child ''/sys/class/thermal'' name;
             type_name = to_lowercase (unwrap_or (read_file_to_buf S (child path ''type'') 64) [])
         in case temp_in S 120 (child path ''temp'') of
              Some temp_c \<Rightarrow>
                if is_soc_zone type_name
                then (if f32_lt max_soc temp_c then temp_c else max_soc, fallback)
                else (max_soc, if f32_lt fallback temp_c then temp_c else fallback)
            | None \<Rightarrow> acc
    else acc)"

definition read_thermal :: "SysFs \<Rightarrow> ThermalReport" where
  "read_thermal S =
    (case fold (thermal_zone S) (entries_of S ''/sys/class/thermal'') (Fin 0, Fin 0) of (max_soc, fallback) \<Rightarrow>
     \<lparr> tr_max_soc_temp_c = (if max_soc = Fin 0 \<and> f32_lt (Fin 0) fallback then fallback else max_soc),
       tr_battery_temp_c = battery_temp S \<rparr>)"

section \<open>Snapshot\<close>

record DeviceEnvironmentSnapshot =
  des_screen :: ScreenState
  des_charger :: ChargerState
  des_soc_temp_c :: f32
  des_battery_temp_c :: f32
  des_is_charging :: bool
  des_is_screen_off :: bool

definition capture :: "SysFs \<Rightarrow> DeviceEnvironmentSnapshot" where
  "capture S =
    (let screen = get_screen_state S; charger = get_charger_state S; thermal = read_thermal S in
     \<lparr> des_screen = screen, des_charger = charger, des_soc_temp_c = tr_max_soc_temp_c thermal,
       des_battery_temp_c = tr_battery_temp_c thermal, des_is_charging = (charger = Charging \<or> charger = Full),
       des_is_screen_off = (screen = Off) \<rparr>)"


section \<open>Plausible readings\<close>

definition temp_below :: "rat \<Rightarrow> f32 \<Rightarrow> bool" where
  "temp_below limit t = (\<exists>q. t = Fin q \<and> 0 \<le> q \<and> q < limit)"

lemma f32_lt_Fin [simp]: "f32_lt (Fin a) (Fin b) = (a < b)"
  by (auto simp: f32_lt_def)

lemma temp_below_zero [simp]: "temp_below limit (Fin 0) = (0 < limit)"
  by (auto simp: temp_below_def)

lemma temp_in_below: "temp_in S limit path = Some t \<Longrightarrow> temp_below limit t \<and> t \<noteq> Fin 0"
  by (cases t) (auto simp: temp_in_def temp_below_def f32_lt_def Let_def split: option.splits if_splits)

lemma thermal_zone_below:
  "temp_below 120 (fst acc) \<and> temp_below 120 (snd acc) \<Longrightarrow>
   temp_below 120 (fst (thermal_zone S name acc)) \<and> temp_below 120 (snd (thermal_zone S name acc))"
  by (auto simp: thermal_zone_def Let_def dest: temp_in_below split: prod.splits option.splits)

lemma thermal_zones_below:
  "temp_below 120 (fst acc) \<and> temp_below 120 (snd acc) \<Longrightarrow>
   temp_below 120 (fst (fold (thermal_zone S) names acc)) \<and> temp_below 120 (snd (fold (thermal_zone S) names acc))"
  by (induction names arbitrary: acc) (simp_all add: thermal_zone_below)

text \<open>Whatever the files of the kernel hold, a reported temperature is a number, of 0 to below 120 degrees for the
  chip and of 0 to below 100 for the battery, and a reported battery level is a percentage.\<close>

theorem readings_plausible:
  "temp_below 120 (tr_max_soc_temp_c (read_thermal S)) \<and> temp_below 100 (tr_battery_temp_c (read_thermal S)) \<and>
   (case get_battery_percent S of Some pct \<Rightarrow> pct \<le> 100 | None \<Rightarrow> True)"
proof -
  have "temp_below 120 (tr_max_soc_temp_c (read_thermal S))"
    using thermal_zones_below [of "(Fin 0, Fin 0)" S "entries_of S ''/sys/class/thermal''"]
    by (auto simp: read_thermal_def split: prod.splits)
  moreover have "temp_below 100 (battery_temp S)"
    by (auto simp: battery_temp_def split: option.split dest!: first_some_Some temp_in_below)
  moreover have "pct \<le> 100" if "get_battery_percent S = Some pct" for pct
    using first_some_Some [OF that [unfolded get_battery_percent_def]] by (auto simp: capacity_of_def split: option.splits if_splits)
  ultimately show ?thesis by (auto simp: read_thermal_def split: prod.splits option.split)
qed

section \<open>Events are read back\<close>

text \<open>A kernel event on the wire: the header and one line for each variable, each ended by a NUL.\<close>

definition uevent_wire :: "string \<Rightarrow> string \<Rightarrow> (string \<times> string) list \<Rightarrow> string" where
  "uevent_wire action devpath vars =
    concat (map (\<lambda>l. l @ [CHR 0x00]) ((action @ ''@'' @ devpath) # map (\<lambda>(k, v). k @ ''='' @ v) vars))"

lemma split_on_terminated:
  "list_all (\<lambda>l. c \<notin> set l) ls \<Longrightarrow> split_on c (concat (map (\<lambda>l. l @ [c]) ls)) = ls @ [[]]"
  by (induction ls) auto

definition reserved :: "string list" where
  "reserved = [''ACTION'', ''DEVPATH'', ''SUBSYSTEM'']"

lemma fold_uevent_lines:
  assumes "list_all (\<lambda>(k, v). CHR ''='' \<notin> set k \<and> k \<notin> set reserved) vars"
  shows "fold uevent_line (map (\<lambda>(k, v). k @ ''='' @ v) vars) m =
    m\<lparr>uev_properties := uev_properties m ++ map_of (rev vars)\<rparr>"
  using assms
proof (induction vars arbitrary: m)
  case (Cons kv vars)
  obtain k v where kv: "kv = (k, v)" by fastforce
  have "uevent_line (k @ ''='' @ v) m = m\<lparr>uev_properties := (uev_properties m)(k \<mapsto> v)\<rparr>"
  proof -
    have "split_once (CHR ''='') (k @ CHR ''='' # v) = Some (k, v)"
      using Cons.prems kv by (simp add: split_once_Some_iff)
    then show ?thesis using Cons.prems kv by (simp add: uevent_line_def reserved_def)
  qed
  then show ?case using Cons kv by (simp add: map_add_def fun_eq_iff split: option.split)
qed simp

text \<open>A kernel event is read back as it was sent: from the header and the lines of the variables, in any order and
  with the last value of a variable, the message has the action, the path and the subsystem of the event and exactly
  its other variables.\<close>

theorem uevent_round_trip:
  assumes "is_utf8 (uevent_wire action devpath ((''SUBSYSTEM'', subsystem) # vars))"
    and "list_all (\<lambda>(k, v). CHR ''='' \<notin> set k \<and> k \<notin> set reserved \<and> CHR 0x00 \<notin> set (k @ v)) vars"
    and "CHR 0x00 \<notin> set (action @ devpath @ subsystem)" and "CHR ''@'' \<notin> set action" and "action \<noteq> []"
  shows "uevent_parse (uevent_wire action devpath ((''SUBSYSTEM'', subsystem) # vars)) =
    Some \<lparr> uev_action = action, uev_devpath = devpath, uev_subsystem = subsystem, uev_properties = map_of (rev vars) \<rparr>"
proof -
  let ?lines = "(action @ ''@'' @ devpath) # map (\<lambda>(k, v). k @ ''='' @ v) ((''SUBSYSTEM'', subsystem) # vars)"
  have "list_all (\<lambda>l. CHR 0x00 \<notin> set l) ?lines" using assms(2,3) by (auto simp: list_all_iff)
  then have "split_on (CHR 0x00) (uevent_wire action devpath ((''SUBSYSTEM'', subsystem) # vars)) = ?lines @ [[]]"
    unfolding uevent_wire_def by (rule split_on_terminated)
  moreover have "filter (\<lambda>s. s \<noteq> []) (?lines @ [[]]) = ?lines" by (auto simp: filter_id_conv)
  moreover have "split_once (CHR ''@'') (action @ CHR ''@'' # devpath) = Some (action, devpath)"
    using assms(4) by (simp add: split_once_Some_iff)
  moreover have "split_once (CHR ''='') (''SUBSYSTEM='' @ subsystem) = Some (''SUBSYSTEM'', subsystem)"
    by (simp add: split_once_Some_iff)
  ultimately show ?thesis
    using assms(1,5) fold_uevent_lines [of vars] assms(2)
    by (simp add: uevent_parse_def uevent_line_def list_all_iff case_prod_beta)
qed

theorem uevent_round_trip_witness:
  "uevent_parse (uevent_wire ''change'' ''/devices/battery'' [(''SUBSYSTEM'', ''power_supply''), (''SEQNUM'', ''7'')]) =
    Some \<lparr> uev_action = ''change'', uev_devpath = ''/devices/battery'', uev_subsystem = ''power_supply'',
      uev_properties = [''SEQNUM'' \<mapsto> ''7''] \<rparr>"
proof -
  have "is_utf8 (uevent_wire ''change'' ''/devices/battery'' [(''SUBSYSTEM'', ''power_supply''), (''SEQNUM'', ''7'')])"
    by code_simp
  from uevent_round_trip [OF this] show ?thesis by (simp add: reserved_def)
qed

end
