(* ===== verification/Clock.thy ===== *)
theory Clock
  imports Prelude
begin

text \<open>
  Time as \<open>std::time\<close> has it, and the clocks of \<open>util/time.rs\<close>.  A \<open>Duration\<close> is a number of nanoseconds.  An \<open>Instant\<close>
  is a number of nanoseconds on the monotonic clock whose seconds fit a signed 64-bit word: adding a duration beyond that
  panics, which is \<^const>\<open>None\<close>.
\<close>

type_synonym Duration = nat
type_synonym Instant = int

definition from_secs :: "u64 \<Rightarrow> Duration" where
  "from_secs n = unat n * 1000000000"

definition as_secs :: "Duration \<Rightarrow> nat" where
  "as_secs d = d div 1000000000"

definition instant_add :: "Instant \<Rightarrow> Duration \<Rightarrow> Instant option" where
  "instant_add t d = (if (t + int d) div 1000000000 < 2 ^ 63 then Some (t + int d) else None)"

definition saturating_duration_since :: "Instant \<Rightarrow> Instant \<Rightarrow> Duration" where
  "saturating_duration_since t since = nat (t - since)"

lemma from_secs_le_iff: "from_secs a \<le> from_secs b \<longleftrightarrow> a \<le> b"
  by (simp add: from_secs_def word_le_nat_alt)

lemma instant_add_Some_iff: "instant_add t d = Some u \<longleftrightarrow> (t + int d) div 1000000000 < 2 ^ 63 \<and> u = t + int d"
  by (auto simp: instant_add_def)

lemma instant_add_bounded:
  assumes "t < 4611686018427387904000000000" and "d \<le> 4611686018427387904000000000"
  shows "instant_add t d = Some (t + int d)"
proof -
  have "int d \<le> 4611686018427387904000000000" using assms(2) by linarith
  then have "t + int d < 2 ^ 63 * 1000000000" using assms(1) by simp
  moreover have "(t + int d) div 1000000000 * 1000000000 \<le> t + int d"
    using pos_mod_sign [of 1000000000 "t + int d"] div_mult_mod_eq [of "t + int d" 1000000000] by linarith
  ultimately have "(t + int d) div 1000000000 < 2 ^ 63" by linarith
  then show ?thesis by (simp add: instant_add_def)
qed

section \<open>The clock of the tests\<close>

record FakeClock =
  fk_base_instant :: Instant
  fk_offset_nanos :: u64
  fk_base_system_time :: Duration

definition FakeClock_with_system_time :: "Instant \<Rightarrow> Duration \<Rightarrow> FakeClock" where
  "FakeClock_with_system_time now sys_time =
    \<lparr> fk_base_instant = now, fk_offset_nanos = 0, fk_base_system_time = sys_time \<rparr>"

definition FakeClock_new :: "Instant \<Rightarrow> FakeClock" where
  "FakeClock_new now = \<lparr> fk_base_instant = now, fk_offset_nanos = 0, fk_base_system_time = from_secs 1700000000 \<rparr>"

definition FakeClock_advance :: "Duration \<Rightarrow> FakeClock \<Rightarrow> FakeClock" where
  "FakeClock_advance d c = c\<lparr>fk_offset_nanos := fk_offset_nanos c + of_nat d\<rparr>"

definition FakeClock_now :: "FakeClock \<Rightarrow> Instant option" where
  "FakeClock_now c = instant_add (fk_base_instant c) (unat (fk_offset_nanos c))"

definition FakeClock_system_time :: "FakeClock \<Rightarrow> Duration" where
  "FakeClock_system_time c = fk_base_system_time c + unat (fk_offset_nanos c)"

text \<open>The test clock advances by exactly the durations it is given as long as they add up to less than 2^64 nanoseconds.\<close>

lemma FakeClock_advances:
  assumes "sum_list ds < 2 ^ 64"
  shows "FakeClock_system_time (fold FakeClock_advance ds (FakeClock_with_system_time now t)) = t + sum_list ds"
proof -
  have fold: "fk_offset_nanos (fold FakeClock_advance ds c) = fk_offset_nanos c + of_nat (sum_list ds)"
    "fk_base_system_time (fold FakeClock_advance ds c) = fk_base_system_time c" for c
    by (induction ds arbitrary: c) (simp_all add: FakeClock_advance_def)
  show ?thesis
    using assms by (simp add: FakeClock_system_time_def fold FakeClock_with_system_time_def unsigned_of_nat take_bit_eq_mod)
qed

end
