(* ===== verification/Idle.thy ===== *)
theory Idle
  imports Sensors Clock
begin

text \<open>
  The assessment of idleness (\<open>system/idle\<close>): the hysteresis of the temperature, the policy that turns a reading of the
  sensors into a score, a state, blockers and the permission for maintenance, and the manager that tracks how long the
  screen has been off.  The lemmas characterise exactly when maintenance is allowed, show that the manager allows
  it only after the screen has stayed off for the whole grace period, and what the hysteresis does and does not hold back.
\<close>

section \<open>States\<close>

datatype IdleState = Active | IdleCandidate | IdleIdle | DeepIdle

primrec IdleState_as_str :: "IdleState \<Rightarrow> string" where
  "IdleState_as_str Active = ''ACTIVE''"
| "IdleState_as_str IdleCandidate = ''IDLE_CANDIDATE''"
| "IdleState_as_str IdleIdle = ''IDLE''"
| "IdleState_as_str DeepIdle = ''DEEP_IDLE''"

datatype ThermalHysteresisState = ThermNormal | Warm | Hot | ThermCritical

definition next_state :: "ThermalHysteresisState \<Rightarrow> f32 \<Rightarrow> ThermalHysteresisState" where
  "next_state current temp_c =
    (if f32_le (Fin 50) temp_c then ThermCritical
     else if f32_le (Fin 45) temp_c then Hot
     else if f32_lt (Fin 40) temp_c then (case current of Hot \<Rightarrow> Hot | _ \<Rightarrow> Warm)
     else ThermNormal)"

datatype MaintenanceEligibility = Allowed | Blocked | Paused

primrec MaintenanceEligibility_is_allowed :: "MaintenanceEligibility \<Rightarrow> bool" where
  "MaintenanceEligibility_is_allowed Allowed = True"
| "MaintenanceEligibility_is_allowed Blocked = False"
| "MaintenanceEligibility_is_allowed Paused = False"

primrec MaintenanceEligibility_as_str :: "MaintenanceEligibility \<Rightarrow> string" where
  "MaintenanceEligibility_as_str Allowed = ''ELIGIBLE''"
| "MaintenanceEligibility_as_str Blocked = ''BLOCKED''"
| "MaintenanceEligibility_as_str Paused = ''PAUSED''"

section \<open>Sensor readings\<close>

datatype SensorStatus = Available | TemporarilyUnavailable | Unsupported

record 'a SensorReading =
  sr_value :: "'a option"
  sr_status :: SensorStatus

definition sensor_available :: "'a \<Rightarrow> 'a SensorReading" where
  "sensor_available v = \<lparr> sr_value = Some v, sr_status = Available \<rparr>"

definition sensor_unavailable :: "'a SensorReading" where
  "sensor_unavailable = \<lparr> sr_value = None, sr_status = TemporarilyUnavailable \<rparr>"

definition sensor_unsupported :: "'a SensorReading" where
  "sensor_unsupported = \<lparr> sr_value = None, sr_status = Unsupported \<rparr>"

definition sensor_is_available :: "'a SensorReading \<Rightarrow> bool" where
  "sensor_is_available r = (sr_status r = Available \<and> sr_value r \<noteq> None)"

record IdleContext =
  ic_screen :: ScreenState
  ic_screen_off_duration :: "Duration option"
  ic_charging :: bool
  ic_battery_percent :: u8
  ic_cpu_psi_pct :: "f32 SensorReading"
  ic_io_psi_pct :: "f32 SensorReading"
  ic_mem_psi_pct :: "f32 SensorReading"
  ic_thermal_celsius :: "f32 SensorReading"
  ic_thermal_source :: "string option"
  ic_stationary :: bool
  ic_user_active :: bool

definition IdleContext_default :: IdleContext where
  "IdleContext_default = \<lparr> ic_screen = ScreenUnknown, ic_screen_off_duration = None, ic_charging = False,
     ic_battery_percent = 50, ic_cpu_psi_pct = sensor_unsupported, ic_io_psi_pct = sensor_unsupported,
     ic_mem_psi_pct = sensor_unsupported, ic_thermal_celsius = sensor_unsupported, ic_thermal_source = None,
     ic_stationary = True, ic_user_active = False \<rparr>"

section \<open>Assessment\<close>

datatype IdleBlocker =
    ScreenOn | GracePeriodRemaining | NotCharging | BatteryTooLow | BatteryBelowDeepThreshold | ThermalHot
  | ThermalCritical | CpuPressureHigh | IoPressureHigh | RecentActivity | SensorUnavailable

definition degree_sign :: string where
  "degree_sign = [CHR 0xC2, CHR 0xB0]"

primrec IdleBlocker_description :: "IdleBlocker \<Rightarrow> string" where
  "IdleBlocker_description ScreenOn = ''Screen is ON''"
| "IdleBlocker_description GracePeriodRemaining = ''Screen-off grace period active''"
| "IdleBlocker_description NotCharging = ''Device is not charging''"
| "IdleBlocker_description BatteryTooLow = ''Battery is below 20%''"
| "IdleBlocker_description BatteryBelowDeepThreshold = ''Battery is below 70% for deep maintenance''"
| "IdleBlocker_description ThermalHot = ''Thermal zone is hot (>=45'' @ degree_sign @ ''C, paused)''"
| "IdleBlocker_description ThermalCritical = ''Thermal zone is critical (>=50'' @ degree_sign @ ''C)''"
| "IdleBlocker_description CpuPressureHigh = ''CPU pressure exceeds threshold''"
| "IdleBlocker_description IoPressureHigh = ''I/O pressure exceeds threshold''"
| "IdleBlocker_description RecentActivity = ''Recent user activity detected''"
| "IdleBlocker_description SensorUnavailable = ''Critical system sensor unavailable''"

datatype IdlePositive =
    ScreenOff | GraceElapsed | PosCharging | HighBattery | CpuIdle | IoIdle | ThermalSafe | Stationary

primrec IdlePositive_description :: "IdlePositive \<Rightarrow> string" where
  "IdlePositive_description ScreenOff = ''+25 Screen OFF''"
| "IdlePositive_description GraceElapsed = ''+10 Grace period satisfied''"
| "IdlePositive_description PosCharging = ''+15 Connected to charger''"
| "IdlePositive_description HighBattery = ''+10 Battery level >= 70%''"
| "IdlePositive_description CpuIdle = ''+10 CPU PSI is low (<5%)''"
| "IdlePositive_description IoIdle = ''+10 I/O PSI is low (<3%)''"
| "IdlePositive_description ThermalSafe = ''+10 Device temperature is cool (<38'' @ degree_sign @ ''C)''"
| "IdlePositive_description Stationary = ''+10 Device is stationary with no wakeups''"

record IdleAssessment =
  ia_score :: u8
  ia_state :: IdleState
  ia_thermal_state :: ThermalHysteresisState
  ia_standard_maintenance :: MaintenanceEligibility
  ia_heavy_maintenance :: MaintenanceEligibility
  ia_blockers :: "IdleBlocker list"
  ia_positives :: "IdlePositive list"
  ia_rate_limit_ops_per_sec :: u32
  ia_time_until_next_transition :: "Duration option"

section \<open>The policy\<close>

text \<open>The factors collected so far.\<close>

record Factors =
  fa_score :: u8
  fa_blockers :: "IdleBlocker list"
  fa_positives :: "IdlePositive list"

definition credit :: "u8 \<Rightarrow> IdlePositive \<Rightarrow> Factors \<Rightarrow> Factors" where
  "credit n p f = f\<lparr>fa_score := saturating_add (fa_score f) n, fa_positives := fa_positives f @ [p]\<rparr>"

definition block :: "IdleBlocker \<Rightarrow> Factors \<Rightarrow> Factors" where
  "block b f = f\<lparr>fa_blockers := fa_blockers f @ [b]\<rparr>"

definition grace_elapsed :: "IdleContext \<Rightarrow> Duration \<Rightarrow> bool" where
  "grace_elapsed ctx grace = (ic_screen ctx = Off \<and> grace \<le> unwrap_or (ic_screen_off_duration ctx) 0)"

definition screen_factors :: "IdleContext \<Rightarrow> Duration \<Rightarrow> Factors \<Rightarrow> Factors" where
  "screen_factors ctx grace f =
    (if ic_screen ctx = Off
     then (if grace_elapsed ctx grace then credit 10 GraceElapsed (credit 25 ScreenOff f)
           else block GracePeriodRemaining (credit 25 ScreenOff f))
     else block ScreenOn f)"

definition power_factors :: "IdleContext \<Rightarrow> Factors \<Rightarrow> Factors" where
  "power_factors ctx f =
    (let f1 = (if ic_charging ctx then credit 15 PosCharging f else block NotCharging f) in
     if 70 \<le> ic_battery_percent ctx then credit 10 HighBattery f1
     else if ic_battery_percent ctx < 20 then block BatteryTooLow f1
     else block BatteryBelowDeepThreshold f1)"

definition pressure_factors ::
  "f32 SensorReading \<Rightarrow> rat \<Rightarrow> IdlePositive \<Rightarrow> rat \<Rightarrow> IdleBlocker \<Rightarrow> Factors \<Rightarrow> bool \<times> Factors" where
  "pressure_factors reading low positive high blocker f =
    (case sr_value reading of
       Some pct \<Rightarrow>
         if f32_lt pct (Fin low) then (True, credit 10 positive f)
         else (False, if f32_le (Fin high) pct then block blocker f else f)
     | None \<Rightarrow> (True, if sr_status reading = TemporarilyUnavailable then block SensorUnavailable f else f))"

definition thermal_factors :: "IdleContext \<Rightarrow> ThermalHysteresisState \<Rightarrow> Factors \<Rightarrow> bool \<times> Factors" where
  "thermal_factors ctx thermal_state f =
    (let (thermal_safe, f1) =
           (case sr_value (ic_thermal_celsius ctx) of
              Some temp \<Rightarrow> (f32_lt temp (Fin 40), if f32_lt temp (Fin 38) then credit 10 ThermalSafe f else f)
            | None \<Rightarrow> (True, f))
     in (thermal_safe,
         case thermal_state of Hot \<Rightarrow> block ThermalHot f1 | ThermCritical \<Rightarrow> block ThermalCritical f1 | _ \<Rightarrow> f1))"

definition activity_factors :: "IdleContext \<Rightarrow> Factors \<Rightarrow> Factors" where
  "activity_factors ctx f =
    (let f1 = (if ic_stationary ctx \<and> \<not> ic_user_active ctx then credit 10 Stationary f else f) in
     if ic_user_active ctx then block RecentActivity f1 else f1)"

definition evaluate ::
  "IdleContext \<Rightarrow> IdleState \<Rightarrow> ThermalHysteresisState \<Rightarrow> Duration \<Rightarrow> IdleAssessment" where
  "evaluate ctx current_state thermal_state grace_period =
    (let f0 = \<lparr> fa_score = 0, fa_blockers = [], fa_positives = [] \<rparr>;
         is_screen_off = (ic_screen ctx = Off);
         screen_off_dur = unwrap_or (ic_screen_off_duration ctx) 0;
         elapsed = grace_elapsed ctx grace_period;
         f1 = power_factors ctx (screen_factors ctx grace_period f0);
         (cpu_low, f2) = pressure_factors (ic_cpu_psi_pct ctx) 5 CpuIdle 10 CpuPressureHigh f1;
         (io_low, f3) = pressure_factors (ic_io_psi_pct ctx) 3 IoIdle 8 IoPressureHigh f2;
         (thermal_safe, f4) = thermal_factors ctx thermal_state f3;
         f5 = activity_factors ctx f4;
         final_score = min (fa_score f5) 100;
         blockers = fa_blockers f5;
         state =
           (if \<not> is_screen_off \<or> ic_user_active ctx \<or> thermal_state = ThermCritical then Active
            else if \<not> elapsed then IdleCandidate
            else if ic_charging ctx \<and> 70 \<le> ic_battery_percent ctx \<and> thermal_state = ThermNormal \<and> thermal_safe \<and>
                    cpu_low \<and> io_low \<and> \<not> ic_user_active ctx
            then DeepIdle else IdleIdle);
         standard =
           (if thermal_state = Hot then Paused
            else if thermal_state = ThermCritical \<or> \<not> is_screen_off \<or> \<not> elapsed \<or> ic_user_active ctx \<or>
                    ic_battery_percent ctx < 20 \<or> CpuPressureHigh \<in> set blockers \<or> IoPressureHigh \<in> set blockers
            then Blocked
            else if state = IdleIdle \<or> state = DeepIdle then Allowed
            else Blocked);
         heavy =
           (if thermal_state = Hot then Paused
            else if state = DeepIdle \<and> standard = Allowed \<and> ic_charging ctx \<and> 70 \<le> ic_battery_percent ctx \<and>
                    thermal_state = ThermNormal
            then Allowed else Blocked);
         rate =
           (case thermal_state of
              ThermCritical \<Rightarrow> 0
            | Hot \<Rightarrow> 0
            | Warm \<Rightarrow> 300
            | ThermNormal \<Rightarrow>
                if IoPressureHigh \<in> set blockers then 50 else if CpuPressureHigh \<in> set blockers then 150 else 500)
     in \<lparr> ia_score = final_score, ia_state = state, ia_thermal_state = thermal_state, ia_standard_maintenance = standard,
          ia_heavy_maintenance = heavy, ia_blockers = blockers, ia_positives = fa_positives f5,
          ia_rate_limit_ops_per_sec = rate,
          ia_time_until_next_transition = (if state = IdleCandidate then Some (grace_period - screen_off_dur) else None) \<rparr>)"

section \<open>The manager\<close>

record IdleManager =
  im_state :: IdleState
  im_candidate_since :: "Instant option"
  im_last_activity :: "Instant option"
  im_thermal_state :: ThermalHysteresisState
  im_grace_period :: Duration

definition DEFAULT_GRACE_PERIOD :: Duration where
  "DEFAULT_GRACE_PERIOD = from_secs 300"

definition IdleManager_new :: "Duration \<Rightarrow> IdleManager" where
  "IdleManager_new grace_period = \<lparr> im_state = Active, im_candidate_since = None, im_last_activity = None,
     im_thermal_state = ThermNormal, im_grace_period = grace_period \<rparr>"

definition update :: "Instant \<Rightarrow> IdleContext \<Rightarrow> IdleManager \<Rightarrow> IdleAssessment \<times> IdleContext \<times> IdleManager" where
  "update now ctx m =
    (let since = (case ic_screen ctx of
            Off \<Rightarrow> (case im_candidate_since m of None \<Rightarrow> Some now | Some t \<Rightarrow> Some t)
          | On \<Rightarrow> None
          | ScreenUnknown \<Rightarrow> im_candidate_since m);
         ctx1 = (case since of
            Some t \<Rightarrow> ctx\<lparr>ic_screen_off_duration := Some (saturating_duration_since now t)\<rparr>
          | None \<Rightarrow> ctx);
         thermal = (case sr_value (ic_thermal_celsius ctx1) of
            Some temp \<Rightarrow> next_state (im_thermal_state m) temp
          | None \<Rightarrow> im_thermal_state m);
         assessment = evaluate ctx1 (im_state m) thermal (im_grace_period m)
     in (assessment, ctx1,
         m\<lparr>im_candidate_since := since, im_thermal_state := thermal, im_state := ia_state assessment\<rparr>))"

definition get_assessment :: "IdleContext \<Rightarrow> IdleManager \<Rightarrow> IdleAssessment" where
  "get_assessment ctx m = evaluate ctx (im_state m) (im_thermal_state m) (im_grace_period m)"

definition on_screen_state_change :: "Instant \<Rightarrow> ScreenState \<Rightarrow> IdleManager \<Rightarrow> IdleManager" where
  "on_screen_state_change now new_screen m =
    (case new_screen of
       Off \<Rightarrow> (case im_candidate_since m of None \<Rightarrow> m\<lparr>im_candidate_since := Some now\<rparr> | Some _ \<Rightarrow> m)
     | On \<Rightarrow> m\<lparr>im_candidate_since := None, im_state := Active\<rparr>
     | ScreenUnknown \<Rightarrow> m)"

definition on_thermal_update :: "f32 \<Rightarrow> IdleManager \<Rightarrow> IdleManager" where
  "on_thermal_update temp_c m =
    (let nxt = next_state (im_thermal_state m) temp_c in
     if nxt \<noteq> im_thermal_state m then m\<lparr>im_thermal_state := nxt\<rparr> else m)"

definition on_user_activity :: "Instant \<Rightarrow> IdleManager \<Rightarrow> IdleManager" where
  "on_user_activity now m = m\<lparr>im_last_activity := Some now, im_state := Active\<rparr>"

section \<open>When maintenance is allowed\<close>

definition pressure_high :: "f32 SensorReading \<Rightarrow> rat \<Rightarrow> bool" where
  "pressure_high reading high = (case sr_value reading of Some pct \<Rightarrow> f32_le (Fin high) pct | None \<Rightarrow> False)"

lemma factor_blockers [simp]:
  "fa_blockers (credit n p f) = fa_blockers f"
  "fa_blockers (block b f) = fa_blockers f @ [b]"
  "fa_score (block b f) = fa_score f"
  "fa_score (credit n p f) = saturating_add (fa_score f) n"
  by (simp_all add: credit_def block_def)

lemma early_factors_pressure:
  "set (fa_blockers (power_factors ctx (screen_factors ctx grace f))) \<inter> {CpuPressureHigh, IoPressureHigh} =
   set (fa_blockers f) \<inter> {CpuPressureHigh, IoPressureHigh}"
  by (auto simp: power_factors_def screen_factors_def Let_def)

lemma pressure_factors_blockers:
  "high_blocker \<in> {CpuPressureHigh, IoPressureHigh} \<Longrightarrow> low < high \<Longrightarrow>
   set (fa_blockers (snd (pressure_factors reading low p high high_blocker f))) \<inter> {CpuPressureHigh, IoPressureHigh} =
   set (fa_blockers f) \<inter> {CpuPressureHigh, IoPressureHigh} \<union> (if pressure_high reading high then {high_blocker} else {})"
  by (cases "sr_value reading"; cases "the (sr_value reading)")
    (auto simp: pressure_factors_def pressure_high_def f32_lt_def)

lemma late_factors_pressure:
  "set (fa_blockers (activity_factors ctx (snd (thermal_factors ctx th f)))) \<inter> {CpuPressureHigh, IoPressureHigh} =
   set (fa_blockers f) \<inter> {CpuPressureHigh, IoPressureHigh}"
  by (auto simp: activity_factors_def thermal_factors_def Let_def
      split: option.splits ThermalHysteresisState.splits prod.splits)

lemma evaluate_pressure_blockers:
  "set (ia_blockers (evaluate ctx cur th grace)) \<inter> {CpuPressureHigh, IoPressureHigh} =
   (if pressure_high (ic_cpu_psi_pct ctx) 10 then {CpuPressureHigh} else {}) \<union>
   (if pressure_high (ic_io_psi_pct ctx) 8 then {IoPressureHigh} else {})"
proof -
  let ?f1 = "power_factors ctx (screen_factors ctx grace \<lparr> fa_score = 0, fa_blockers = [], fa_positives = [] \<rparr>)"
  let ?f2 = "snd (pressure_factors (ic_cpu_psi_pct ctx) 5 CpuIdle 10 CpuPressureHigh ?f1)"
  let ?f3 = "snd (pressure_factors (ic_io_psi_pct ctx) 3 IoIdle 8 IoPressureHigh ?f2)"
  have "ia_blockers (evaluate ctx cur th grace) = fa_blockers (activity_factors ctx (snd (thermal_factors ctx th ?f3)))"
    by (simp add: evaluate_def Let_def case_prod_beta)
  then show ?thesis
    using early_factors_pressure [of ctx grace "\<lparr> fa_score = 0, fa_blockers = [], fa_positives = [] \<rparr>"]
      pressure_factors_blockers [of CpuPressureHigh 5 10 "ic_cpu_psi_pct ctx" CpuIdle ?f1]
      pressure_factors_blockers [of IoPressureHigh 3 8 "ic_io_psi_pct ctx" IoIdle ?f2]
      late_factors_pressure [of ctx th ?f3]
    by auto
qed

lemma evaluate_pressure_iff [simp]:
  "CpuPressureHigh \<in> set (ia_blockers (evaluate ctx cur th grace)) \<longleftrightarrow> pressure_high (ic_cpu_psi_pct ctx) 10"
  "IoPressureHigh \<in> set (ia_blockers (evaluate ctx cur th grace)) \<longleftrightarrow> pressure_high (ic_io_psi_pct ctx) 8"
  using evaluate_pressure_blockers [of ctx cur th grace] by (auto split: if_splits)

lemma evaluate_score: "ia_score (evaluate ctx cur th grace) \<le> 100"
  by (simp add: evaluate_def Let_def case_prod_beta)

text \<open>The fields of an assessment that depend on the blockers.\<close>

lemma evaluate_fields:
  fixes ctx cur th grace
  defines "a \<equiv> evaluate ctx cur th grace"
  shows "ia_thermal_state a = th"
    and "ia_state a = (if ic_screen ctx \<noteq> Off \<or> ic_user_active ctx \<or> th = ThermCritical then Active
      else if \<not> grace_elapsed ctx grace then IdleCandidate
      else if ic_charging ctx \<and> 70 \<le> ic_battery_percent ctx \<and> th = ThermNormal \<and>
        (case sr_value (ic_thermal_celsius ctx) of Some t \<Rightarrow> f32_lt t (Fin 40) | None \<Rightarrow> True) \<and>
        (case sr_value (ic_cpu_psi_pct ctx) of Some p \<Rightarrow> f32_lt p (Fin 5) | None \<Rightarrow> True) \<and>
        (case sr_value (ic_io_psi_pct ctx) of Some p \<Rightarrow> f32_lt p (Fin 3) | None \<Rightarrow> True)
      then DeepIdle else IdleIdle)"
    and "ia_standard_maintenance a = (if th = Hot then Paused
      else if th = ThermCritical \<or> ic_screen ctx \<noteq> Off \<or> \<not> grace_elapsed ctx grace \<or> ic_user_active ctx \<or>
        ic_battery_percent ctx < 20 \<or> pressure_high (ic_cpu_psi_pct ctx) 10 \<or> pressure_high (ic_io_psi_pct ctx) 8
      then Blocked else if ia_state a = IdleIdle \<or> ia_state a = DeepIdle then Allowed else Blocked)"
    and "ia_heavy_maintenance a = (if th = Hot then Paused
      else if ia_state a = DeepIdle \<and> ia_standard_maintenance a = Allowed \<and> ic_charging ctx \<and>
        70 \<le> ic_battery_percent ctx \<and> th = ThermNormal then Allowed else Blocked)"
    and "ia_rate_limit_ops_per_sec a = (case th of ThermCritical \<Rightarrow> 0 | Hot \<Rightarrow> 0 | Warm \<Rightarrow> 300
      | ThermNormal \<Rightarrow> if pressure_high (ic_io_psi_pct ctx) 8 then 50
          else if pressure_high (ic_cpu_psi_pct ctx) 10 then 150 else 500)"
proof -
  note iff = evaluate_pressure_iff [of ctx cur th grace]
  have lows: "fst (pressure_factors r low p high b f) = (case sr_value r of Some x \<Rightarrow> f32_lt x (Fin low) | None \<Rightarrow> True)"
    for r low p high b f by (simp add: pressure_factors_def split: option.split)
  have safe: "fst (thermal_factors ctx th f) = (case sr_value (ic_thermal_celsius ctx) of Some t \<Rightarrow> f32_lt t (Fin 40) | None \<Rightarrow> True)"
    for f by (simp add: thermal_factors_def Let_def split: option.split)
  show "ia_thermal_state a = th" by (simp add: a_def evaluate_def Let_def case_prod_beta)
  show state: "ia_state a = (if ic_screen ctx \<noteq> Off \<or> ic_user_active ctx \<or> th = ThermCritical then Active
      else if \<not> grace_elapsed ctx grace then IdleCandidate
      else if ic_charging ctx \<and> 70 \<le> ic_battery_percent ctx \<and> th = ThermNormal \<and>
        (case sr_value (ic_thermal_celsius ctx) of Some t \<Rightarrow> f32_lt t (Fin 40) | None \<Rightarrow> True) \<and>
        (case sr_value (ic_cpu_psi_pct ctx) of Some p \<Rightarrow> f32_lt p (Fin 5) | None \<Rightarrow> True) \<and>
        (case sr_value (ic_io_psi_pct ctx) of Some p \<Rightarrow> f32_lt p (Fin 3) | None \<Rightarrow> True)
      then DeepIdle else IdleIdle)"
    by (simp add: a_def evaluate_def Let_def case_prod_beta lows safe)
  show "ia_standard_maintenance a = (if th = Hot then Paused
      else if th = ThermCritical \<or> ic_screen ctx \<noteq> Off \<or> \<not> grace_elapsed ctx grace \<or> ic_user_active ctx \<or>
        ic_battery_percent ctx < 20 \<or> pressure_high (ic_cpu_psi_pct ctx) 10 \<or> pressure_high (ic_io_psi_pct ctx) 8
      then Blocked else if ia_state a = IdleIdle \<or> ia_state a = DeepIdle then Allowed else Blocked)"
    unfolding a_def iff [symmetric] by (simp add: evaluate_def Let_def case_prod_beta)
  show "ia_heavy_maintenance a = (if th = Hot then Paused
      else if ia_state a = DeepIdle \<and> ia_standard_maintenance a = Allowed \<and> ic_charging ctx \<and>
        70 \<le> ic_battery_percent ctx \<and> th = ThermNormal then Allowed else Blocked)"
    by (simp add: a_def evaluate_def Let_def case_prod_beta)
  show "ia_rate_limit_ops_per_sec a = (case th of ThermCritical \<Rightarrow> 0 | Hot \<Rightarrow> 0 | Warm \<Rightarrow> 300
      | ThermNormal \<Rightarrow> if pressure_high (ic_io_psi_pct ctx) 8 then 50
          else if pressure_high (ic_cpu_psi_pct ctx) 10 then 150 else 500)"
    unfolding a_def iff [symmetric] by (simp add: evaluate_def Let_def case_prod_beta)
qed

lemma evaluate_allowed:
  "let a = evaluate ctx cur th grace;
       standard = (grace_elapsed ctx grace \<and> \<not> ic_user_active ctx \<and> th \<in> {ThermNormal, Warm} \<and>
         20 \<le> ic_battery_percent ctx \<and> \<not> pressure_high (ic_cpu_psi_pct ctx) 10 \<and> \<not> pressure_high (ic_io_psi_pct ctx) 8)
   in (ia_standard_maintenance a = Allowed \<longleftrightarrow> standard) \<and>
      (ia_heavy_maintenance a = Allowed \<longleftrightarrow> standard \<and> ia_state a = DeepIdle) \<and>
      (ia_state a = DeepIdle \<longleftrightarrow> grace_elapsed ctx grace \<and> \<not> ic_user_active ctx \<and> ic_charging ctx \<and>
         70 \<le> ic_battery_percent ctx \<and> th = ThermNormal \<and>
         (case sr_value (ic_thermal_celsius ctx) of Some t \<Rightarrow> f32_lt t (Fin 40) | None \<Rightarrow> True) \<and>
         (case sr_value (ic_cpu_psi_pct ctx) of Some p \<Rightarrow> f32_lt p (Fin 5) | None \<Rightarrow> True) \<and>
         (case sr_value (ic_io_psi_pct ctx) of Some p \<Rightarrow> f32_lt p (Fin 3) | None \<Rightarrow> True)) \<and>
      (ia_rate_limit_ops_per_sec a = 0 \<longleftrightarrow> th \<in> {Hot, ThermCritical}) \<and> ia_score a \<le> 100"
proof -
  have off: "ic_screen ctx = Off" if "grace_elapsed ctx grace" using that by (simp add: grace_elapsed_def)
  have battery: "70 \<le> ic_battery_percent ctx \<Longrightarrow> 20 \<le> ic_battery_percent ctx"
    "ic_battery_percent ctx < 20 \<longleftrightarrow> \<not> 20 \<le> ic_battery_percent ctx"
    by (simp_all add: word_le_nat_alt word_less_nat_alt not_le)
  have state: "ia_state (evaluate ctx cur th grace) \<in> {IdleIdle, DeepIdle} \<longleftrightarrow>
      grace_elapsed ctx grace \<and> \<not> ic_user_active ctx \<and> th \<noteq> ThermCritical"
    using off by (auto simp: evaluate_fields(2))
  have rate: "ia_rate_limit_ops_per_sec (evaluate ctx cur th grace) = 0 \<longleftrightarrow> th \<in> {Hot, ThermCritical}"
    by (cases th) (simp_all add: evaluate_fields(5))
  have standard: "ia_standard_maintenance (evaluate ctx cur th grace) = Allowed \<longleftrightarrow>
      grace_elapsed ctx grace \<and> \<not> ic_user_active ctx \<and> th \<in> {ThermNormal, Warm} \<and>
      20 \<le> ic_battery_percent ctx \<and> \<not> pressure_high (ic_cpu_psi_pct ctx) 10 \<and> \<not> pressure_high (ic_io_psi_pct ctx) 8"
    using state off by (cases th) (auto simp: evaluate_fields(3) battery(2))
  have deep: "ia_state (evaluate ctx cur th grace) = DeepIdle \<longleftrightarrow>
      grace_elapsed ctx grace \<and> \<not> ic_user_active ctx \<and> ic_charging ctx \<and> 70 \<le> ic_battery_percent ctx \<and>
      th = ThermNormal \<and>
      (case sr_value (ic_thermal_celsius ctx) of Some t \<Rightarrow> f32_lt t (Fin 40) | None \<Rightarrow> True) \<and>
      (case sr_value (ic_cpu_psi_pct ctx) of Some p \<Rightarrow> f32_lt p (Fin 5) | None \<Rightarrow> True) \<and>
      (case sr_value (ic_io_psi_pct ctx) of Some p \<Rightarrow> f32_lt p (Fin 3) | None \<Rightarrow> True)"
    using off by (simp add: evaluate_fields(2))
  have heavy: "ia_heavy_maintenance (evaluate ctx cur th grace) = Allowed \<longleftrightarrow>
      ia_standard_maintenance (evaluate ctx cur th grace) = Allowed \<and> ia_state (evaluate ctx cur th grace) = DeepIdle"
    using deep standard by (simp add: evaluate_fields(4)) blast
  show ?thesis unfolding Let_def using standard heavy deep rate evaluate_score by simp
qed

text \<open>C27.  Maintenance is allowed exactly when the screen is off and has been for the grace period, there is no user
  activity, the temperature is normal or warm, the battery has at least 20 percent and neither processor nor storage is
  under high pressure; heavy maintenance exactly when moreover the device charges, has 70 percent, is cool and both
  pressures are low where they are known.  The work rate is zero exactly when hot or critical, and the score at most 100.\<close>

theorem maintenance_allowed_exact:
  "let a = evaluate ctx cur th grace;
       standard = (grace_elapsed ctx grace \<and> \<not> ic_user_active ctx \<and> th \<in> {ThermNormal, Warm} \<and>
         20 \<le> ic_battery_percent ctx \<and> \<not> pressure_high (ic_cpu_psi_pct ctx) 10 \<and> \<not> pressure_high (ic_io_psi_pct ctx) 8)
   in (ia_standard_maintenance a = Allowed \<longleftrightarrow> standard) \<and>
      (ia_heavy_maintenance a = Allowed \<longleftrightarrow> standard \<and> ia_state a = DeepIdle) \<and>
      (ia_state a = DeepIdle \<longleftrightarrow> grace_elapsed ctx grace \<and> \<not> ic_user_active ctx \<and> ic_charging ctx \<and>
         70 \<le> ic_battery_percent ctx \<and> th = ThermNormal \<and>
         (case sr_value (ic_thermal_celsius ctx) of Some t \<Rightarrow> f32_lt t (Fin 40) | None \<Rightarrow> True) \<and>
         (case sr_value (ic_cpu_psi_pct ctx) of Some p \<Rightarrow> f32_lt p (Fin 5) | None \<Rightarrow> True) \<and>
         (case sr_value (ic_io_psi_pct ctx) of Some p \<Rightarrow> f32_lt p (Fin 3) | None \<Rightarrow> True)) \<and>
      (ia_rate_limit_ops_per_sec a = 0 \<longleftrightarrow> th \<in> {Hot, ThermCritical}) \<and> ia_score a \<le> 100"
  by (rule evaluate_allowed)

section \<open>The grace period\<close>

datatype IdleOp =
    Update Instant IdleContext
  | ScreenChange Instant ScreenState
  | ThermalUpdate f32
  | UserActivity Instant

fun idle_step :: "IdleOp \<Rightarrow> IdleManager \<Rightarrow> IdleManager" where
  "idle_step (Update now ctx) m = snd (snd (update now ctx m))"
| "idle_step (ScreenChange now screen) m = on_screen_state_change now screen m"
| "idle_step (ThermalUpdate temp) m = on_thermal_update temp m"
| "idle_step (UserActivity now) m = on_user_activity now m"

text \<open>The screen an operation reports, with its time.\<close>

fun reports :: "IdleOp \<Rightarrow> (Instant \<times> ScreenState) option" where
  "reports (Update now ctx) = Some (now, ic_screen ctx)"
| "reports (ScreenChange now screen) = Some (now, screen)"
| "reports _ = None"

definition off_since :: "IdleOp list \<Rightarrow> Instant \<Rightarrow> bool" where
  "off_since ops t = (\<exists>pre op post. ops = pre @ op # post \<and> reports op = Some (t, Off) \<and>
    list_all (\<lambda>x. \<forall>now. reports x \<noteq> Some (now, On)) post)"

lemma off_since_snoc:
  "off_since ops t \<Longrightarrow> (\<forall>now. reports op \<noteq> Some (now, On)) \<Longrightarrow> off_since (ops @ [op]) t"
  unfolding off_since_def by (elim exE conjE, rule exI, rule exI, rule exI [of _ "_ @ [op]"]) simp

lemma off_since_last: "reports op = Some (t, Off) \<Longrightarrow> off_since (ops @ [op]) t"
  unfolding off_since_def by (rule exI [of _ ops], rule exI [of _ op], rule exI [of _ "[]"]) simp

lemma idle_step_since:
  "im_candidate_since (idle_step op m) =
    (case reports op of
       Some (now, Off) \<Rightarrow> (case im_candidate_since m of None \<Rightarrow> Some now | Some t \<Rightarrow> Some t)
     | Some (now, On) \<Rightarrow> None
     | _ \<Rightarrow> im_candidate_since m)"
  "im_grace_period (idle_step op m) = im_grace_period m"
  by (cases op; auto simp: update_def on_screen_state_change_def on_thermal_update_def on_user_activity_def Let_def
      split: ScreenState.splits option.splits)+

lemma candidate_since_off:
  "im_candidate_since (fold idle_step ops (IdleManager_new grace)) = Some t \<Longrightarrow> off_since ops t"
proof (induction ops arbitrary: t rule: rev_induct)
  case Nil
  then show ?case by (simp add: IdleManager_new_def)
next
  case (snoc op ops)
  let ?m = "fold idle_step ops (IdleManager_new grace)"
  have step: "im_candidate_since (idle_step op ?m) = Some t" using snoc.prems by simp
  show ?case
  proof (cases "reports op")
    case None
    then show ?thesis using snoc.IH step off_since_snoc [of ops t op] by (simp add: idle_step_since)
  next
    case (Some r)
    obtain now scr where r: "r = (now, scr)" by fastforce
    show ?thesis
    proof (cases scr)
      case On
      then show ?thesis using step Some r by (simp add: idle_step_since)
    next
      case Off
      then show ?thesis
        using step Some r snoc.IH off_since_snoc [of ops t op] off_since_last [of op t ops]
        by (auto simp: idle_step_since split: option.splits)
    next
      case ScreenUnknown
      then show ?thesis using step Some r snoc.IH off_since_snoc [of ops t op] by (simp add: idle_step_since)
    qed
  qed
qed

lemma run_grace: "im_grace_period (fold idle_step ops (IdleManager_new grace)) = grace"
  by (induction ops rule: rev_induct) (simp_all add: idle_step_since IdleManager_new_def)

text \<open>C28.  The manager allows maintenance only at the end of a grace period: whatever it was told before, when an update
  allows it, the screen was reported off at some instant at least the grace period ago, and never on since.\<close>

theorem grace_period_respected:
  assumes "ia_standard_maintenance (fst (update now ctx (fold idle_step ops (IdleManager_new grace)))) = Allowed"
    and "0 < grace"
  shows "\<exists>t. off_since (ops @ [Update now ctx]) t \<and> t + int grace \<le> now"
proof -
  let ?m = "fold idle_step ops (IdleManager_new grace)"
  define since where "since = im_candidate_since (idle_step (Update now ctx) ?m)"
  define ctx1 where "ctx1 = fst (snd (update now ctx ?m))"
  have allowed: "grace_elapsed ctx1 grace"
    using assms(1) evaluate_allowed [of ctx1 "im_state ?m" _ grace]
    by (simp add: update_def ctx1_def Let_def run_grace)
  have "ic_screen ctx1 = ic_screen ctx" by (simp add: ctx1_def update_def Let_def split: option.split)
  then have off: "ic_screen ctx = Off" using allowed by (simp add: grace_elapsed_def)
  have "since = (case im_candidate_since ?m of None \<Rightarrow> Some now | Some t \<Rightarrow> Some t)"
    unfolding since_def idle_step_since using off by simp
  then obtain t where t: "since = Some t" by (cases "im_candidate_since ?m") auto
  have "ic_screen_off_duration ctx1 = Some (saturating_duration_since now t)"
    using off t by (simp add: ctx1_def since_def update_def Let_def split: option.splits)
  then have "grace \<le> nat (now - t)" using allowed by (simp add: grace_elapsed_def saturating_duration_since_def)
  then have "t + int grace \<le> now" using assms(2) by linarith
  moreover have "off_since (ops @ [Update now ctx]) t"
    using t candidate_since_off [of "ops @ [Update now ctx]" grace t] by (simp add: since_def)
  ultimately show ?thesis by blast
qed

theorem grace_period_respected_witness:
  "\<exists>t. off_since [ScreenChange 0 Off, Update 300000000000 (IdleContext_default\<lparr>ic_screen := Off\<rparr>)] t \<and>
    t + int DEFAULT_GRACE_PERIOD \<le> 300000000000"
proof -
  have "fold idle_step [ScreenChange 0 Off] (IdleManager_new DEFAULT_GRACE_PERIOD) =
      (IdleManager_new DEFAULT_GRACE_PERIOD)\<lparr>im_candidate_since := Some 0\<rparr>"
    by (simp add: on_screen_state_change_def IdleManager_new_def)
  moreover have "ia_standard_maintenance (fst (update 300000000000 (IdleContext_default\<lparr>ic_screen := Off\<rparr>)
      ((IdleManager_new DEFAULT_GRACE_PERIOD)\<lparr>im_candidate_since := Some 0\<rparr>))) = Allowed"
    by (simp add: update_def Let_def IdleManager_new_def IdleContext_default_def sensor_unsupported_def evaluate_fields
        grace_elapsed_def saturating_duration_since_def DEFAULT_GRACE_PERIOD_def from_secs_def pressure_high_def)
  moreover have "0 < DEFAULT_GRACE_PERIOD" by (simp add: DEFAULT_GRACE_PERIOD_def from_secs_def)
  ultimately show ?thesis
    using grace_period_respected [of 300000000000 "IdleContext_default\<lparr>ic_screen := Off\<rparr>" "[ScreenChange 0 Off]"
        DEFAULT_GRACE_PERIOD] by simp
qed

section \<open>What holds nothing back\<close>

text \<open>Reported activity of the user changes no later assessment: neither the state nor the time of the last activity is
  read by the policy.\<close>

lemma user_activity_ignored:
  "fst (update now ctx (on_user_activity t m)) = fst (update now ctx m)"
  "get_assessment ctx (on_user_activity t m) = get_assessment ctx m"
proof -
  have same: "evaluate c s th g = evaluate c s' th g" for c s s' th g by (simp only: evaluate_def)
  show "fst (update now ctx (on_user_activity t m)) = fst (update now ctx m)"
    by (cases "ic_screen ctx") (simp_all add: update_def on_user_activity_def Let_def same [where s = Active and s' = "im_state m"]
        cong: option.case_cong)
  show "get_assessment ctx (on_user_activity t m) = get_assessment ctx m"
    by (simp add: get_assessment_def on_user_activity_def same [where s = Active and s' = "im_state m"])
qed

text \<open>The hysteresis holds a hot device, not one that was hotter: between 40 and 45 degrees a device that was hot
  stays hot, with no work, until it has cooled to 40, while one that was critical becomes warm at once, and may work.\<close>

theorem critical_skips_hysteresis:
  assumes "list_all (\<lambda>t. 40 < t \<and> t < 45) temps" and "temps \<noteq> []"
  shows "fold (\<lambda>t s. next_state s (Fin t)) temps Hot = Hot \<and>
    fold (\<lambda>t s. next_state s (Fin t)) temps ThermCritical = Warm \<and>
    ia_rate_limit_ops_per_sec (evaluate ctx cur Hot grace) = 0 \<and>
    ia_rate_limit_ops_per_sec (evaluate ctx cur Warm grace) = 300"
proof -
  have step: "next_state s (Fin t) = (case s of Hot \<Rightarrow> Hot | _ \<Rightarrow> Warm)" if "40 < t" "t < 45" for s t
    using that by (simp add: next_state_def)
  have "fold (\<lambda>t s. next_state s (Fin t)) ts Hot = Hot \<and> fold (\<lambda>t s. next_state s (Fin t)) ts Warm = Warm"
    if "list_all (\<lambda>t. 40 < t \<and> t < 45) ts" for ts
    using that by (induction ts) (simp_all add: step)
  moreover obtain t ts where "temps = t # ts" using assms(2) by (cases temps) auto
  ultimately show ?thesis using assms(1) by (simp add: step evaluate_fields(5))
qed

theorem critical_skips_hysteresis_witness:
  "fold (\<lambda>t s. next_state s (Fin t)) [44, 41] Hot = Hot \<and> fold (\<lambda>t s. next_state s (Fin t)) [44, 41] ThermCritical = Warm"
  using critical_skips_hysteresis [of "[44, 41]"] by simp

end
