(* ===== verification/Psi.thy ===== *)
theory Psi
  imports Sysfs Clock
begin

text \<open>
  Pressure stall information (\<open>system/psi.rs\<close>): parsing of the pressure files, the level they give, and the watcher of the
  kernel's triggers with its cooldown.  The answers of \<open>read\<close> and \<open>write\<close> on a trigger are a list that the loops consume.
  The lemmas show that a pressure file is read back exactly as the kernel prints it, and that the watcher responds at
  most once in a cooldown.
\<close>

section \<open>Metrics\<close>

record PsiMetricSample =
  pm_avg10 :: f32
  pm_avg60 :: f32
  pm_avg300 :: f32
  pm_total_us :: u64

definition PsiMetricSample_default :: PsiMetricSample where
  "PsiMetricSample_default = \<lparr> pm_avg10 = Fin 0, pm_avg60 = Fin 0, pm_avg300 = Fin 0, pm_total_us = 0 \<rparr>"

record PsiMetrics =
  psi_some :: PsiMetricSample
  psi_full :: "PsiMetricSample option"

datatype PsiPressureLevel = PsiNormal | Moderate | PsiCritical

primrec PsiPressureLevel_display :: "PsiPressureLevel \<Rightarrow> string" where
  "PsiPressureLevel_display PsiNormal = ''Normal (Low Stall)''"
| "PsiPressureLevel_display Moderate = ''Moderate (Elevated Stall)''"
| "PsiPressureLevel_display PsiCritical = ''Critical (Severe Stall / Thrashing)''"

text \<open>The derived order of the levels.\<close>

primrec level_rank :: "PsiPressureLevel \<Rightarrow> nat" where
  "level_rank PsiNormal = 0"
| "level_rank Moderate = 1"
| "level_rank PsiCritical = 2"

definition psi_token :: "string \<Rightarrow> PsiMetricSample \<times> bool \<Rightarrow> PsiMetricSample \<times> bool" where
  "psi_token token st =
    (case split_once (CHR ''='') token of
       None \<Rightarrow> st
     | Some (key, val) \<Rightarrow>
         (let float = (\<lambda>upd. case parse_f32 val of Some v \<Rightarrow> (upd v (fst st), True) | None \<Rightarrow> st) in
          if key = ''avg10'' then float (\<lambda>v s. s\<lparr>pm_avg10 := v\<rparr>)
          else if key = ''avg60'' then float (\<lambda>v s. s\<lparr>pm_avg60 := v\<rparr>)
          else if key = ''avg300'' then float (\<lambda>v s. s\<lparr>pm_avg300 := v\<rparr>)
          else if key = ''total''
          then (case parse_word val of Some v \<Rightarrow> ((fst st)\<lparr>pm_total_us := v\<rparr>, True) | None \<Rightarrow> st)
          else st))"

definition parse_psi_line :: "string \<Rightarrow> PsiMetricSample option" where
  "parse_psi_line line =
    (case fold psi_token (split_whitespace line) (PsiMetricSample_default, False) of
       (sample, parsed_any) \<Rightarrow> if parsed_any then Some sample else None)"

definition psi_content_line ::
  "string \<Rightarrow> PsiMetricSample option \<times> PsiMetricSample option \<Rightarrow> PsiMetricSample option \<times> PsiMetricSample option" where
  "psi_content_line line st =
    (let trimmed = trim line in
     case strip_prefix trimmed ''some '' of
       Some rest \<Rightarrow> (parse_psi_line rest, snd st)
     | None \<Rightarrow>
         (case strip_prefix trimmed ''full '' of Some rest \<Rightarrow> (fst st, parse_psi_line rest) | None \<Rightarrow> st))"

definition parse_psi_content :: "string \<Rightarrow> PsiMetrics option" where
  "parse_psi_content content =
    (case fold psi_content_line (lines content) (None, None) of
       (some_sample, full_sample) \<Rightarrow> map_option (\<lambda>s. \<lparr> psi_some = s, psi_full = full_sample \<rparr>) some_sample)"

definition parse_psi_file :: "SysFs \<Rightarrow> string \<Rightarrow> PsiMetrics option" where
  "parse_psi_file S path =
    (if \<not> sy_exists S path then None
     else case read_to_string S path of None \<Rightarrow> None | Some content \<Rightarrow> parse_psi_content content)"

definition is_psi_supported :: "SysFs \<Rightarrow> bool" where
  "is_psi_supported S = sy_exists S ''/proc/pressure/memory''"

definition read_memory_pressure :: "SysFs \<Rightarrow> PsiMetrics option" where
  "read_memory_pressure S = parse_psi_file S ''/proc/pressure/memory''"

definition read_io_pressure :: "SysFs \<Rightarrow> PsiMetrics option" where
  "read_io_pressure S = parse_psi_file S ''/proc/pressure/io''"

definition read_cpu_pressure :: "SysFs \<Rightarrow> PsiMetrics option" where
  "read_cpu_pressure S = parse_psi_file S ''/proc/pressure/cpu''"

definition evaluate_current_pressure_level :: "SysFs \<Rightarrow> PsiPressureLevel" where
  "evaluate_current_pressure_level S =
    (case read_memory_pressure S of
       None \<Rightarrow> PsiNormal
     | Some mem \<Rightarrow>
         if (case psi_full mem of Some full \<Rightarrow> f32_le (Fin 5) (pm_avg10 full) | None \<Rightarrow> False) then PsiCritical
         else if f32_le (Fin 10) (pm_avg10 (psi_some mem)) then Moderate
         else PsiNormal)"

record PsiDiagnostics =
  pd_is_supported :: bool
  pd_memory_metrics :: "PsiMetrics option"
  pd_io_metrics :: "PsiMetrics option"
  pd_cpu_metrics :: "PsiMetrics option"
  pd_current_level :: string

definition get_psi_diagnostics :: "SysFs \<Rightarrow> PsiDiagnostics" where
  "get_psi_diagnostics S = \<lparr> pd_is_supported = is_psi_supported S, pd_memory_metrics = read_memory_pressure S,
     pd_io_metrics = read_io_pressure S, pd_cpu_metrics = read_cpu_pressure S,
     pd_current_level = PsiPressureLevel_display (evaluate_current_pressure_level S) \<rparr>"

section \<open>Triggers\<close>

text \<open>Answers of a system call on a descriptor.\<close>

datatype IoAnswer = Done nat | Failed errno

abbreviation EINTR :: errno where "EINTR \<equiv> 4"
abbreviation EAGAIN :: errno where "EAGAIN \<equiv> 11"

text \<open>The write of the trigger's specification, to the end of the bytes, an error or an empty write; interrupted writes
  are repeated.  \<open>None\<close> means that the answers given are not enough.\<close>

fun write_spec :: "nat \<Rightarrow> IoAnswer list \<Rightarrow> bool option" where
  "write_spec n [] = (if n = 0 then Some True else None)"
| "write_spec n (answer # rest) =
    (if n = 0 then Some True
     else case answer of
       Done k \<Rightarrow> if k = 0 then Some False else write_spec (n - k) rest
     | Failed e \<Rightarrow> if e = EINTR then write_spec n rest else Some False)"

definition trigger_spec :: "string \<Rightarrow> nat \<Rightarrow> nat \<Rightarrow> string" where
  "trigger_spec trigger_type stall_us window_us =
    trigger_type @ '' '' @ decimal stall_us @ '' '' @ decimal window_us @ [newline]"

definition open_psi_trigger ::
  "SysFs \<Rightarrow> (string \<Rightarrow> int option) \<Rightarrow> IoAnswer list \<Rightarrow> string \<Rightarrow> string \<Rightarrow> nat \<Rightarrow> nat \<Rightarrow> int option option" where
  "open_psi_trigger S open_file answers path trigger_type stall_us window_us =
    (if \<not> sy_exists S path then Some None
     else case open_file path of
       None \<Rightarrow> Some None
     | Some fd \<Rightarrow>
         map_option (\<lambda>ok. if ok then Some fd else None)
           (write_spec (length (trigger_spec trigger_type stall_us window_us)) answers))"

record PsiWatcher =
  pw_moderate_fd :: "int option"
  pw_critical_fd :: "int option"
  pw_last_response :: Instant

definition PsiWatcher_create ::
  "SysFs \<Rightarrow> (string \<Rightarrow> int option) \<times> (string \<Rightarrow> int option) \<Rightarrow> IoAnswer list \<times> IoAnswer list \<Rightarrow> Instant \<Rightarrow> u32 \<Rightarrow> u32
    \<Rightarrow> PsiWatcher option" where
  "PsiWatcher_create S opens answers now moderate_stall_ms critical_stall_ms =
    (case (open_psi_trigger S (fst opens) (fst answers) ''/proc/pressure/memory'' ''some'' (unat moderate_stall_ms * 1000) 1000000,
           open_psi_trigger S (snd opens) (snd answers) ''/proc/pressure/memory'' ''full'' (unat critical_stall_ms * 1000) 1000000) of
       (Some moderate_fd, Some critical_fd) \<Rightarrow>
         Some \<lparr> pw_moderate_fd = moderate_fd, pw_critical_fd = critical_fd,
                pw_last_response = now - int (from_secs 3600) \<rparr>
     | _ \<Rightarrow> None)"

definition PsiWatcher_get_raw_fds :: "PsiWatcher \<Rightarrow> int list" where
  "PsiWatcher_get_raw_fds w =
    (case pw_moderate_fd w of Some fd \<Rightarrow> [fd] | None \<Rightarrow> []) @ (case pw_critical_fd w of Some fd \<Rightarrow> [fd] | None \<Rightarrow> [])"

definition identify_fd :: "int \<Rightarrow> PsiWatcher \<Rightarrow> PsiPressureLevel option" where
  "identify_fd fd w =
    (if Some fd = pw_critical_fd w then Some PsiCritical
     else if Some fd = pw_moderate_fd w then Some Moderate
     else None)"

definition can_respond :: "Instant \<Rightarrow> u64 \<Rightarrow> PsiWatcher \<Rightarrow> bool" where
  "can_respond now cooldown_secs w = (from_secs cooldown_secs \<le> saturating_duration_since now (pw_last_response w))"

definition record_response :: "Instant \<Rightarrow> PsiWatcher \<Rightarrow> PsiWatcher" where
  "record_response now w = w\<lparr>pw_last_response := now\<rparr>"

text \<open>Draining reads until the end of the file, an error that is not an interruption, or \<open>EAGAIN\<close>; the result is the
  unread answers, \<open>None\<close> when they were not enough.\<close>

fun drain_reads :: "IoAnswer list \<Rightarrow> IoAnswer list option" where
  "drain_reads [] = None"
| "drain_reads (answer # rest) =
    (case answer of
       Done n \<Rightarrow> if n = 0 then Some rest else drain_reads rest
     | Failed e \<Rightarrow> if e = EINTR then drain_reads rest else Some rest)"

definition drain_level :: "PsiPressureLevel \<Rightarrow> PsiWatcher \<Rightarrow> int option" where
  "drain_level level w =
    (case level of PsiCritical \<Rightarrow> pw_critical_fd w | Moderate \<Rightarrow> pw_moderate_fd w | PsiNormal \<Rightarrow> None)"

text \<open>The strongest level among the descriptors of one batch of events.\<close>

definition strongest :: "PsiPressureLevel option \<Rightarrow> PsiPressureLevel \<Rightarrow> PsiPressureLevel option" where
  "strongest current level =
    Some (case current of Some c \<Rightarrow> if level_rank level \<le> level_rank c then c else level | None \<Rightarrow> level)"

section \<open>Loops end\<close>

text \<open>The loops end with the first answer that is neither partial nor an interruption.\<close>

lemma write_spec_0 [simp]: "write_spec 0 answers = Some True"
  by (cases answers) auto

lemma write_spec_ends:
  "list_ex (\<lambda>a. case a of Done n \<Rightarrow> N \<le> n \<or> n = 0 | Failed e \<Rightarrow> e \<noteq> EINTR) answers \<Longrightarrow> n \<le> N \<Longrightarrow>
   write_spec n answers \<noteq> None"
  by (induction answers arbitrary: n) (auto split: IoAnswer.splits)

lemma drain_reads_ends:
  "list_ex (\<lambda>a. case a of Done n \<Rightarrow> n = 0 | Failed e \<Rightarrow> e \<noteq> EINTR) answers \<Longrightarrow> drain_reads answers \<noteq> None"
  by (induction answers) (auto split: IoAnswer.splits)

section \<open>Pressure files are read back\<close>

text \<open>A sample in the units of the kernel: hundredths of a percent and microseconds.\<close>

definition centi :: "nat \<Rightarrow> string" where
  "centi c = decimal (c div 100) @ ''.'' @ [digit_char (c mod 100 div 10), digit_char (c mod 10)]"

definition psi_fields :: "nat \<Rightarrow> nat \<Rightarrow> nat \<Rightarrow> u64 \<Rightarrow> string" where
  "psi_fields a b c tot =
    (''avg10='' @ centi a) @ '' '' @ (''avg60='' @ centi b) @ '' '' @ (''avg300='' @ centi c) @ '' '' @ ''total='' @ decimal (unat tot)"

definition sample_of :: "nat \<Rightarrow> nat \<Rightarrow> nat \<Rightarrow> u64 \<Rightarrow> PsiMetricSample" where
  "sample_of a b c tot = \<lparr> pm_avg10 = Fin (of_nat a / 100), pm_avg60 = Fin (of_nat b / 100),
     pm_avg300 = Fin (of_nat c / 100), pm_total_us = tot \<rparr>"

lemma parse_two_decimals:
  assumes "x < 10" "y < 10"
  shows "parse_f32 (decimal q @ ''.'' @ [digit_char x, digit_char y]) = Some (Fin (of_nat (10 * (10 * q + x) + y) / 100))"
proof -
  have d: "list_all is_digit [digit_char x, digit_char y]" using assms by simp
  have f: "foldl (\<lambda>n c. 10 * n + digit_value c) 0 (decimal q @ [digit_char x, digit_char y]) = 10 * (10 * q + x) + y"
    using assms by (simp only: foldl_append decimal_value foldl.simps digit_char_props)
  show ?thesis
    unfolding parse_f32_fixed [OF decimal_digits d decimal_neq_Nil(1)] f by (simp only: list.size) simp
qed

lemma centi_digits: "c mod 100 div 10 < 10" "c mod 10 < 10" "10 * (10 * (c div 100) + c mod 100 div 10) + c mod 10 = c"
  for c :: nat
proof -
  have d: "c mod 100 div 10 = c div 10 mod 10" "c div 100 = c div 10 div 10"
    using mod_mult2_eq [of c 10 10] div_mult2_eq [of c 10 10] by simp_all
  show "c mod 100 div 10 < 10" "c mod 10 < 10" by (simp_all add: d)
  show "10 * (10 * (c div 100) + c mod 100 div 10) + c mod 10 = c" by (simp only: d mult_div_mod_eq)
qed

lemma parse_centi [simp]: "parse_f32 (centi c) = Some (Fin (of_nat c / 100))"
  unfolding centi_def parse_two_decimals [OF centi_digits(1,2)] centi_digits(3) ..

lemma digits_plain: "list_all is_digit s \<Longrightarrow> list_all (\<lambda>c. byte_of c < 0x80 \<and> \<not> ascii_blank c) s"
  by (auto simp: list_all_iff is_digit_def ascii_blank_def byte_of_def)

lemma plain_append: "plain s \<Longrightarrow> list_all (\<lambda>c. byte_of c < 0x80 \<and> \<not> ascii_blank c) t \<Longrightarrow> plain (s @ t)"
  by (simp add: plain_def)

lemma centi_plain: "list_all (\<lambda>ch. byte_of ch < 0x80 \<and> \<not> ascii_blank ch) (centi n)"
proof -
  have "list_all is_digit [digit_char (n mod 100 div 10), digit_char (n mod 10)]" using centi_digits(1,2) [of n] by simp
  then have "list_all (\<lambda>ch. byte_of ch < 0x80 \<and> \<not> ascii_blank ch) [digit_char (n mod 100 div 10), digit_char (n mod 10)]"
    by (rule digits_plain)
  moreover have "list_all (\<lambda>ch. byte_of ch < 0x80 \<and> \<not> ascii_blank ch) ''.''" by (simp add: ascii_blank_def byte_of_def)
  ultimately show ?thesis
    unfolding centi_def list_all_append using digits_plain [OF decimal_digits [of "n div 100"]] by blast
qed

lemma fields_plain:
  "plain (''avg10='' @ centi a)" "plain (''avg60='' @ centi b)" "plain (''avg300='' @ centi c)"
  "plain (''total='' @ decimal n)"
proof -
  have "plain ''avg10=''" "plain ''avg60=''" "plain ''avg300=''" "plain ''total=''"
    by (simp_all add: plain_def ascii_blank_def byte_of_def)
  then show "plain (''avg10='' @ centi a)" "plain (''avg60='' @ centi b)" "plain (''avg300='' @ centi c)"
    "plain (''total='' @ decimal n)"
    by (blast intro: plain_append centi_plain digits_plain decimal_digits)+
qed

lemma psi_token_values:
  "psi_token (''avg10='' @ centi n) st = ((fst st)\<lparr>pm_avg10 := Fin (of_nat n / 100)\<rparr>, True)"
  "psi_token (''avg60='' @ centi n) st = ((fst st)\<lparr>pm_avg60 := Fin (of_nat n / 100)\<rparr>, True)"
  "psi_token (''avg300='' @ centi n) st = ((fst st)\<lparr>pm_avg300 := Fin (of_nat n / 100)\<rparr>, True)"
  "psi_token (''total='' @ decimal (unat tot)) st = ((fst st)\<lparr>pm_total_us := tot\<rparr>, True)"
  by (simp_all add: psi_token_def split_once_def)

lemma plain_ascii: "plain t \<Longrightarrow> list_all (\<lambda>c. byte_of c < 0x80) t"
  by (simp add: plain_def list_all_iff)

lemma psi_fields_split:
  "split_whitespace (psi_fields a b c tot) =
    [''avg10='' @ centi a, ''avg60='' @ centi b, ''avg300='' @ centi c, ''total='' @ decimal (unat tot)]"
proof -
  have space: "list_all (\<lambda>c. byte_of c < 0x80) '' ''" by (simp add: byte_of_def)
  note ascii = plain_ascii [OF fields_plain(2) [of b]] plain_ascii [OF fields_plain(3) [of c]]
    plain_ascii [OF fields_plain(4) [of "unat tot"]]
  show ?thesis
    unfolding psi_fields_def
    using split_whitespace_Cons [OF fields_plain(1) [of a], of "(''avg60='' @ centi b) @ '' '' @ (''avg300='' @ centi c) @ '' '' @ ''total='' @ decimal (unat tot)"]
      split_whitespace_Cons [OF fields_plain(2) [of b], of "(''avg300='' @ centi c) @ '' '' @ ''total='' @ decimal (unat tot)"]
      split_whitespace_Cons [OF fields_plain(3) [of c], of "''total='' @ decimal (unat tot)"]
      split_whitespace_plain [OF fields_plain(4) [of "unat tot"]]
      ascii space by (simp only: list_all_append simp_thms)
qed

lemma parse_psi_fields: "parse_psi_line (psi_fields a b c tot) = Some (sample_of a b c tot)"
  unfolding parse_psi_line_def psi_fields_split fold_simps psi_token_values
  by (simp add: PsiMetricSample_default_def sample_of_def)

text \<open>The text of a pressure file, with or without the line for full stalls.\<close>

type_synonym psi_values = "nat \<times> nat \<times> nat \<times> u64"

definition psi_text :: "psi_values \<Rightarrow> psi_values option \<Rightarrow> string" where
  "psi_text s f =
    (case s of (a, b, c, t) \<Rightarrow> ''some '' @ psi_fields a b c t @ [newline]) @
    (case f of Some (a, b, c, t) \<Rightarrow> ''full '' @ psi_fields a b c t @ [newline] | None \<Rightarrow> [])"

lemma psi_fields_chars: "list_all (\<lambda>ch. byte_of ch < 0x80 \<and> ch \<noteq> newline \<and> ch \<noteq> CHR 0x0D) (psi_fields a b c t)"
proof -
  have "list_all (\<lambda>ch. byte_of ch < 0x80 \<and> ch \<noteq> newline \<and> ch \<noteq> CHR 0x0D) p" if "plain p" for p
    using that by (auto simp: plain_def list_all_iff ascii_blank_def newline_def)
  note parts = this [OF fields_plain(1) [of a]] this [OF fields_plain(2) [of b]] this [OF fields_plain(3) [of c]]
    this [OF fields_plain(4) [of "unat t"]]
  have "list_all (\<lambda>ch. byte_of ch < 0x80 \<and> ch \<noteq> newline \<and> ch \<noteq> CHR 0x0D) '' ''"
    by (simp add: newline_def byte_of_def)
  then show ?thesis
    unfolding psi_fields_def using parts by (simp only: list_all_append simp_thms)
qed

lemma psi_fields_last: "psi_fields a b c t \<noteq> []" "is_digit (last (psi_fields a b c t))"
proof -
  show "psi_fields a b c t \<noteq> []" by (simp add: psi_fields_def)
  have "last (psi_fields a b c t) = last (decimal (unat t))" by (simp add: psi_fields_def)
  then show "is_digit (last (psi_fields a b c t))"
    using decimal_digits [of "unat t"] by (simp add: list_all_iff)
qed

lemma psi_line_clean:
  assumes "l = k # ks @ psi_fields a b c t" "list_all (\<lambda>ch. byte_of ch < 0x80 \<and> \<not> ascii_blank ch) (k # ks') \<and> ks = ks' @ '' ''"
  shows "trim l = l" "strip_cr l = l" "newline \<notin> set l"
proof -
  have last: "last l = last (psi_fields a b c t)" "l \<noteq> []" using assms(1) psi_fields_last(1) by simp_all
  have digit: "byte_of (last l) < 0x80" "\<not> ascii_blank (last l)"
    using digits_plain [of "[last l]"] psi_fields_last(2) [of a b c t] last(1) by simp_all
  show "trim l = l"
    by (rule trim_plain_ends) (use assms last digit in simp_all)
  show "strip_cr l = l" using digit by (auto simp: strip_cr_def ascii_blank_def)
  have "newline \<notin> set (psi_fields a b c t)" using psi_fields_chars [of a b c t] by (auto simp: list_all_iff)
  moreover have "newline \<notin> set (k # ks)"
    using assms(2) by (auto simp: list_all_iff ascii_blank_def newline_def)
  ultimately show "newline \<notin> set l" using assms(1) by simp
qed

lemma psi_lines_clean:
  "trim (''some '' @ psi_fields a b c t) = ''some '' @ psi_fields a b c t"
  "strip_cr (''some '' @ psi_fields a b c t) = ''some '' @ psi_fields a b c t"
  "newline \<notin> set (''some '' @ psi_fields a b c t)"
  "trim (''full '' @ psi_fields a b c t) = ''full '' @ psi_fields a b c t"
  "strip_cr (''full '' @ psi_fields a b c t) = ''full '' @ psi_fields a b c t"
  "newline \<notin> set (''full '' @ psi_fields a b c t)"
proof -
  have eqs: "''some '' @ psi_fields a b c t = CHR ''s'' # ''ome '' @ psi_fields a b c t"
    "''full '' @ psi_fields a b c t = CHR ''f'' # ''ull '' @ psi_fields a b c t" by simp_all
  have heads: "list_all (\<lambda>ch. byte_of ch < 0x80 \<and> \<not> ascii_blank ch) (CHR ''s'' # ''ome'') \<and> ''ome '' = ''ome'' @ '' ''"
    "list_all (\<lambda>ch. byte_of ch < 0x80 \<and> \<not> ascii_blank ch) (CHR ''f'' # ''ull'') \<and> ''ull '' = ''ull'' @ '' ''"
    by (simp_all add: ascii_blank_def byte_of_def)
  show
    "trim (''some '' @ psi_fields a b c t) = ''some '' @ psi_fields a b c t"
    "strip_cr (''some '' @ psi_fields a b c t) = ''some '' @ psi_fields a b c t"
    "newline \<notin> set (''some '' @ psi_fields a b c t)"
    "trim (''full '' @ psi_fields a b c t) = ''full '' @ psi_fields a b c t"
    "strip_cr (''full '' @ psi_fields a b c t) = ''full '' @ psi_fields a b c t"
    "newline \<notin> set (''full '' @ psi_fields a b c t)"
    using psi_line_clean [OF eqs(1) heads(1)] psi_line_clean [OF eqs(2) heads(2)] by (simp_all only: not_False_eq_True)
qed

text \<open>A pressure file is read back exactly: from the text the kernel prints, with averages in hundredths and the
  total in microseconds, parsing gives the same numbers, with the full stalls exactly when there is a line for them.\<close>

theorem psi_round_trip:
  "parse_psi_content (psi_text (a, b, c, t) f) =
    Some \<lparr> psi_some = sample_of a b c t, psi_full = map_option (\<lambda>(a, b, c, t). sample_of a b c t) f \<rparr>"
proof -
  let ?s = "''some '' @ psi_fields a b c t"
  have some: "psi_content_line ?s st = (Some (sample_of a b c t), snd st)" for st
    unfolding psi_content_line_def psi_lines_clean Let_def
    by (simp add: strip_prefix_def parse_psi_fields)
  have full: "psi_content_line (''full '' @ psi_fields a' b' c' t') st = (fst st, Some (sample_of a' b' c' t'))" for a' b' c' t' st
    unfolding psi_content_line_def psi_lines_clean Let_def
    by (simp add: strip_prefix_def parse_psi_fields)
  show ?thesis
  proof (cases f)
    case None
    have "split_on newline (?s @ [newline]) = [?s, []]"
      using split_on_append [OF psi_lines_clean(3), where b = "[]"] by simp
    then have "lines (psi_text (a, b, c, t) f) = [?s]"
      unfolding lines_def psi_text_def None by (simp add: psi_lines_clean(2) Let_def del: append.simps)
    then show ?thesis unfolding parse_psi_content_def None by (simp add: some del: append.simps)
  next
    case (Some v)
    obtain a' b' c' t' where v: "v = (a', b', c', t')" by (cases v)
    let ?f = "''full '' @ psi_fields a' b' c' t'"
    have "split_on newline (?s @ newline # ?f @ [newline]) = [?s, ?f, []]"
      using split_on_append [OF psi_lines_clean(3)] split_on_append [OF psi_lines_clean(6), where b = "[]"] by (simp del: append.simps)
    moreover have "psi_text (a, b, c, t) f = ?s @ newline # ?f @ [newline]" by (simp add: psi_text_def Some v)
    ultimately have "lines (psi_text (a, b, c, t) f) = [?s, ?f]"
      unfolding lines_def by (simp add: psi_lines_clean(2,5) Let_def del: append.simps)
    then show ?thesis unfolding parse_psi_content_def Some v by (simp add: some full del: append.simps)
  qed
qed

section \<open>Cooldown\<close>

text \<open>Events of a level, with their time, answered when the cooldown has passed.\<close>

definition respond :: "u64 \<Rightarrow> Instant \<Rightarrow> PsiWatcher \<times> Instant list \<Rightarrow> PsiWatcher \<times> Instant list" where
  "respond cooldown now st =
    (if can_respond now cooldown (fst st) then (record_response now (fst st), snd st @ [now]) else st)"

text \<open>Whatever the times of the triggers, consecutive responses are at least the cooldown apart.\<close>

lemma responses_apart:
  assumes "fold (respond cooldown) instants (w, []) = (w', responses)"
  shows "sorted_wrt (\<lambda>s t. s + int (from_secs cooldown) \<le> t \<or> from_secs cooldown = 0) responses"
proof -
  have step: "sorted_wrt (\<lambda>s t. s + int (from_secs cooldown) \<le> t \<or> from_secs cooldown = 0) rs \<and>
      (rs \<noteq> [] \<longrightarrow> pw_last_response v = last rs) \<Longrightarrow> fold (respond cooldown) ts (v, rs) = (v', rs') \<Longrightarrow>
      sorted_wrt (\<lambda>s t. s + int (from_secs cooldown) \<le> t \<or> from_secs cooldown = 0) rs'" for ts v rs v' rs'
  proof (induction ts arbitrary: v rs)
    case (Cons t ts)
    show ?case
    proof (cases "can_respond t cooldown v")
      case True
      have "s + int (from_secs cooldown) \<le> t \<or> from_secs cooldown = 0" if s: "s \<in> set rs" for s
      proof -
        have last: "last rs + int (from_secs cooldown) \<le> t \<or> from_secs cooldown = 0"
          using True Cons.prems(1) s by (auto simp: can_respond_def saturating_duration_since_def)
        obtain ys y where rs: "rs = ys @ [y]" using s by (cases rs rule: rev_cases) auto
        then have "s = last rs \<or> s + int (from_secs cooldown) \<le> last rs \<or> from_secs cooldown = 0"
          using Cons.prems(1) s by (auto simp: sorted_wrt_append)
        then show ?thesis using last by auto
      qed
      then have "sorted_wrt (\<lambda>s t. s + int (from_secs cooldown) \<le> t \<or> from_secs cooldown = 0) (rs @ [t])"
        using Cons.prems(1) by (simp add: sorted_wrt_append)
      then show ?thesis
        using Cons.IH [of "rs @ [t]" "record_response t v"] Cons.prems(2) True by (simp add: respond_def record_response_def)
    next
      case False
      then show ?thesis using Cons by (simp add: respond_def)
    qed
  qed simp
  from step [of "[]" w] assms show ?thesis by simp
qed

end
