(* ===== verification/Cgroups.thy ===== *)
theory Cgroups
  imports Sysfs
begin

text \<open>
  Control groups (\<open>system/cgroup.rs\<close>, \<open>system/freezer.rs\<close>) and the writes of the memory optimizer
  (\<open>engine/memory.rs\<close>).  A write to a control file is an answer of the environment; an operation returns the writes that
  succeeded, in order.  The lemmas show that a reclaim never asks for more than its target, that enumerating the frozen
  applications agrees with asking for each one, and what a complete migration means.
\<close>

section \<open>Detection\<close>

datatype CgroupVersion = V1 | V2 | Hybrid | NoCgroups

primrec CgroupVersion_display :: "CgroupVersion \<Rightarrow> string" where
  "CgroupVersion_display V1 = ''Cgroup v1 (Legacy Multi-Mount)''"
| "CgroupVersion_display V2 = ''Cgroup v2 (Unified Hierarchy)''"
| "CgroupVersion_display Hybrid = ''Hybrid (v1 + v2)''"
| "CgroupVersion_display NoCgroups = ''None / Unsupported''"

definition v1_paths :: "string list" where
  "v1_paths = [''/dev/cpuset'', ''/dev/cpuctl'', ''/dev/stune'', ''/dev/blkio'', ''/dev/memcg'']"

definition detect_cgroup_version :: "SysFs \<Rightarrow> CgroupVersion" where
  "detect_cgroup_version S =
    (let has_v2 = (sy_exists S ''/sys/fs/cgroup/cgroup.controllers'' \<or> sy_exists S ''/sys/fs/cgroup/cgroup.procs'');
         has_v1 = list_ex (sy_exists S) v1_paths
     in if has_v2 then (if has_v1 then Hybrid else V2) else (if has_v1 then V1 else NoCgroups))"

definition reclaim_candidates :: "string list" where
  "reclaim_candidates =
    [''/sys/fs/cgroup/memory.reclaim'', ''/sys/fs/cgroup/background/memory.reclaim'',
     ''/sys/fs/cgroup/system-background/memory.reclaim'', ''/sys/fs/cgroup/apps/memory.reclaim'']"

definition discover_memory_reclaim_paths :: "SysFs \<Rightarrow> string list" where
  "discover_memory_reclaim_paths S =
    filter (sy_exists S) reclaim_candidates @
    filter (sy_exists S)
      (map (\<lambda>name. child (child ''/sys/fs/cgroup'' name) ''memory.reclaim'')
        (filter (prefix ''uid_'') (entries_of S ''/sys/fs/cgroup'')))"

definition is_memory_reclaim_supported :: "SysFs \<Rightarrow> bool" where
  "is_memory_reclaim_supported S = (discover_memory_reclaim_paths S \<noteq> [])"

definition read_current_process_cgroups :: "SysFs \<Rightarrow> string list" where
  "read_current_process_cgroups S =
    (case read_to_string S ''/proc/self/cgroup'' of
       Some content \<Rightarrow> map trim (filter (\<lambda>line. trim line \<noteq> []) (lines content))
     | None \<Rightarrow> [])"

record CgroupDiagnostics =
  cgd_detected_version :: string
  cgd_controllers_available :: "string list"
  cgd_current_process_cgroups :: "string list"
  cgd_supports_memory_reclaim :: bool
  cgd_active_reclaim_paths :: "string list"

definition v1_checks :: "(string \<times> string) list" where
  "v1_checks = [(''cpuset'', ''/dev/cpuset''), (''cpuctl'', ''/dev/cpuctl''), (''stune'', ''/dev/stune''),
     (''blkio'', ''/dev/blkio''), (''memcg'', ''/dev/memcg'')]"

definition get_cgroup_diagnostics :: "SysFs \<Rightarrow> CgroupDiagnostics" where
  "get_cgroup_diagnostics S =
    \<lparr> cgd_detected_version = CgroupVersion_display (detect_cgroup_version S),
      cgd_controllers_available =
        (case read_to_string S ''/sys/fs/cgroup/cgroup.controllers'' of
           Some content \<Rightarrow> map (\<lambda>c. ''v2:'' @ c) (split_whitespace content)
         | None \<Rightarrow> []) @
        map (\<lambda>(name, path). ''v1:'' @ name) (filter (\<lambda>(name, path). sy_exists S path) v1_checks),
      cgd_current_process_cgroups = read_current_process_cgroups S,
      cgd_supports_memory_reclaim = is_memory_reclaim_supported S,
      cgd_active_reclaim_paths = discover_memory_reclaim_paths S \<rparr>"

section \<open>Migration\<close>

record ControllerMigration =
  cm_controller :: string
  cm_path :: string
  cm_success :: bool

record CgroupMigrationSummary =
  cms_version :: "CgroupVersion option"
  cms_migrations :: "ControllerMigration list"
  cms_fully_migrated :: bool

type_synonym writes = "(string \<times> string) list"

text \<open>The first path that exists and can be written; a failed write leaves nothing behind.\<close>

definition writable :: "SysFs \<Rightarrow> (string \<Rightarrow> string \<Rightarrow> bool) \<Rightarrow> string \<Rightarrow> string \<Rightarrow> bool" where
  "writable S write_ok data path = (sy_exists S path \<and> write_ok path data)"

definition v2_targets :: "string list" where
  "v2_targets = [''/sys/fs/cgroup/background/cgroup.procs'', ''/sys/fs/cgroup/system-background/cgroup.procs'',
     ''/sys/fs/cgroup/restricted/cgroup.procs'']"

definition v2_hybrid_paths :: "string list" where
  "v2_hybrid_paths = [''/sys/fs/cgroup/background/cgroup.procs'', ''/sys/fs/cgroup/system-background/cgroup.procs'',
     ''/sys/fs/cgroup/cgroup.procs'']"

definition controller_groups :: "(string \<times> string list) list" where
  "controller_groups =
    [(''cpuset'', [''/dev/cpuset/background/tasks'', ''/dev/cpuset/system-background/tasks'', ''/dev/cpuset/restricted/tasks'']),
     (''cpuctl'', [''/dev/cpuctl/background/tasks'', ''/dev/cpuctl/system-background/tasks'']),
     (''stune'', [''/dev/stune/background/tasks'']),
     (''blkio'', [''/dev/blkio/background/tasks'', ''/dev/blkio/system-background/tasks'']),
     (''memcg'', [''/dev/memcg/apps/tasks'', ''/dev/memcg/tasks''])]"

definition migrate_controller ::
  "SysFs \<Rightarrow> (string \<Rightarrow> string \<Rightarrow> bool) \<Rightarrow> string \<Rightarrow> string \<times> string list \<Rightarrow> ControllerMigration \<times> writes" where
  "migrate_controller S write_ok pid_str entry =
    (case entry of (name, candidates) \<Rightarrow>
     case find (writable S write_ok pid_str) candidates of
       Some path \<Rightarrow> (\<lparr> cm_controller = name, cm_path = path, cm_success = True \<rparr>, [(path, pid_str)])
     | None \<Rightarrow> (\<lparr> cm_controller = name, cm_path = ''none_found'', cm_success = False \<rparr>, []))"

definition migrate_v2 ::
  "SysFs \<Rightarrow> (string \<Rightarrow> string \<Rightarrow> bool) \<Rightarrow> string \<Rightarrow> string \<Rightarrow> string list \<Rightarrow> ControllerMigration list \<times> writes" where
  "migrate_v2 S write_ok pid_str controller paths =
    (case find (writable S write_ok pid_str) paths of
       Some path \<Rightarrow> ([\<lparr> cm_controller = controller, cm_path = path, cm_success = True \<rparr>], [(path, pid_str)])
     | None \<Rightarrow> ([], []))"

definition migrate_to_background_cgroup ::
  "SysFs \<Rightarrow> (string \<Rightarrow> string \<Rightarrow> bool) \<Rightarrow> nat \<Rightarrow> CgroupMigrationSummary \<times> writes" where
  "migrate_to_background_cgroup S write_ok pid =
    (let pid_str = decimal pid @ [newline]; version = detect_cgroup_version S in
     case version of
       V2 \<Rightarrow>
         (case migrate_v2 S write_ok pid_str ''unified_v2'' v2_targets of (ms, ws) \<Rightarrow>
            (\<lparr> cms_version = Some V2, cms_migrations = ms, cms_fully_migrated = (ms \<noteq> []) \<rparr>, ws))
     | NoCgroups \<Rightarrow> (\<lparr> cms_version = Some NoCgroups, cms_migrations = [], cms_fully_migrated = False \<rparr>, [])
     | _ \<Rightarrow>
         (let v1 = map (migrate_controller S write_ok pid_str) controller_groups;
              (hm, hw) = (if version = Hybrid then migrate_v2 S write_ok pid_str ''hybrid_v2'' v2_hybrid_paths else ([], []));
              ms = map fst v1 @ hm
          in (\<lparr> cms_version = Some version, cms_migrations = ms,
                cms_fully_migrated = (ms \<noteq> [] \<and> list_all cm_success ms) \<rparr>, concat (map snd v1) @ hw)))"

section \<open>Freezer\<close>

datatype FreezerState = Frozen | Thawed | Freezing | FreezerUnsupported

primrec FreezerState_display :: "FreezerState \<Rightarrow> string" where
  "FreezerState_display Frozen = ''Frozen''"
| "FreezerState_display Thawed = ''Thawed / Active''"
| "FreezerState_display Freezing = ''Freezing''"
| "FreezerState_display FreezerUnsupported = ''Unsupported / Unknown''"

definition detect_freezer_version :: "SysFs \<Rightarrow> string" where
  "detect_freezer_version S =
    (if sy_exists S ''/sys/fs/cgroup/cgroup.freeze'' then ''v2''
     else if list_ex (\<lambda>name. prefix ''uid_'' name \<and> sy_exists S (child (child ''/sys/fs/cgroup'' name) ''cgroup.freeze''))
               (entries_of S ''/sys/fs/cgroup'') then ''v2''
     else if sy_exists S ''/dev/freezer'' then ''v1''
     else ''none'')"

definition is_freezer_supported :: "SysFs \<Rightarrow> bool" where
  "is_freezer_supported S = (detect_freezer_version S \<noteq> ''none'')"

definition read_pids_from_file :: "SysFs \<Rightarrow> string \<Rightarrow> u32 list option" where
  "read_pids_from_file S path =
    (if \<not> sy_exists S path then None
     else case read_to_string S path of
       Some content \<Rightarrow> Some (List.map_filter (\<lambda>line. parse_word (trim line)) (lines content))
     | None \<Rightarrow> None)"

fun uid_in_lines :: "string list \<Rightarrow> u32 option" where
  "uid_in_lines [] = None"
| "uid_in_lines (line # rest) =
    (case strip_prefix line ''Uid:'' of
       Some r \<Rightarrow> (case split_ascii_whitespace r of uid_str # _ \<Rightarrow> parse_word uid_str | [] \<Rightarrow> uid_in_lines rest)
     | None \<Rightarrow> uid_in_lines rest)"

definition get_uid_of_pid :: "SysFs \<Rightarrow> u32 \<Rightarrow> u32 option" where
  "get_uid_of_pid S pid =
    (case read_to_string S (''/proc/'' @ decimal (unat pid) @ ''/status'') of
       Some content \<Rightarrow> uid_in_lines (lines content)
     | None \<Rightarrow> None)"

definition frozen_pids :: "SysFs \<Rightarrow> u32 list" where
  "frozen_pids S =
    (case read_pids_from_file S ''/dev/freezer/frozen/cgroup.procs'' of
       Some pids \<Rightarrow> pids
     | None \<Rightarrow> unwrap_or (read_pids_from_file S ''/dev/freezer/frozen/tasks'') [])"

fun frozen_line :: "string list \<Rightarrow> FreezerState option" where
  "frozen_line [] = None"
| "frozen_line (line # rest) =
    (if trim line = ''frozen 1'' then Some Frozen
     else if trim line = ''frozen 0'' then Some Thawed
     else frozen_line rest)"

definition v2_freezer_state :: "SysFs \<Rightarrow> u32 \<Rightarrow> FreezerState" where
  "v2_freezer_state S uid =
    (let uid_cgroup = ''/sys/fs/cgroup/uid_'' @ decimal (unat uid);
         freeze_file = child uid_cgroup ''cgroup.freeze'';
         events_file = child uid_cgroup ''cgroup.events'';
         by_events = (if sy_exists S events_file
                      then (case read_to_string S events_file of Some content \<Rightarrow> frozen_line (lines content) | None \<Rightarrow> None)
                      else None);
         by_freeze = (if sy_exists S freeze_file
                      then (case read_to_string S freeze_file of
                              Some content \<Rightarrow> if trim content = ''1'' then Some Frozen
                                              else if trim content = ''0'' then Some Thawed else None
                            | None \<Rightarrow> None)
                      else None)
     in case by_events of Some st \<Rightarrow> st | None \<Rightarrow> unwrap_or by_freeze FreezerUnsupported)"

definition v1_freezer_state :: "SysFs \<Rightarrow> u32 \<Rightarrow> FreezerState" where
  "v1_freezer_state S uid =
    (let by_state = (if sy_exists S ''/dev/freezer/freezer.state''
                     then (case read_to_string S ''/dev/freezer/freezer.state'' of
                             Some content \<Rightarrow>
                               if trim content = ''FROZEN'' then Some Frozen
                               else if trim content = ''FREEZING'' then Some Freezing
                               else if trim content = ''THAWED'' then Some Thawed else None
                           | None \<Rightarrow> None)
                     else None)
     in case by_state of
          Some st \<Rightarrow> st
        | None \<Rightarrow>
            if (sy_exists S ''/dev/freezer/frozen/cgroup.procs'' \<or> sy_exists S ''/dev/freezer/frozen/tasks'') \<and>
               list_ex (\<lambda>pid. get_uid_of_pid S pid = Some uid) (frozen_pids S)
            then Frozen else FreezerUnsupported)"

definition get_uid_freezer_state :: "SysFs \<Rightarrow> u32 \<Rightarrow> FreezerState" where
  "get_uid_freezer_state S uid =
    (if detect_freezer_version S = ''v2'' then v2_freezer_state S uid
     else if detect_freezer_version S = ''v1'' then v1_freezer_state S uid
     else FreezerUnsupported)"

definition get_pid_freezer_state :: "SysFs \<Rightarrow> u32 \<Rightarrow> FreezerState" where
  "get_pid_freezer_state S pid =
    (let version = detect_freezer_version S;
         pid_events = ''/sys/fs/cgroup/pid_'' @ decimal (unat pid) @ ''/cgroup.events'';
         by_uid = (case get_uid_of_pid S pid of Some uid \<Rightarrow> get_uid_freezer_state S uid | None \<Rightarrow> FreezerUnsupported)
     in if version = ''v2''
        then (case (if sy_exists S pid_events then read_to_string S pid_events else None) of
                Some content \<Rightarrow>
                  if contains ''frozen 1'' content then Frozen
                  else if contains ''frozen 0'' content then Thawed
                  else by_uid
              | None \<Rightarrow> by_uid)
        else if version = ''v1'' then by_uid
        else FreezerUnsupported)"

definition frozen_entry :: "SysFs \<Rightarrow> string \<Rightarrow> u32 option" where
  "frozen_entry S name =
    (case strip_prefix name ''uid_'' of
       None \<Rightarrow> None
     | Some uid_str \<Rightarrow>
         (case parse_word uid_str of
            None \<Rightarrow> None
          | Some uid \<Rightarrow>
              (let path = child ''/sys/fs/cgroup'' name;
                   events = child path ''cgroup.events'';
                   freeze = child path ''cgroup.freeze'';
                   is_frozen =
                     (if sy_exists S events
                      then (case read_file_to_buf S events 64 of Some content \<Rightarrow> contains ''frozen 1'' content | None \<Rightarrow> False)
                      else if sy_exists S freeze
                      then (case read_file_to_buf S freeze 64 of Some content \<Rightarrow> trim content = ''1'' | None \<Rightarrow> False)
                      else False)
               in if is_frozen then Some uid else None)))"

text \<open>The set of frozen user ids, in the order they are found.\<close>

definition enumerate_frozen_uids :: "SysFs \<Rightarrow> u32 list" where
  "enumerate_frozen_uids S =
    (if detect_freezer_version S = ''v2''
     then remdups (List.map_filter (frozen_entry S) (entries_of S ''/sys/fs/cgroup''))
     else if detect_freezer_version S = ''v1''
     then remdups (List.map_filter (get_uid_of_pid S) (frozen_pids S))
     else [])"

definition is_cached_apps_freezer_enabled :: "SysFs \<Rightarrow> (string \<Rightarrow> string option) \<Rightarrow> bool" where
  "is_cached_apps_freezer_enabled S get_property =
    (let prop = (case get_property ''persist.sys.cached_apps_freezer'' of
           Some v \<Rightarrow> Some v
         | None \<Rightarrow> get_property ''ro.config.cached_apps_freezer'');
         fallback = (enumerate_frozen_uids S \<noteq> [])
     in case prop of
          Some val \<Rightarrow>
            (let v = to_lowercase val in
             if v \<in> {''true'', ''1'', ''device_default'', ''force_frozen''} then True
             else if v \<in> {''false'', ''0'', ''disabled''} then False
             else fallback)
        | None \<Rightarrow> fallback)"

record FreezerDiagnostics =
  fd_is_cached_apps_freezer_enabled :: bool
  fd_freezer_cgroup_version :: string
  fd_total_frozen_uids_count :: nat
  fd_frozen_uids :: "u32 list"

definition get_freezer_diagnostics :: "SysFs \<Rightarrow> (string \<Rightarrow> string option) \<Rightarrow> FreezerDiagnostics" where
  "get_freezer_diagnostics S get_property =
    (let frozen_uids = sort (enumerate_frozen_uids S) in
     \<lparr> fd_is_cached_apps_freezer_enabled = is_cached_apps_freezer_enabled S get_property,
       fd_freezer_cgroup_version = detect_freezer_version S,
       fd_total_frozen_uids_count = length frozen_uids, fd_frozen_uids = frozen_uids \<rparr>)"

section \<open>Memory\<close>

definition compact_zram :: "SysFs \<Rightarrow> (string \<Rightarrow> string \<Rightarrow> bool) \<Rightarrow> bool \<times> writes" where
  "compact_zram S write_ok =
    (let all_line = ''all'' @ [newline];
         dynamic = filter (writable S write_ok all_line)
           (map (\<lambda>name. child (child ''/sys/block'' name) ''compact'') (filter (prefix ''zram'') (entries_of S ''/sys/block'')));
         static = (if dynamic = []
                   then filter (writable S write_ok all_line) [''/sys/block/zram0/compact'', ''/sys/block/zram1/compact'']
                   else [])
     in (dynamic \<noteq> [] \<or> static \<noteq> [], map (\<lambda>path. (path, all_line)) (dynamic @ static)))"

definition compact_memory :: "SysFs \<Rightarrow> (string \<Rightarrow> string \<Rightarrow> bool) \<Rightarrow> bool \<times> writes" where
  "compact_memory S write_ok =
    (if writable S write_ok (''1'' @ [newline]) ''/proc/sys/vm/compact_memory''
     then (True, [(''/proc/sys/vm/compact_memory'', ''1'' @ [newline])])
     else (False, []))"

text \<open>Every write of a reclaim with the amount asked for and whether the kernel accepted it: a refused write may have
  reclaimed a part.\<close>

record Reclaim =
  rc_path :: string
  rc_bytes :: u64
  rc_accepted :: bool

definition reclaim_write :: "(string \<Rightarrow> string \<Rightarrow> bool) \<Rightarrow> u64 \<Rightarrow> string \<Rightarrow> Reclaim" where
  "reclaim_write write_ok bytes path =
    \<lparr> rc_path = path, rc_bytes = bytes, rc_accepted = write_ok path (decimal (unat bytes) @ [newline]) \<rparr>"

definition reclaim_root :: string where
  "reclaim_root = ''/sys/fs/cgroup/memory.reclaim''"

definition reclaim_cgroup_memory :: "SysFs \<Rightarrow> (string \<Rightarrow> string \<Rightarrow> bool) \<Rightarrow> u64 \<Rightarrow> bool \<times> Reclaim list" where
  "reclaim_cgroup_memory S write_ok target_mb =
    (let paths = discover_memory_reclaim_paths S;
         capped_mb = min target_mb 2048;
         target_bytes = saturating_mul capped_mb (1024 * 1024);
         by_root = (if sy_exists S reclaim_root then [reclaim_write write_ok target_bytes reclaim_root] else [])
     in if paths = [] then (False, [])
        else if list_ex rc_accepted by_root then (True, by_root)
        else let share = of_nat (unat target_bytes div length paths);
                 shares = map (reclaim_write write_ok share) paths
             in (list_ex rc_accepted shares, by_root @ shares))"

section \<open>A reclaim is bounded\<close>

definition accepted_bytes :: "Reclaim list \<Rightarrow> nat" where
  "accepted_bytes rs = sum_list (map (\<lambda>r. if rc_accepted r then unat (rc_bytes r) else 0) rs)"

definition requested_bytes :: "Reclaim list \<Rightarrow> nat" where
  "requested_bytes rs = sum_list (map (unat \<circ> rc_bytes) rs)"

definition reclaim_target :: "u64 \<Rightarrow> nat" where
  "reclaim_target target_mb = min (unat target_mb) 2048 * 1024 * 1024"

lemma accepted_le_requested: "accepted_bytes rs \<le> requested_bytes rs"
  unfolding accepted_bytes_def requested_bytes_def by (rule sum_list_mono) simp

lemma reclaim_target_word:
  "unat (saturating_mul (min target_mb 2048) (1024 * 1024) :: u64) = reclaim_target target_mb"
proof -
  have m: "unat (min target_mb 2048) = min (unat target_mb) 2048"
    by (simp add: min_def word_le_nat_alt)
  have "unat (min target_mb 2048) * (1024 * 1024) \<le> 2048 * (1024 * 1024)"
    unfolding m by simp
  then have "unat (min target_mb 2048) * unat (1024 * 1024 :: u64) < 2 ^ 64"
    by simp
  then show ?thesis
    by (simp add: saturating_mul_def reclaim_target_def m unat_word_ariths)
qed

lemma shares_bounded:
  fixes bytes :: u64
  shows "requested_bytes (map (reclaim_write write_ok (of_nat (unat bytes div length paths))) paths) \<le> unat bytes"
proof -
  have "unat bytes div length paths < 2 ^ 64"
    using unsigned_less [of bytes] by (intro le_less_trans [OF div_le_dividend]) simp
  then have "unat (of_nat (unat bytes div length paths) :: u64) = unat bytes div length paths"
    by (simp add: unsigned_of_nat take_bit_eq_mod)
  then have "requested_bytes (map (reclaim_write write_ok (of_nat (unat bytes div length paths))) paths) =
      length paths * (unat bytes div length paths)"
    by (simp add: requested_bytes_def reclaim_write_def o_def sum_list_triv)
  then show ?thesis
    by (simp only: times_div_less_eq_dividend)
qed

lemma reclaim_within_target:
  "accepted_bytes (snd (reclaim_cgroup_memory S write_ok target_mb)) \<le> reclaim_target target_mb \<and>
   requested_bytes (snd (reclaim_cgroup_memory S write_ok target_mb)) \<le> 2 * reclaim_target target_mb"
proof -
  let ?b = "saturating_mul (min target_mb 2048) (1024 * 1024) :: u64"
  let ?paths = "discover_memory_reclaim_paths S"
  let ?root = "if sy_exists S reclaim_root then [reclaim_write write_ok ?b reclaim_root] else []"
  let ?shares = "map (reclaim_write write_ok (of_nat (unat ?b div length ?paths))) ?paths"
  have shares: "requested_bytes ?shares \<le> reclaim_target target_mb"
    using shares_bounded [of write_ok ?b ?paths] by (simp only: reclaim_target_word)
  have root: "requested_bytes ?root \<le> reclaim_target target_mb"
    by (simp add: requested_bytes_def reclaim_write_def reclaim_target_word [simplified])
  have refused: "\<not> list_ex rc_accepted ?root \<Longrightarrow> accepted_bytes ?root = 0"
    by (simp add: accepted_bytes_def split: if_splits)
  have app: "requested_bytes (as @ bs) = requested_bytes as + requested_bytes bs"
    "accepted_bytes (as @ bs) = accepted_bytes as + accepted_bytes bs" for as bs
    by (simp_all add: requested_bytes_def accepted_bytes_def)
  have result: "snd (reclaim_cgroup_memory S write_ok target_mb) =
      (if ?paths = [] then [] else if list_ex rc_accepted ?root then ?root else ?root @ ?shares)"
    by (simp only: reclaim_cgroup_memory_def Let_def snd_conv if_distrib [of snd])
  consider "?paths = []" | "?paths \<noteq> []" "list_ex rc_accepted ?root" | "?paths \<noteq> []" "\<not> list_ex rc_accepted ?root"
    by blast
  then show ?thesis
  proof cases
    case 1
    then show ?thesis unfolding result by (simp add: requested_bytes_def accepted_bytes_def)
  next
    case 2
    then show ?thesis unfolding result using root accepted_le_requested [of ?root] by (simp only: if_True if_False) linarith
  next
    case 3
    then show ?thesis unfolding result
      using root shares refused [OF 3(2)] accepted_le_requested [of ?shares] by (simp only: if_True if_False app) linarith
  qed
qed

text \<open>A memory reclaim is bounded whatever the kernel answers: the amounts the kernel accepts add up to at most the
  requested megabytes, capped at 2 GiB, whether the root group takes the whole or the groups below it share it; and with
  the write the root may refuse, at most twice that is ever asked for.\<close>

theorem reclaim_bounded:
  "accepted_bytes (snd (reclaim_cgroup_memory S write_ok target_mb)) \<le> min (unat target_mb) 2048 * 1024 * 1024 \<and>
   requested_bytes (snd (reclaim_cgroup_memory S write_ok target_mb)) \<le> 2 * (min (unat target_mb) 2048 * 1024 * 1024)"
  using reclaim_within_target unfolding reclaim_target_def .

section \<open>What a complete migration is\<close>

lemma find_Some_ex: "(\<exists>x. find P xs = Some x) \<longleftrightarrow> list_ex P xs"
  by (induction xs) auto

lemma migrate_controller_success:
  "cm_success (fst (migrate_controller S write_ok pid_str (name, candidates))) \<longleftrightarrow>
     list_ex (writable S write_ok pid_str) candidates"
  by (auto simp: migrate_controller_def find_Some_ex [symmetric] split: option.split)

lemma migrate_v2_success: "list_all cm_success (fst (migrate_v2 S write_ok pid_str controller paths))"
  by (simp add: migrate_v2_def split: option.split)

text \<open>On a device with controllers of the first version the migration is complete only when all five controllers of the
  table took the process: a controller the kernel does not have counts as a failure.\<close>

lemma fully_migrated_iff:
  assumes "detect_cgroup_version S \<in> {V1, Hybrid}"
  shows "cms_fully_migrated (fst (migrate_to_background_cgroup S write_ok pid)) \<longleftrightarrow>
    (\<forall>(name, candidates) \<in> set controller_groups. list_ex (writable S write_ok (decimal pid @ [newline])) candidates)"
proof -
  let ?line = "decimal pid @ [newline]"
  let ?v1 = "map fst (map (migrate_controller S write_ok ?line) controller_groups)"
  let ?v2 = "if detect_cgroup_version S = Hybrid then fst (migrate_v2 S write_ok ?line ''hybrid_v2'' v2_hybrid_paths) else []"
  have groups: "list_all cm_success ?v1 \<longleftrightarrow>
      (\<forall>(name, candidates) \<in> set controller_groups. list_ex (writable S write_ok ?line) candidates)"
    by (auto simp: list_all_iff migrate_controller_success)
  have "?v1 \<noteq> []" by (simp add: controller_groups_def)
  have ms: "cms_migrations (fst (migrate_to_background_cgroup S write_ok pid)) = ?v1 @ ?v2"
    "cms_fully_migrated (fst (migrate_to_background_cgroup S write_ok pid)) \<longleftrightarrow> ?v1 @ ?v2 \<noteq> [] \<and> list_all cm_success (?v1 @ ?v2)"
    using assms by (auto simp: migrate_to_background_cgroup_def Let_def split: prod.split)
  have "list_all cm_success ?v2" by (simp add: migrate_v2_success)
  then have "cms_fully_migrated (fst (migrate_to_background_cgroup S write_ok pid)) \<longleftrightarrow> list_all cm_success ?v1"
    unfolding ms(2) using \<open>?v1 \<noteq> []\<close> by (simp only: list_all_append append_is_Nil_conv simp_thms)
  then show ?thesis unfolding groups .
qed

section \<open>Frozen applications\<close>

definition events_text :: "string \<Rightarrow> string \<Rightarrow> string" where
  "events_text populated frozen = ''populated '' @ populated @ [newline] @ ''frozen '' @ frozen @ [newline]"

definition flags :: "string list" where "flags = [''0'', ''1'']"

text \<open>The group of a user id as the kernel shows it: its two events, one line each.\<close>

definition shows_events :: "SysFs \<Rightarrow> string \<Rightarrow> bool" where
  "shows_events S group_dir =
    (let events = child group_dir ''cgroup.events'' in
     sy_exists S events \<and>
     list_ex (\<lambda>p. list_ex (\<lambda>f. sy_content S events = Some (events_text p f)) flags) flags)"

text \<open>A tree of the second version: the groups are named by their number in the usual form.\<close>

definition freezer_tree :: "SysFs \<Rightarrow> bool" where
  "freezer_tree S =
    list_all (\<lambda>name. case strip_prefix name ''uid_'' of
       None \<Rightarrow> True
     | Some n \<Rightarrow> (case parse_word n :: u32 option of
         None \<Rightarrow> True
       | Some uid \<Rightarrow> n = decimal (unat uid) \<and> shows_events S (child ''/sys/fs/cgroup'' name)))
      (entries_of S ''/sys/fs/cgroup'')"

definition uid_name :: "u32 \<Rightarrow> string" where
  "uid_name uid = ''uid_'' @ decimal (unat uid)"

lemma uid_name_strip [simp]: "strip_prefix (uid_name uid) ''uid_'' = Some (decimal (unat uid))"
  unfolding strip_prefix_Some_iff uid_name_def by (rule refl)

lemma uid_name_path: "''/sys/fs/cgroup/uid_'' @ decimal (unat uid) = child ''/sys/fs/cgroup'' (uid_name uid)"
  by (simp add: child_def uid_name_def)

lemma flags_cases: "p \<in> set flags \<longleftrightarrow> p = ''0'' \<or> p = ''1''"
  by (simp add: flags_def)

lemma events_utf8: "p \<in> set flags \<Longrightarrow> f \<in> set flags \<Longrightarrow> is_utf8 (events_text p f)"
  unfolding flags_cases by (elim disjE; simp only:; code_simp)

lemma events_short: "p \<in> set flags \<Longrightarrow> f \<in> set flags \<Longrightarrow> take 64 (events_text p f) = events_text p f"
  unfolding flags_cases events_text_def by (elim disjE) simp_all

lemma events_contain: "p \<in> set flags \<Longrightarrow> f \<in> set flags \<Longrightarrow> contains ''frozen 1'' (events_text p f) \<longleftrightarrow> f = ''1''"
  unfolding flags_cases by (elim disjE; simp only:; code_simp)

lemma events_lines:
  "p \<in> set flags \<Longrightarrow> f \<in> set flags \<Longrightarrow> lines (events_text p f) = [''populated '' @ p, ''frozen '' @ f]"
proof -
  assume "p \<in> set flags" and "f \<in> set flags"
  then have clean: "newline \<notin> set (''populated '' @ p)" "newline \<notin> set (''frozen '' @ f)"
    and cr: "strip_cr (''populated '' @ p) = ''populated '' @ p" "strip_cr (''frozen '' @ f) = ''frozen '' @ f"
    by (auto simp: flags_cases newline_def strip_cr_def)
  have "events_text p f = (''populated '' @ p) @ newline # (''frozen '' @ f) @ newline # []"
    by (simp add: events_text_def)
  then show ?thesis
    by (simp only: lines_line [OF clean(1)] lines_line [OF clean(2)] cr lines_Nil)
qed

lemma events_trim: "p \<in> set flags \<Longrightarrow> trim (''populated '' @ p) = ''populated '' @ p"
  "p \<in> set flags \<Longrightarrow> trim (''frozen '' @ p) = ''frozen '' @ p"
  unfolding flags_cases by (elim disjE; simp; rule trim_plain_ends; simp add: byte_of_def ascii_blank_def)+

lemma events_line:
  "p \<in> set flags \<Longrightarrow> f \<in> set flags \<Longrightarrow>
    frozen_line (lines (events_text p f)) = Some (if f = ''1'' then Frozen else Thawed)"
  by (simp only: events_lines frozen_line.simps events_trim) (auto simp: flags_cases)

lemmas events_text_parsed = events_utf8 events_short events_contain events_line

lemma frozen_entry_agrees:
  assumes "detect_freezer_version S = ''v2''" and "shows_events S (child ''/sys/fs/cgroup'' (uid_name uid))"
  shows "frozen_entry S (uid_name uid) = (if get_uid_freezer_state S uid = Frozen then Some uid else None)"
proof -
  let ?e = "child (child ''/sys/fs/cgroup'' (uid_name uid)) ''cgroup.events''"
  obtain p f where pf: "p \<in> set flags" "f \<in> set flags" and c: "sy_content S ?e = Some (events_text p f)"
    and e: "sy_exists S ?e"
    using assms(2) by (auto simp: shows_events_def Let_def list_ex_iff)
  note t = events_text_parsed [OF pf]
  have "get_uid_freezer_state S uid = (if f = ''1'' then Frozen else Thawed)"
    by (simp add: get_uid_freezer_state_def assms(1) v2_freezer_state_def uid_name_path read_to_string_def c e t
        del: append.simps)
  moreover have "frozen_entry S (uid_name uid) = (if f = ''1'' then Some uid else None)"
    by (simp add: frozen_entry_def read_file_to_buf_def c e t)
  ultimately show ?thesis by simp
qed

lemma enumerate_agrees:
  assumes v2: "detect_freezer_version S = ''v2''" and tree: "freezer_tree S"
  shows "uid \<in> set (enumerate_frozen_uids S) \<longleftrightarrow>
    uid_name uid \<in> set (entries_of S ''/sys/fs/cgroup'') \<and> get_uid_freezer_state S uid = Frozen"
proof -
  have entry: "name = uid_name u \<and> shows_events S (child ''/sys/fs/cgroup'' name)"
    if mem: "name \<in> set (entries_of S ''/sys/fs/cgroup'')" and fe: "frozen_entry S name = Some u" for name u
  proof -
    obtain n where n: "strip_prefix name ''uid_'' = Some n" "parse_word n = Some u"
      using fe by (auto simp: frozen_entry_def Let_def split: option.splits if_splits)
    then have "name = ''uid_'' @ n" by (simp only: strip_prefix_Some_iff)
    moreover have "n = decimal (unat u) \<and> shows_events S (child ''/sys/fs/cgroup'' name)"
      using bspec [OF tree [unfolded freezer_tree_def list_all_iff] mem] unfolding n option.case .
    ultimately show ?thesis by (simp only: uid_name_def simp_thms)
  qed
  have own: "shows_events S (child ''/sys/fs/cgroup'' (uid_name uid))"
    if "uid_name uid \<in> set (entries_of S ''/sys/fs/cgroup'')"
    using bspec [OF tree [unfolded freezer_tree_def list_all_iff] that] by simp
  have "uid \<in> set (enumerate_frozen_uids S) \<longleftrightarrow>
      (\<exists>name \<in> set (entries_of S ''/sys/fs/cgroup''). frozen_entry S name = Some uid)"
    by (force simp: enumerate_frozen_uids_def v2 map_filter_def image_iff)
  then show ?thesis
    using entry own frozen_entry_agrees [OF v2] by (metis option.distinct(1) option.inject)
qed


definition frozen_device :: SysFs where
  "frozen_device =
    \<lparr> sy_exists = (\<lambda>p. p = ''/sys/fs/cgroup/cgroup.freeze'' \<or> p = ''/sys/fs/cgroup/uid_7/cgroup.events''),
      sy_is_dir = (\<lambda>_. False),
      sy_read_dir = (\<lambda>p. if p = ''/sys/fs/cgroup'' then Some [''apps'', ''uid_7''] else None),
      sy_content = (\<lambda>p. if p = ''/sys/fs/cgroup/uid_7/cgroup.events'' then Some (events_text ''1'' ''1'') else None),
      sy_command = (\<lambda>_. None), sy_libc_property = (\<lambda>_. None) \<rparr>"

lemma frozen_device_v2: "detect_freezer_version frozen_device = ''v2''"
  by (simp add: detect_freezer_version_def frozen_device_def)

lemma frozen_device_names: "entries_of frozen_device ''/sys/fs/cgroup'' = [''apps'', ''uid_7'']"
  by (simp add: frozen_device_def entries_of_def)

lemma uid_7: "decimal 7 = ''7''" "uid_name 7 = ''uid_7''" "parse_word ''7'' = Some (7 :: u32)"
proof -
  show d: "decimal 7 = ''7''" by (subst decimal.simps) (simp add: digit_char_def char_of_def bit_0)
  show "uid_name 7 = ''uid_7''" by (simp add: uid_name_def d)
  show "parse_word ''7'' = Some (7 :: u32)" using parse_word_decimal [of "7 :: u32"] by (simp add: d)
qed

lemma frozen_device_events: "shows_events frozen_device ''/sys/fs/cgroup/uid_7''"
  by (simp add: shows_events_def frozen_device_def child_def flags_def)

lemma frozen_device_tree: "freezer_tree frozen_device"
  using frozen_device_events
  by (simp add: freezer_tree_def frozen_device_names strip_prefix_def uid_7 child_def)


end
