(* ===== verification/Loop_State.thy ===== *)
theory Loop_State
  imports Sensors Clock Psi
begin

text \<open>
  The pure part of the event loop (\<open>system/event_loop.rs\<close>) and the signals it reads (\<open>system/signals.rs\<close>): the state of
  the deadline scheduler, its reducer, the two outcomes of a maintenance request and the conversion of a deadline into the
  absolute time of a \<open>timerfd\<close>.  A step that adds a duration to an instant beyond the range of the clock panics, which is
  \<^const>\<open>None\<close>.  The lemmas show the invariant of the state over every sequence of steps, that handling an expired timer
  leaves no deadline in the past, the exact sequence of the retry delays, and that the timer is armed for exactly the
  remaining time.
\<close>

section \<open>Signals\<close>

datatype SignalEvent = SignalShutdown | SignalReload | SignalOther int

abbreviation SIGHUP :: int where "SIGHUP \<equiv> 1"
abbreviation SIGINT :: int where "SIGINT \<equiv> 2"
abbreviation SIGQUIT :: int where "SIGQUIT \<equiv> 3"
abbreviation SIGTERM :: int where "SIGTERM \<equiv> 15"

definition signal_event :: "u32 \<Rightarrow> SignalEvent" where
  "signal_event ssi_signo =
    (let signo = sint ssi_signo in
     if signo = SIGINT \<or> signo = SIGTERM \<or> signo = SIGQUIT then SignalShutdown
     else if signo = SIGHUP then SignalReload
     else SignalOther signo)"

text \<open>The answers of \<open>read\<close> in order: a complete record with its signal number, or anything else, which ends the loop.\<close>

fun signal_read_events :: "u32 option list \<Rightarrow> SignalEvent list" where
  "signal_read_events (Some signo # rest) = signal_event signo # signal_read_events rest"
| "signal_read_events _ = []"

section \<open>State, events and actions\<close>

datatype LoopEvent =
  TimerExpired
| Uevent UeventMessage
| UeventBufferOverflow
| Signal SignalEvent
| IpcReadable
| PsiPressure PsiPressureLevel
| ReconcileScreen ScreenState

datatype LoopAction =
  NoAction
| RunMaintenance
| PreemptCleaning string
| ShutdownLoop
| ReloadConfigAction
| HandleIpc
| ReclaimMemory PsiPressureLevel
| ReconcileSysfs

record LoopState =
  ls_screen_state :: ScreenState
  ls_screen_off_since :: "Instant option"
  ls_uevent_ok :: bool
  ls_maintenance_deadline :: Instant
  ls_screen_off_deadline :: "Instant option"
  ls_retry_deadline :: "Instant option"
  ls_retry_backoff_secs :: u64

definition INITIAL_RETRY_BACKOFF_SECS :: u64 where "INITIAL_RETRY_BACKOFF_SECS = 5"

definition MAX_RETRY_BACKOFF_SECS :: u64 where "MAX_RETRY_BACKOFF_SECS = 60"

definition LoopState_new :: "u64 \<Rightarrow> Instant \<Rightarrow> LoopState option" where
  "LoopState_new interval_secs now =
    (case instant_add now (from_secs interval_secs) of
       None \<Rightarrow> None
     | Some deadline \<Rightarrow> Some
         \<lparr> ls_screen_state = ScreenUnknown, ls_screen_off_since = None, ls_uevent_ok = True,
           ls_maintenance_deadline = deadline, ls_screen_off_deadline = None, ls_retry_deadline = None,
           ls_retry_backoff_secs = INITIAL_RETRY_BACKOFF_SECS \<rparr>)"

definition earlier :: "Instant option \<Rightarrow> Instant \<Rightarrow> Instant" where
  "earlier deadline earliest = (case deadline of Some d \<Rightarrow> if d < earliest then d else earliest | None \<Rightarrow> earliest)"

definition earliest_deadline :: "LoopState \<Rightarrow> Instant" where
  "earliest_deadline st = earlier (ls_retry_deadline st) (earlier (ls_screen_off_deadline st) (ls_maintenance_deadline st))"

definition reset_retry_backoff :: "LoopState \<Rightarrow> LoopState" where
  "reset_retry_backoff st = st\<lparr>ls_retry_backoff_secs := INITIAL_RETRY_BACKOFF_SECS\<rparr>"

definition display_subsystems :: "string list" where
  "display_subsystems = [''backlight'', ''leds'', ''graphics'', ''drm'', ''power_supply'']"

section \<open>The reducer\<close>

definition reduce_timer :: "Instant \<Rightarrow> LoopState \<Rightarrow> LoopState \<times> LoopAction list" where
  "reduce_timer now st =
    (let st = (case ls_screen_off_deadline st of
                 Some off_dl \<Rightarrow> if off_dl \<le> now then st\<lparr>ls_screen_off_deadline := None\<rparr> else st
               | None \<Rightarrow> st);
         maintenance_due = (ls_maintenance_deadline st \<le> now);
         retry_due = (case ls_retry_deadline st of Some r \<Rightarrow> r \<le> now | None \<Rightarrow> False)
     in (st, if maintenance_due \<or> retry_due then [RunMaintenance] else []))"

definition reduce_screen ::
  "ScreenState \<Rightarrow> Instant \<Rightarrow> u64 \<Rightarrow> bool \<Rightarrow> LoopState \<Rightarrow> (LoopState \<times> LoopAction list) option" where
  "reduce_screen new_state now min_off_secs is_cleaning st0 =
    (let st = st0\<lparr>ls_uevent_ok := True\<rparr> in
     case new_state of
       On \<Rightarrow>
         (let was_off = (ls_screen_state st \<noteq> On) in
          Some (reset_retry_backoff (st\<lparr>ls_screen_state := On, ls_screen_off_since := None, ls_screen_off_deadline := None\<rparr>),
                if was_off \<and> is_cleaning then [PreemptCleaning ''Screen turned ON''] else []))
     | Off \<Rightarrow>
         (if ls_screen_state st \<noteq> Off
          then (case instant_add now (from_secs min_off_secs) of
                  None \<Rightarrow> None
                | Some d \<Rightarrow>
                    Some (reset_retry_backoff
                      (st\<lparr>ls_screen_state := Off, ls_screen_off_since := Some now, ls_screen_off_deadline := Some d\<rparr>), []))
          else Some (st, []))
     | ScreenUnknown \<Rightarrow> Some (st, []))"

definition reduce ::
  "LoopEvent \<Rightarrow> Instant \<Rightarrow> u64 \<Rightarrow> u64 \<Rightarrow> bool \<Rightarrow> LoopState \<Rightarrow> (LoopState \<times> LoopAction list) option" where
  "reduce event now min_off_secs interval_secs is_cleaning st =
    (case event of
       TimerExpired \<Rightarrow> Some (reduce_timer now st)
     | Uevent ev \<Rightarrow> Some (st, if uev_subsystem ev \<in> set display_subsystems then [ReconcileSysfs] else [])
     | UeventBufferOverflow \<Rightarrow> Some (st\<lparr>ls_uevent_ok := False\<rparr>, [ReconcileSysfs])
     | ReconcileScreen new_state \<Rightarrow> reduce_screen new_state now min_off_secs is_cleaning st
     | Signal SignalShutdown \<Rightarrow> Some (st, [ShutdownLoop])
     | Signal SignalReload \<Rightarrow>
         (case instant_add now (from_secs interval_secs) of
            None \<Rightarrow> None
          | Some d \<Rightarrow>
              Some (reset_retry_backoff (st\<lparr>ls_maintenance_deadline := d, ls_retry_deadline := None\<rparr>), [ReloadConfigAction]))
     | Signal (SignalOther _) \<Rightarrow> Some (st, [])
     | IpcReadable \<Rightarrow> Some (st, [HandleIpc])
     | PsiPressure level \<Rightarrow> Some (st, [ReclaimMemory level]))"

definition on_maintenance_success :: "Instant \<Rightarrow> u64 \<Rightarrow> LoopState \<Rightarrow> LoopState option" where
  "on_maintenance_success now interval_secs st =
    (let interval = from_secs interval_secs in
     case instant_add (ls_maintenance_deadline st) interval of
       None \<Rightarrow> None
     | Some advanced \<Rightarrow>
         (case (if advanced < now then instant_add now interval else Some advanced) of
            None \<Rightarrow> None
          | Some d \<Rightarrow> Some (reset_retry_backoff (st\<lparr>ls_maintenance_deadline := d, ls_retry_deadline := None\<rparr>))))"

definition on_maintenance_postponed :: "Instant \<Rightarrow> u64 \<Rightarrow> LoopState \<Rightarrow> LoopState option" where
  "on_maintenance_postponed now interval_secs st =
    (let backoff = ls_retry_backoff_secs st in
     case instant_add now (from_secs backoff) of
       None \<Rightarrow> None
     | Some retry \<Rightarrow>
         (case (if ls_maintenance_deadline st \<le> now then instant_add now (from_secs interval_secs)
                else Some (ls_maintenance_deadline st)) of
            None \<Rightarrow> None
          | Some d \<Rightarrow>
              Some (st\<lparr>ls_retry_deadline := Some retry, ls_retry_backoff_secs := min (backoff * 2) MAX_RETRY_BACKOFF_SECS,
                       ls_maintenance_deadline := d\<rparr>)))"

section \<open>Arming the timer\<close>

record timespec =
  tv_sec :: int
  tv_nsec :: int

definition as_i64 :: "u64 \<Rightarrow> int" where
  "as_i64 w = sint w"

definition saturating_add_i64 :: "int \<Rightarrow> int \<Rightarrow> int" where
  "saturating_add_i64 a b = max (- (2 ^ 63)) (min (2 ^ 63 - 1) (a + b))"

text \<open>The absolute time of the one-shot timer, from the reading of the monotonic clock; the interval is zero.\<close>

definition instant_to_itimerspec :: "timespec \<Rightarrow> Instant \<Rightarrow> Instant \<Rightarrow> timespec" where
  "instant_to_itimerspec mono_now deadline now =
    (let remaining = (if deadline > now then saturating_duration_since deadline now else 1);
         total_nsec = (of_int (tv_nsec mono_now) + of_nat (remaining mod 1000000000) :: u64);
         carry_secs = as_i64 (total_nsec div 1000000000);
         rem_nsec = as_i64 (total_nsec mod 1000000000);
         target_sec = saturating_add_i64 (saturating_add_i64 (tv_sec mono_now) (as_i64 (of_nat (as_secs remaining)))) carry_secs
     in \<lparr> tv_sec = target_sec, tv_nsec = rem_nsec \<rparr>)"

definition nanos :: "timespec \<Rightarrow> int" where
  "nanos t = tv_sec t * 1000000000 + tv_nsec t"


section \<open>The invariant of the state\<close>

definition backoff_values :: "u64 list" where
  "backoff_values = [5, 10, 20, 40, 60]"

definition loop_ok :: "LoopState \<Rightarrow> bool" where
  "loop_ok st \<longleftrightarrow>
    ls_retry_backoff_secs st \<in> set backoff_values \<and>
    (ls_screen_off_since st \<noteq> None \<longleftrightarrow> ls_screen_state st = Off) \<and>
    (case ls_screen_off_deadline st of
       None \<Rightarrow> True
     | Some d \<Rightarrow> (case ls_screen_off_since st of None \<Rightarrow> False | Some since \<Rightarrow> since \<le> d))"

text \<open>What the driver does to the state: it reduces an event, or reports the outcome of a maintenance request.\<close>

datatype LoopStep =
  StepReduce LoopEvent Instant u64 u64 bool
| StepSuccess Instant u64
| StepPostponed Instant u64

primrec loop_step :: "LoopStep \<Rightarrow> LoopState \<Rightarrow> LoopState option" where
  "loop_step (StepReduce event now min_off_secs interval_secs is_cleaning) st =
    map_option fst (reduce event now min_off_secs interval_secs is_cleaning st)"
| "loop_step (StepSuccess now interval_secs) st = on_maintenance_success now interval_secs st"
| "loop_step (StepPostponed now interval_secs) st = on_maintenance_postponed now interval_secs st"

fun loop_steps :: "LoopStep list \<Rightarrow> LoopState \<Rightarrow> LoopState option" where
  "loop_steps [] st = Some st"
| "loop_steps (a # as) st = (case loop_step a st of None \<Rightarrow> None | Some st' \<Rightarrow> loop_steps as st')"

lemma INITIAL_in_values [simp]: "INITIAL_RETRY_BACKOFF_SECS \<in> set backoff_values"
  by (simp add: INITIAL_RETRY_BACKOFF_SECS_def backoff_values_def)

lemma backoff_doubles: "b \<in> set backoff_values \<Longrightarrow> min (b * 2) MAX_RETRY_BACKOFF_SECS \<in> set backoff_values"
  by (auto simp: backoff_values_def MAX_RETRY_BACKOFF_SECS_def min_def)

lemma instant_add_ge: "instant_add t d = Some u \<Longrightarrow> t \<le> u"
  by (simp add: instant_add_Some_iff)

lemma reduce_timer_ok: "loop_ok st \<Longrightarrow> loop_ok (fst (reduce_timer now st))"
  by (auto simp: reduce_timer_def loop_ok_def Let_def split: option.splits)

lemma reduce_screen_ok:
  "loop_ok st \<Longrightarrow> reduce_screen new_state now min_off_secs is_cleaning st = Some (st', as) \<Longrightarrow> loop_ok st'"
  by (cases new_state)
    (auto simp: reduce_screen_def loop_ok_def reset_retry_backoff_def Let_def instant_add_ge split: option.splits if_splits)

lemma reduce_ok:
  assumes "loop_ok st" and "reduce event now min_off_secs interval_secs is_cleaning st = Some (st', as)"
  shows "loop_ok st'"
proof (cases event)
  case TimerExpired
  then show ?thesis using assms reduce_timer_ok [of st now] by (simp add: reduce_def)
next
  case (ReconcileScreen s)
  then show ?thesis using assms reduce_screen_ok by (simp add: reduce_def)
next
  case (Signal sg)
  then show ?thesis using assms
    by (cases sg) (auto simp: reduce_def loop_ok_def reset_retry_backoff_def split: option.splits)
qed (use assms in \<open>auto simp: reduce_def loop_ok_def split: option.splits\<close>)

lemma on_maintenance_success_ok: "loop_ok st \<Longrightarrow> on_maintenance_success now n st = Some st' \<Longrightarrow> loop_ok st'"
  by (auto simp: on_maintenance_success_def loop_ok_def reset_retry_backoff_def Let_def split: option.splits)

lemma on_maintenance_postponed_ok: "loop_ok st \<Longrightarrow> on_maintenance_postponed now n st = Some st' \<Longrightarrow> loop_ok st'"
  by (auto simp: on_maintenance_postponed_def loop_ok_def Let_def backoff_doubles split: option.splits)

lemma loop_step_ok: "loop_ok st \<Longrightarrow> loop_step a st = Some st' \<Longrightarrow> loop_ok st'"
  by (cases a) (auto intro: reduce_ok on_maintenance_success_ok on_maintenance_postponed_ok)

lemma loop_steps_ok: "loop_ok st \<Longrightarrow> loop_steps as st = Some st' \<Longrightarrow> loop_ok st'"
  by (induction as arbitrary: st) (auto split: option.splits intro: loop_step_ok)

lemma LoopState_new_ok: "LoopState_new n now = Some st \<Longrightarrow> loop_ok st"
  by (auto simp: LoopState_new_def loop_ok_def split: option.splits)

section \<open>Deadlines\<close>

lemma earliest_deadline_le:
  "earliest_deadline st \<le> ls_maintenance_deadline st"
  "ls_screen_off_deadline st = Some d \<Longrightarrow> earliest_deadline st \<le> d"
  "ls_retry_deadline st = Some r \<Longrightarrow> earliest_deadline st \<le> r"
  by (auto simp: earliest_deadline_def earlier_def split: option.splits)

lemma earliest_deadline_ge:
  "t \<le> earliest_deadline st \<longleftrightarrow>
    t \<le> ls_maintenance_deadline st \<and> list_all (\<lambda>d. t \<le> d)
      ((case ls_screen_off_deadline st of None \<Rightarrow> [] | Some d \<Rightarrow> [d]) @ (case ls_retry_deadline st of None \<Rightarrow> [] | Some d \<Rightarrow> [d]))"
  by (auto simp: earliest_deadline_def earlier_def split: option.splits)

text \<open>What the driver does with an expired timer: it reduces the event and, when maintenance is due, either starts a run or
  postpones it.\<close>

definition handle_timer :: "bool \<Rightarrow> Instant \<Rightarrow> u64 \<Rightarrow> LoopState \<Rightarrow> LoopState option" where
  "handle_timer started now interval_secs st =
    (case reduce_timer now st of (st', actions) \<Rightarrow>
       if actions = [] then Some st'
       else if started then on_maintenance_success now interval_secs st'
       else on_maintenance_postponed now interval_secs st')"

definition optional_after :: "Instant \<Rightarrow> Instant option \<Rightarrow> bool" where
  "optional_after now d = (case d of None \<Rightarrow> True | Some t \<Rightarrow> now < t)"

lemma earliest_after:
  "now < earliest_deadline st \<longleftrightarrow>
    now < ls_maintenance_deadline st \<and> optional_after now (ls_screen_off_deadline st) \<and> optional_after now (ls_retry_deadline st)"
  by (auto simp: earliest_deadline_def earlier_def optional_after_def split: option.split)

lemma earliest_not_before:
  "now \<le> ls_maintenance_deadline st \<Longrightarrow> optional_after now (ls_screen_off_deadline st) \<Longrightarrow>
    optional_after now (ls_retry_deadline st) \<Longrightarrow> now \<le> earliest_deadline st"
  by (auto simp: earliest_deadline_def earlier_def optional_after_def split: option.split)

lemma reduce_timer_screen: "optional_after now (ls_screen_off_deadline (fst (reduce_timer now st)))"
  by (auto simp: reduce_timer_def optional_after_def Let_def split: option.split)

lemma reduce_timer_frame [simp]:
  "ls_maintenance_deadline (fst (reduce_timer now st)) = ls_maintenance_deadline st"
  "ls_retry_deadline (fst (reduce_timer now st)) = ls_retry_deadline st"
  "ls_retry_backoff_secs (fst (reduce_timer now st)) = ls_retry_backoff_secs st"
  by (auto simp: reduce_timer_def Let_def split: option.split)

lemma reduce_timer_due:
  "snd (reduce_timer now st) =
    (if now < ls_maintenance_deadline st \<and> optional_after now (ls_retry_deadline st) then [] else [RunMaintenance])"
  by (auto simp: reduce_timer_def Let_def optional_after_def split: option.split)

lemma on_maintenance_success_deadlines:
  assumes "on_maintenance_success now n st = Some st'" and "0 < n"
  shows "now \<le> ls_maintenance_deadline st'" and "ls_retry_deadline st' = None"
    and "ls_screen_off_deadline st' = ls_screen_off_deadline st"
  using assms
  by (auto simp: on_maintenance_success_def Let_def reset_retry_backoff_def instant_add_Some_iff split: option.splits if_splits)

lemma from_secs_pos: "0 < n \<Longrightarrow> 0 < from_secs n"
  by (simp add: from_secs_def word_gt_0 unat_gt_0)

lemma on_maintenance_postponed_deadlines:
  assumes "on_maintenance_postponed now n st = Some st'" and "0 < n" and "0 < ls_retry_backoff_secs st"
  shows "now < ls_maintenance_deadline st'" and "optional_after now (ls_retry_deadline st')"
    and "ls_screen_off_deadline st' = ls_screen_off_deadline st"
  using assms from_secs_pos [OF assms(2)] from_secs_pos [OF assms(3)]
  by (auto simp: on_maintenance_postponed_def Let_def optional_after_def instant_add_Some_iff split: option.splits if_splits)

lemma loop_ok_backoff_pos: "loop_ok st \<Longrightarrow> 0 < ls_retry_backoff_secs st"
  by (auto simp: loop_ok_def backoff_values_def)

lemma handle_timer_settles:
  assumes "0 < n" and "loop_ok st" and "handle_timer started now n st = Some st'"
  shows "now \<le> earliest_deadline st'" and "\<not> started \<Longrightarrow> now < earliest_deadline st'"
proof -
  let ?st = "fst (reduce_timer now st)"
  have bk: "0 < ls_retry_backoff_secs ?st" using assms(2) by (simp add: loop_ok_backoff_pos)
  consider "st' = ?st" "now < ls_maintenance_deadline st" "optional_after now (ls_retry_deadline st)"
    | "started" "on_maintenance_success now n ?st = Some st'"
    | "\<not> started" "on_maintenance_postponed now n ?st = Some st'"
    using assms(3) reduce_timer_due [of now st]
    by (auto simp: handle_timer_def case_prod_beta split: if_splits)
  then have "now < earliest_deadline st' \<or> started \<and> now \<le> earliest_deadline st'"
  proof cases
    case 1
    then show ?thesis using reduce_timer_screen [of now st] by (simp add: earliest_after)
  next
    case 2
    then show ?thesis using on_maintenance_success_deadlines [OF 2(2) assms(1)] reduce_timer_screen [of now st]
      by (intro disjI2 conjI earliest_not_before) (simp_all add: optional_after_def)
  next
    case 3
    then show ?thesis using on_maintenance_postponed_deadlines [OF 3(2) assms(1) bk] reduce_timer_screen [of now st]
      by (simp add: earliest_after)
  qed
  then show "now \<le> earliest_deadline st'" "\<not> started \<Longrightarrow> now < earliest_deadline st'" by auto
qed

lemma postponed_retry:
  assumes "loop_ok st" and "on_maintenance_postponed now interval_secs st = Some st'"
  shows "\<exists>retry. ls_retry_deadline st' = Some retry \<and> now + 5000000000 \<le> retry \<and> retry \<le> now + 60000000000"
  using assms
  by (auto simp: on_maintenance_postponed_def Let_def loop_ok_def backoff_values_def from_secs_def instant_add_Some_iff
      split: option.splits if_splits)

text \<open>A run that starts at a retry pushes the next one to two intervals after the postponement: the deadline that the
  postponement moved is moved again.\<close>

lemma retry_success_skips_an_interval:
  assumes "on_maintenance_postponed now interval_secs st = Some st1" and "ls_maintenance_deadline st \<le> now"
    and "on_maintenance_success later interval_secs st1 = Some st2" and "later \<le> now + 2 * int (from_secs interval_secs)"
  shows "ls_maintenance_deadline st2 = now + 2 * int (from_secs interval_secs)"
  using assms
  by (auto simp: on_maintenance_postponed_def on_maintenance_success_def Let_def instant_add_Some_iff
      reset_retry_backoff_def split: option.splits if_splits)

section \<open>Retry delays\<close>

fun postpone_all :: "(Instant \<times> u64) list \<Rightarrow> LoopState \<Rightarrow> LoopState option" where
  "postpone_all [] st = Some st"
| "postpone_all ((now, interval_secs) # rest) st =
    (case on_maintenance_postponed now interval_secs st of None \<Rightarrow> None | Some st' \<Rightarrow> postpone_all rest st')"

definition retry_delay :: "nat \<Rightarrow> u64" where
  "retry_delay n = (if n < 4 then 5 * 2 ^ n else 60)"

lemma retry_delay_Suc: "min (retry_delay n * 2) MAX_RETRY_BACKOFF_SECS = retry_delay (Suc n)"
proof (cases "n < 4")
  case True
  then have "n \<in> {0, 1, 2, 3}" by auto
  then show ?thesis by (auto simp: retry_delay_def MAX_RETRY_BACKOFF_SECS_def min_def)
qed (simp add: retry_delay_def MAX_RETRY_BACKOFF_SECS_def min_def)

lemma postpone_all_backoff:
  "ls_retry_backoff_secs st = retry_delay n \<Longrightarrow> postpone_all ps st = Some st' \<Longrightarrow>
     ls_retry_backoff_secs st' = retry_delay (n + length ps)"
proof (induction ps arbitrary: st n)
  case (Cons p ps)
  obtain now i where p: "p = (now, i)" by (cases p)
  obtain st1 where st1: "on_maintenance_postponed now i st = Some st1" "postpone_all ps st1 = Some st'"
    using Cons.prems(2) by (auto simp: p split: option.splits)
  have "ls_retry_backoff_secs st1 = retry_delay (Suc n)"
    using st1(1) Cons.prems(1)
    by (auto simp: on_maintenance_postponed_def Let_def retry_delay_Suc split: option.splits)
  then show ?case using Cons.IH [OF _ st1(2)] by simp
qed simp

section \<open>The timer\<close>

lemma as_i64_small:
  assumes "unat w < 2 ^ 63"
  shows "as_i64 w = int (unat w)"
proof -
  have "int (unat w) < int (2 ^ 63)" using assms by (simp only: of_nat_less_iff)
  then have lt: "uint w < 2 ^ 63" by simp
  have ge: "- (2 ^ 63) \<le> uint w" by (rule order_trans [OF _ uint_ge_0]) simp
  have "sint w = uint w"
    unfolding sint_uint using signed_take_bit_int_eq_self [OF ge lt] by simp
  then show ?thesis by (simp add: as_i64_def)
qed

lemma saturating_add_exact:
  assumes "0 \<le> a" and "0 \<le> b" and "0 \<le> c" and "a + b + c < 2 ^ 63"
  shows "saturating_add_i64 (saturating_add_i64 a b) c = a + b + c"
  using assms by (simp add: saturating_add_i64_def)

lemma timer_nanos:
  assumes nsec: "0 \<le> tv_nsec clk" "tv_nsec clk < 1000000000" and sec: "0 \<le> tv_sec clk"
    and room: "tv_sec clk + max 0 (deadline - now) div 1000000000 + 1 < 2 ^ 63"
  shows "nanos (instant_to_itimerspec clk deadline now) = nanos clk + max 1 (deadline - now)"
    and "0 \<le> tv_nsec (instant_to_itimerspec clk deadline now)"
    and "tv_nsec (instant_to_itimerspec clk deadline now) < 1000000000"
proof -
  define r :: nat where "r = (if deadline > now then nat (deadline - now) else 1)"
  define w :: u64 where "w = of_int (tv_nsec clk) + of_nat (r mod 1000000000)"
  have r: "int r = max 1 (deadline - now)" by (auto simp: r_def)
  have n: "unat (of_int (tv_nsec clk) :: u64) = nat (tv_nsec clk)"
    using nsec by (simp add: unsigned_of_int take_bit_int_eq_self)
  have "nat (tv_nsec clk) + r mod 1000000000 < 2 ^ 64" using nsec by simp
  then have w: "unat w = nat (tv_nsec clk) + r mod 1000000000"
    unfolding w_def by (subst unat_add_lem [THEN iffD1]) (simp_all add: n unsigned_of_nat take_bit_nat_eq_self)
  have lt: "unat w < 2000000000" using w nsec by simp
  have dm: "unat (w div 1000000000) = unat w div 1000000000" "unat (w mod 1000000000) = unat w mod 1000000000"
    by (simp_all add: unat_div unat_mod)
  have c: "as_i64 (w div 1000000000) = int (unat w div 1000000000)"
    using lt by (subst as_i64_small) (simp_all add: dm less_mult_imp_div_less)
  have m: "as_i64 (w mod 1000000000) = int (unat w mod 1000000000)"
    using lt by (subst as_i64_small) (simp_all add: dm)
  have rd: "int (r div 1000000000) = max 0 (deadline - now) div 1000000000"
    by (auto simp: r_def max_def zdiv_int)
  have "int (r div 1000000000) < 2 ^ 63" using room sec rd by linarith
  then have rs: "r div 1000000000 < 2 ^ 63" by (simp del: of_nat_div)
  have s: "as_i64 (of_nat (as_secs r)) = int (r div 1000000000)"
    using rs by (subst as_i64_small) (simp_all add: as_secs_def unsigned_of_nat take_bit_nat_eq_self)
  have carry: "unat w div 1000000000 \<le> 1" using lt by simp
  have sum: "saturating_add_i64 (saturating_add_i64 (tv_sec clk) (int (r div 1000000000))) (int (unat w div 1000000000)) =
      tv_sec clk + int (r div 1000000000) + int (unat w div 1000000000)"
  proof (rule saturating_add_exact [OF sec of_nat_0_le_iff of_nat_0_le_iff])
    have "int (unat w div 1000000000) \<le> 1" using carry by (simp only: of_nat_le_1_iff)
    then show "tv_sec clk + int (r div 1000000000) + int (unat w div 1000000000) < 2 ^ 63"
      using room unfolding rd by (rule le_less_trans [OF add_left_mono])
  qed
  have spec: "instant_to_itimerspec clk deadline now =
      \<lparr> tv_sec = tv_sec clk + int (r div 1000000000) + int (unat w div 1000000000), tv_nsec = int (unat w mod 1000000000) \<rparr>"
    unfolding instant_to_itimerspec_def saturating_duration_since_def Let_def r_def [symmetric] w_def [symmetric] c m s sum ..
  show "0 \<le> tv_nsec (instant_to_itimerspec clk deadline now)"
    "tv_nsec (instant_to_itimerspec clk deadline now) < 1000000000"
    by (simp_all add: spec)
  have split: "int (k div 1000000000) * 1000000000 + int (k mod 1000000000) = int k" for k :: nat
    using div_mult_mod_eq [of k 1000000000] by (metis of_nat_add of_nat_mult of_nat_numeral)
  have "int (unat w div 1000000000) * 1000000000 + int (unat w mod 1000000000) = int (unat w)"
    "int (r div 1000000000) * 1000000000 + int (r mod 1000000000) = int r"
    by (rule split)+
  moreover have "int (unat w) = tv_nsec clk + int (r mod 1000000000)" using w nsec by simp
  ultimately show "nanos (instant_to_itimerspec clk deadline now) = nanos clk + max 1 (deadline - now)"
    unfolding nanos_def spec r [symmetric] by (simp add: algebra_simps)
qed

section \<open>Properties\<close>

text \<open>Whatever events arrive and whatever comes of each maintenance request, the state of the loop stays consistent: the
  retry delay is one of 5, 10, 20, 40 and 60 seconds, the instant the screen went off is known exactly while the screen is
  off, and a pending screen-off deadline belongs to a screen that is off and does not precede that instant.\<close>

theorem loop_state_invariant:
  assumes "LoopState_new interval_secs start = Some st" and "loop_steps steps st = Some st'"
  shows "ls_retry_backoff_secs st' \<in> {5, 10, 20, 40, 60} \<and>
    (ls_screen_off_since st' = None \<longleftrightarrow> ls_screen_state st' \<noteq> Off) \<and>
    (case ls_screen_off_deadline st' of
       None \<Rightarrow> True
     | Some d \<Rightarrow> (\<exists>since. ls_screen_off_since st' = Some since \<and> since \<le> d))"
  using loop_steps_ok [OF LoopState_new_ok [OF assms(1)] assms(2)]
  by (auto simp: loop_ok_def backoff_values_def split: option.splits)

theorem loop_state_invariant_witness:
  "\<exists>st'. loop_steps [StepReduce (ReconcileScreen Off) 7 60 3600 False, StepPostponed 9 3600] (the (LoopState_new 3600 0)) = Some st' \<and>
     (ls_screen_off_since st' = None \<longleftrightarrow> ls_screen_state st' \<noteq> Off)"
proof -
  obtain st' where "loop_steps [StepReduce (ReconcileScreen Off) 7 60 3600 False, StepPostponed 9 3600]
      (the (LoopState_new 3600 0)) = Some st'"
    by (simp add: LoopState_new_def instant_add_def from_secs_def reduce_def reduce_screen_def Let_def
        on_maintenance_postponed_def reset_retry_backoff_def INITIAL_RETRY_BACKOFF_SECS_def MAX_RETRY_BACKOFF_SECS_def)
  moreover have "LoopState_new 3600 0 = Some (the (LoopState_new 3600 0))"
    by (simp add: LoopState_new_def instant_add_def from_secs_def)
  ultimately show ?thesis using loop_state_invariant by blast
qed

text \<open>After the timer has expired and the maintenance it asked for was started or postponed, no deadline lies in the past, so
  the loop sleeps until the next one instead of spinning; and a postponed request is retried after between 5 and 60
  seconds.\<close>

theorem timer_never_spins:
  assumes "0 < interval_secs" and "loop_ok st"
    and "handle_timer started now interval_secs st = Some st'"
  shows "now \<le> earliest_deadline st' \<and>
    (started \<or> now < earliest_deadline st') \<and>
    (case on_maintenance_postponed now interval_secs st of
       None \<Rightarrow> True
     | Some st'' \<Rightarrow> (\<exists>retry. ls_retry_deadline st'' = Some retry \<and> now + 5000000000 \<le> retry \<and> retry \<le> now + 60000000000))"
  using handle_timer_settles [OF assms] postponed_retry [OF assms(2)] by (auto split: option.split)

theorem timer_never_spins_witness:
  "\<exists>st'. handle_timer False 3600000000000 3600 (the (LoopState_new 3600 0)) = Some st' \<and> 3600000000000 < earliest_deadline st'"
proof -
  have new: "LoopState_new 3600 0 = Some (the (LoopState_new 3600 0))"
    by (simp add: LoopState_new_def instant_add_def from_secs_def)
  obtain st' where st': "handle_timer False 3600000000000 3600 (the (LoopState_new 3600 0)) = Some st'"
    by (simp add: LoopState_new_def instant_add_def from_secs_def handle_timer_def reduce_timer_def Let_def
        on_maintenance_postponed_def INITIAL_RETRY_BACKOFF_SECS_def)
  have "0 < (3600 :: u64)" by simp
  from timer_never_spins [OF this LoopState_new_ok [OF new] st'] st' show ?thesis by blast
qed

text \<open>The delays of consecutive postponements are exactly 5, 10, 20, 40 and then always 60 seconds: after n of them in a row the
  next delay is the n-th of that sequence.\<close>

theorem retry_delays_exact:
  assumes "ls_retry_backoff_secs st = 5" and "postpone_all requests st = Some st'"
    and "on_maintenance_postponed now interval_secs st' = Some st''"
  shows "ls_retry_deadline st'' = Some (now + (if length requests < 4 then 5 * 2 ^ length requests else 60) * 1000000000)"
proof -
  have "retry_delay 0 = 5" by (simp add: retry_delay_def)
  then have b: "ls_retry_backoff_secs st' = retry_delay (length requests)"
    using postpone_all_backoff [of st 0 requests st'] assms(1,2) by simp
  have "int (from_secs (retry_delay n)) = (if n < 4 then 5 * 2 ^ n else 60) * 1000000000" for n
  proof (cases "n < 4")
    case True
    then have "n \<in> {0, 1, 2, 3}" by auto
    then show ?thesis by (auto simp: retry_delay_def from_secs_def)
  qed (simp add: retry_delay_def from_secs_def)
  then show ?thesis
    using assms(3) by (auto simp: on_maintenance_postponed_def Let_def b instant_add_Some_iff split: option.splits if_splits)
qed

definition settled_state :: LoopState where
  "settled_state = \<lparr> ls_screen_state = Off, ls_screen_off_since = Some 0, ls_uevent_ok = True, ls_maintenance_deadline = 100,
     ls_screen_off_deadline = None, ls_retry_deadline = None, ls_retry_backoff_secs = 5 \<rparr>"

theorem retry_delays_exact_witness:
  "\<exists>st' st''. postpone_all [(1, 3600), (2, 3600)] settled_state = Some st' \<and>
     on_maintenance_postponed 3 3600 st' = Some st'' \<and> ls_retry_deadline st'' = Some (3 + 20000000000)"
proof -
  obtain st' st'' where s: "postpone_all [(1, 3600), (2, 3600)] settled_state = Some st'"
    "on_maintenance_postponed 3 3600 st' = Some st''"
    by (simp add: settled_state_def on_maintenance_postponed_def instant_add_def from_secs_def Let_def MAX_RETRY_BACKOFF_SECS_def)
  have "ls_retry_backoff_secs settled_state = 5" by (simp add: settled_state_def)
  from retry_delays_exact [OF this s] s show ?thesis by auto
qed

text \<open>C30.  The timer is armed for exactly the time that remains: with a reading of the monotonic clock whose nanoseconds are in
  range, the absolute time handed to the kernel is that reading plus the time to the deadline, at least one nanosecond, with
  its nanoseconds normalised; so it is never the zero that would disarm the timer.\<close>

theorem timer_armed_exactly:
  assumes "0 \<le> tv_nsec clk" "tv_nsec clk < 1000000000" "0 \<le> tv_sec clk"
    and "tv_sec clk + max 0 (deadline - now) div 1000000000 + 1 < 2 ^ 63"
  shows "nanos (instant_to_itimerspec clk deadline now) = nanos clk + max 1 (deadline - now) \<and>
    0 \<le> tv_nsec (instant_to_itimerspec clk deadline now) \<and> tv_nsec (instant_to_itimerspec clk deadline now) < 1000000000 \<and>
    instant_to_itimerspec clk deadline now \<noteq> \<lparr> tv_sec = 0, tv_nsec = 0 \<rparr>"
proof -
  note t = timer_nanos [OF assms]
  have "0 < nanos clk + max 1 (deadline - now)" using assms(1,3) by (simp add: nanos_def)
  then have "instant_to_itimerspec clk deadline now \<noteq> \<lparr> tv_sec = 0, tv_nsec = 0 \<rparr>"
    using t(1) by (metis nanos_def add_0 less_irrefl mult_zero_left timespec.select_convs)
  with t show ?thesis by blast
qed

theorem timer_armed_exactly_witness:
  "nanos (instant_to_itimerspec \<lparr> tv_sec = 4, tv_nsec = 999999999 \<rparr> 7000000005 2) = 4999999999 + 7000000003"
  using timer_armed_exactly [of "\<lparr> tv_sec = 4, tv_nsec = 999999999 \<rparr>" 7000000005 2] by (simp add: nanos_def)

end
