(* ===== verification/Proc_Metrics.thy ===== *)
theory Proc_Metrics
  imports Sysfs Clock
begin

text \<open>
  The memory and processor use of a process as \<open>system/proc_metrics.rs\<close> reads it from \<open>/proc\<close>.  Floats are exact
  rationals; the sums of \<open>u64\<close> wrap as in the release build.  The lemmas show that the processor time is read correctly
  whatever the process is called, although the name may contain blanks and parentheses, and that a sample is never
  negative.
\<close>

record ProcessMetrics =
  pr_cpu_usage_pct :: rat
  pr_vm_size_bytes :: u64
  pr_rss_bytes :: u64
  pr_pss_bytes :: u64

record CpuTracker =
  ct_last_ticks :: u64
  ct_last_sample :: Instant
  ct_clk_tck :: rat

definition proc_path :: "u32 option \<Rightarrow> string \<Rightarrow> string" where
  "proc_path pid file = ''/proc/'' @ (case pid of Some p \<Rightarrow> decimal (unat p) | None \<Rightarrow> ''self'') @ ''/'' @ file"

definition parse_kb_value :: "string \<Rightarrow> u64" where
  "parse_kb_value line =
    (case split_ascii_whitespace line of [] \<Rightarrow> 0 | v # _ \<Rightarrow> (case parse_word v of Some n \<Rightarrow> n | None \<Rightarrow> 0))"

definition status_line :: "string \<Rightarrow> u64 \<times> u64 \<Rightarrow> u64 \<times> u64" where
  "status_line line st =
    (case st of (vm_size, rss) \<Rightarrow>
     case strip_prefix line ''VmSize:'' of
       Some stripped \<Rightarrow> (parse_kb_value stripped * 1024, rss)
     | None \<Rightarrow>
         (case strip_prefix line ''VmRSS:'' of
            Some stripped \<Rightarrow> (vm_size, parse_kb_value stripped * 1024)
          | None \<Rightarrow> (vm_size, rss)))"

definition read_proc_status_memory :: "SysFs \<Rightarrow> u32 option \<Rightarrow> u64 \<times> u64" where
  "read_proc_status_memory S pid =
    (case read_file_to_buf S (proc_path pid ''status'') 2048 of
       Some content \<Rightarrow> fold status_line (lines content) (0, 0)
     | None \<Rightarrow> (0, 0))"

definition rollup_line :: "string \<Rightarrow> u64 \<times> u64 \<Rightarrow> u64 \<times> u64" where
  "rollup_line line st =
    (case st of (pss, rss) \<Rightarrow>
     case strip_prefix line ''Pss:'' of
       Some stripped \<Rightarrow> (parse_kb_value stripped * 1024, rss)
     | None \<Rightarrow>
         (case strip_prefix line ''Rss:'' of
            Some stripped \<Rightarrow> (let r = parse_kb_value stripped * 1024 in (pss, if 0 < r then r else rss))
          | None \<Rightarrow> (pss, rss)))"

text \<open>The proportional size, and the resident size as the caller's variable is left.\<close>

definition read_proc_smaps_rollup_pss :: "SysFs \<Rightarrow> u32 option \<Rightarrow> u64 \<Rightarrow> u64 \<times> u64" where
  "read_proc_smaps_rollup_pss S pid rss_out =
    (case read_file_to_buf S (proc_path pid ''smaps_rollup'') 2048 of
       Some content \<Rightarrow>
         (case fold rollup_line (lines content) (0, rss_out) of (pss, rss) \<Rightarrow> (if 0 < pss then pss else rss, rss))
     | None \<Rightarrow> (rss_out, rss_out))"

text \<open>What follows the last occurrence of a character.\<close>

definition after_last :: "char \<Rightarrow> string \<Rightarrow> string option" where
  "after_last c s = (if c \<in> set s then Some (rev (takeWhile (\<lambda>x. x \<noteq> c) (rev s))) else None)"

definition ticks_of :: "string \<Rightarrow> u64" where
  "ticks_of s = (case parse_word s of Some n \<Rightarrow> n | None \<Rightarrow> 0)"

definition read_cpu_ticks :: "SysFs \<Rightarrow> u32 option \<Rightarrow> u64" where
  "read_cpu_ticks S pid =
    (case read_file_to_buf S (proc_path pid ''stat'') 2048 of
       None \<Rightarrow> 0
     | Some content \<Rightarrow>
         (case after_last (CHR '')'') content of
            None \<Rightarrow> 0
          | Some rest \<Rightarrow>
              (case drop 11 (split_ascii_whitespace rest) of
                 u # s # _ \<Rightarrow> ticks_of u + ticks_of s
               | _ \<Rightarrow> 0)))"

text \<open>The ticks per second as \<open>sysconf\<close> gives them.\<close>

definition CpuTracker_new :: "SysFs \<Rightarrow> int \<Rightarrow> Instant \<Rightarrow> CpuTracker" where
  "CpuTracker_new S sysconf_clk_tck now =
    \<lparr> ct_last_ticks = read_cpu_ticks S None, ct_last_sample = now,
      ct_clk_tck = (if 0 < sysconf_clk_tck then of_int sysconf_clk_tck else 100) \<rparr>"

definition sample_cpu_pct :: "SysFs \<Rightarrow> Instant \<Rightarrow> Instant \<Rightarrow> CpuTracker \<Rightarrow> rat \<times> CpuTracker" where
  "sample_cpu_pct S now later t =
    (let current_ticks = read_cpu_ticks S None;
         elapsed = of_nat (saturating_duration_since now (ct_last_sample t)) / 1000000000 :: rat
     in if elapsed < 5 / 100 then (0, t)
        else (let delta_ticks = saturating_sub current_ticks (ct_last_ticks t);
                  cpu_pct = of_nat (unat delta_ticks) / ct_clk_tck t / elapsed * 100
              in (max cpu_pct 0, t\<lparr>ct_last_ticks := current_ticks, ct_last_sample := later\<rparr>)))"

text \<open>The tracker is a static variable, made at the first call.\<close>

definition get_process_metrics ::
  "SysFs \<Rightarrow> int \<Rightarrow> Instant \<Rightarrow> Instant \<Rightarrow> CpuTracker option \<Rightarrow> ProcessMetrics \<times> CpuTracker option" where
  "get_process_metrics S sysconf_clk_tck now later tracker =
    (let t = (case tracker of Some t \<Rightarrow> t | None \<Rightarrow> CpuTracker_new S sysconf_clk_tck now);
         (cpu_pct, t') = sample_cpu_pct S now later t;
         (vm_size, rss0) = read_proc_status_memory S None;
         (pss, rss) = read_proc_smaps_rollup_pss S None rss0
     in (\<lparr> pr_cpu_usage_pct = cpu_pct, pr_vm_size_bytes = vm_size, pr_rss_bytes = rss, pr_pss_bytes = pss \<rparr>, Some t'))"

definition get_process_metrics_for_pid :: "SysFs \<Rightarrow> u32 \<Rightarrow> ProcessMetrics" where
  "get_process_metrics_for_pid S pid =
    (let (vm_size, rss0) = read_proc_status_memory S (Some pid);
         (pss, rss) = read_proc_smaps_rollup_pss S (Some pid) rss0
     in \<lparr> pr_cpu_usage_pct = 0, pr_vm_size_bytes = vm_size, pr_rss_bytes = rss, pr_pss_bytes = pss \<rparr>)"

section \<open>The processor time is read correctly\<close>

text \<open>The line the kernel writes: the process id, the name in parentheses, and the numbered fields.\<close>

definition stat_text :: "string \<Rightarrow> string \<Rightarrow> string list \<Rightarrow> string" where
  "stat_text pid comm flds =
    pid @ '' ('' @ comm @ '')'' @ concat (map (\<lambda>f. CHR 0x20 # f) flds) @ [newline]"

definition stat_field :: "string \<Rightarrow> bool" where
  "stat_field f = (f \<noteq> [] \<and> list_all (\<lambda>c. \<not> is_ascii_whitespace c \<and> c \<noteq> CHR '')'') f)"

lemma split_on_fields:
  "list_all (\<lambda>f. c \<notin> set f) fs \<Longrightarrow> split_on c (concat (map (\<lambda>f. c # f) fs) @ [c]) = [] # fs @ [[]]"
proof (induction fs)
  case (Cons f fs)
  let ?rest = "concat (map (\<lambda>f. c # f) fs) @ [c]"
  obtain r where r: "?rest = c # r" by (cases fs) auto
  have "split_on c ?rest = [] # fs @ [[]]" using Cons by simp
  then have "split_on c r = fs @ [[]]" by (simp add: r)
  then have "split_on c (f @ c # r) = f # fs @ [[]]" using Cons.prems by simp
  then show ?case using r by simp
qed simp

lemma blank_white: "is_ascii_whitespace (CHR 0x20)" "is_ascii_whitespace newline"
  by (simp_all add: is_ascii_whitespace_def newline_def)

definition blank_out :: "char \<Rightarrow> char" where
  "blank_out c = (if is_ascii_whitespace c then CHR 0x20 else c)"

lemma blank_out_fields:
  assumes "list_all stat_field fs"
  shows "map blank_out (concat (map (\<lambda>f. CHR 0x20 # f) fs) @ [newline]) = concat (map (\<lambda>f. CHR 0x20 # f) fs) @ [CHR 0x20]"
proof -
  let ?s = "concat (map (\<lambda>f. CHR 0x20 # f) fs)"
  have "blank_out c = c" if mem: "c \<in> set ?s" for c
  proof -
    obtain f where f: "f \<in> set fs" "c \<in> set (CHR 0x20 # f)" using mem unfolding set_concat set_map by blast
    have "stat_field f" using assms f(1) by (simp only: list_all_iff)
    then have plain: "c \<in> set f \<Longrightarrow> \<not> is_ascii_whitespace c" unfolding stat_field_def list_all_iff by blast
    show ?thesis
    proof (cases "c = CHR 0x20")
      case False
      then have "c \<in> set f" using f(2) by (simp only: list.set insert_iff simp_thms)
      then show ?thesis unfolding blank_out_def using plain by (simp only: if_False)
    qed (simp only: blank_out_def if_cancel)
  qed
  then have "map blank_out ?s = ?s" by (rule map_idI)
  moreover have "blank_out newline = CHR 0x20" using blank_white(2) by (simp add: blank_out_def)
  ultimately show ?thesis by (simp only: map_append list.map)
qed

lemma split_stat_fields:
  assumes "list_all stat_field fs"
  shows "split_ascii_whitespace (concat (map (\<lambda>f. CHR 0x20 # f) fs) @ [newline]) = fs"
proof -
  have "list_all (\<lambda>f. CHR 0x20 \<notin> set f) fs"
    unfolding list_all_iff
  proof
    fix f
    assume "f \<in> set fs"
    then have "stat_field f" using assms by (simp only: list_all_iff)
    then show "CHR 0x20 \<notin> set f" using blank_white(1) unfolding stat_field_def list_all_iff by blast
  qed
  moreover have "filter (\<lambda>p. p \<noteq> []) fs = fs"
    using assms by (auto simp: list_all_iff stat_field_def filter_id_conv)
  ultimately show ?thesis
    unfolding split_ascii_whitespace_def blank_out_def [symmetric] blank_out_fields [OF assms] by (simp add: split_on_fields)
qed

lemma after_last_append: "c \<notin> set b \<Longrightarrow> after_last c (a @ c # b) = Some b"
  by (simp add: after_last_def takeWhile_append)

lemma read_cpu_ticks_exact:
  assumes "sy_content S (proc_path pid ''stat'') = Some (stat_text p comm flds)"
    and "length (stat_text p comm flds) \<le> 2048" and "is_utf8 (stat_text p comm flds)"
    and "list_all stat_field flds" and "12 < length flds"
    and "flds ! 11 = decimal (unat utime)" and "flds ! 12 = decimal (unat stime)"
  shows "read_cpu_ticks S pid = utime + stime"
proof -
  let ?tail = "concat (map (\<lambda>f. CHR 0x20 # f) flds) @ [newline]"
  have clean: "CHR '')'' \<notin> set ?tail"
    using assms(4) by (auto simp: list_all_iff stat_field_def newline_def)
  have "stat_text p comm flds = (p @ '' ('' @ comm) @ CHR '')'' # ?tail" by (simp add: stat_text_def)
  then have "after_last (CHR '')'') (stat_text p comm flds) = Some ?tail"
    using after_last_append [OF clean, of "p @ '' ('' @ comm"] by (simp only:)
  moreover have "drop 11 flds = decimal (unat utime) # decimal (unat stime) # drop 13 flds"
    using assms(5-7) Cons_nth_drop_Suc [of 11 flds] Cons_nth_drop_Suc [of 12 flds] by simp
  moreover have "read_file_to_buf S (proc_path pid ''stat'') 2048 = Some (stat_text p comm flds)"
    unfolding read_file_to_buf_def assms(1) option.case take_all [OF assms(2)] using assms(3) by (rule if_P)
  ultimately show ?thesis
    by (simp only: read_cpu_ticks_def option.case split_stat_fields [OF assms(4)] list.case ticks_of_def parse_word_decimal)
qed

text \<open>The processor time is read correctly whatever the process is called: from the line the kernel writes, with any name
  between the parentheses, also one with blanks, line ends and parentheses of its own, the ticks are the sum of the user
  and the system time.\<close>

theorem cpu_ticks_exact:
  assumes "sy_content S (proc_path pid ''stat'') = Some (stat_text p comm flds)"
    and "length (stat_text p comm flds) \<le> 2048" and "is_utf8 (stat_text p comm flds)"
    and "list_all stat_field flds" and "12 < length flds"
    and "flds ! 11 = decimal (unat utime)" and "flds ! 12 = decimal (unat stime)"
  shows "read_cpu_ticks S pid = utime + stime"
  using assms by (rule read_cpu_ticks_exact)

definition odd_fields :: "string list" where
  "odd_fields = [''S'', ''1'', ''1'', ''0'', ''-1'', ''4'', ''0'', ''0'', ''0'', ''0'', ''0'', ''7'', ''5'', ''0'']"

definition odd_process :: SysFs where
  "odd_process = \<lparr> sy_exists = (\<lambda>_. True), sy_is_dir = (\<lambda>_. False), sy_read_dir = (\<lambda>_. None),
     sy_content = (\<lambda>p. if p = ''/proc/self/stat'' then Some (stat_text ''9'' ''a) R (b'' odd_fields) else None),
     sy_command = (\<lambda>_. None), sy_libc_property = (\<lambda>_. None) \<rparr>"

lemma single_digits: "decimal 7 = ''7''" "decimal 5 = ''5''"
  by (subst decimal.simps, simp add: digit_char_def char_of_def bit_0)+

theorem cpu_ticks_exact_witness: "read_cpu_ticks odd_process None = 12"
proof -
  have "is_utf8 (stat_text ''9'' ''a) R (b'' odd_fields)" by code_simp
  moreover have "sy_content odd_process (proc_path None ''stat'') = Some (stat_text ''9'' ''a) R (b'' odd_fields)"
    by (simp add: odd_process_def proc_path_def)
  moreover have "length (stat_text ''9'' ''a) R (b'' odd_fields) \<le> 2048"
    by (simp add: stat_text_def odd_fields_def)
  moreover have "list_all stat_field odd_fields"
    by (simp add: odd_fields_def stat_field_def is_ascii_whitespace_def)
  moreover have "odd_fields ! 11 = decimal (unat (7 :: u64))" "odd_fields ! 12 = decimal (unat (5 :: u64))"
    "12 < length odd_fields"
    by (simp_all add: odd_fields_def single_digits)
  ultimately have "read_cpu_ticks odd_process None = 7 + 5" by (intro cpu_ticks_exact)
  then show ?thesis by simp
qed

text \<open>A sample is never negative, and two samples less than 50 milliseconds apart read as zero and leave the tracker
  unchanged.\<close>

lemma sample_cpu_pct_bounds:
  "0 \<le> fst (sample_cpu_pct S now later t) \<and>
   (saturating_duration_since now (ct_last_sample t) < 50000000 \<longrightarrow> sample_cpu_pct S now later t = (0, t))"
proof -
  have "(of_nat d :: rat) / 1000000000 < 5 / 100" if "d < 50000000" for d :: nat
  proof -
    have "(of_nat d :: rat) < of_nat 50000000" using that by (simp only: of_nat_less_iff)
    then show ?thesis by simp
  qed
  then show ?thesis by (simp add: sample_cpu_pct_def Let_def)
qed

end
