(* ===== verification/Daemon.thy ===== *)
theory Daemon
  imports Pipeline Idle Psi Proc_Metrics
begin

text \<open>
  The daemon's shared context (\<open>system/daemon_state.rs\<close>), the responses of \<open>ipc/protocol.rs\<close> and the engine facade of
  \<open>engine/mod.rs\<close>: the runtime state behind its lock, the trigger conditions, the maintenance worker, the handler of every
  command with the threads it starts, configuration reload and shutdown.  The cleaning threads that are alive are a
  component of the context, so that starting one and its end are steps of the model.  A panic of the pipeline ends the
  process (\<open>panic = abort\<close>).  The lemmas show that at most one cleaning runs at a time through every interleaving of the
  threads, the life of a manual job as the client sees it, that the daemon and the pipeline agree on a valid configuration,
  and the races that the code leaves open.
\<close>

section \<open>The engine facade\<close>

record CleanEngine =
  eng_pipeline :: Pipeline

definition CleanEngine_new ::
  "('h, 'w) Kernel \<Rightarrow> 'w FsView \<Rightarrow> RecoveryClock \<Rightarrow> ResourceManager \<Rightarrow> DaemonConfig \<Rightarrow> SqliteStore \<Rightarrow> ('h, 'w) Proc
    \<Rightarrow> (CleanEngine, Failure) result \<times> ('h, 'w) Proc" where
  "CleanEngine_new K V clk rm c s p =
    (case Pipeline_new K V clk rm c s p of
       (Inr pl, p1) \<Rightarrow> (Inr \<lparr> eng_pipeline = pl \<rparr>, p1)
     | (Inl (Err e), p1) \<Rightarrow> (Inl (Panic ''Failed to initialize AuthoritativeCleanPipeline''), p1)
     | (Inl (Panic m), p1) \<Rightarrow> (Inl (Panic m), p1))"

definition CleanEngine_execute ::
  "('h, 'w) Kernel \<Rightarrow> 'w FsView \<Rightarrow> PipelineEnv \<Rightarrow> CleanParams \<Rightarrow> CleanEngine \<Rightarrow> ('h, 'w) Proc
    \<Rightarrow> (CleanReport, Failure) result \<times> CleanEngine \<times> ('h, 'w) Proc" where
  "CleanEngine_execute K V env params eng p =
    (case execute K V env params (eng_pipeline eng) p of (r, pl, p1) \<Rightarrow> (r, eng\<lparr>eng_pipeline := pl\<rparr>, p1))"

definition CleanEngine_update_config :: "DaemonConfig \<Rightarrow> CleanEngine \<Rightarrow> CleanEngine" where
  "CleanEngine_update_config c eng = eng\<lparr>eng_pipeline := update_config c (eng_pipeline eng)\<rparr>"

section \<open>Responses\<close>

record DaemonStatus =
  ds_state :: string
  ds_uptime_secs :: u64
  ds_last_cleaned_ts :: "u64 option"
  ds_last_freed_bytes :: u64
  ds_total_freed_bytes :: u64
  ds_is_charging :: bool
  ds_screen_state :: string
  ds_soc_temp_c :: f32
  ds_battery_temp_c :: f32
  ds_cpu_usage_pct :: rat
  ds_ram_vm_size_bytes :: u64
  ds_ram_rss_bytes :: u64
  ds_ram_pss_bytes :: u64
  ds_idle_state :: string
  ds_idle_score :: u8
  ds_blockers :: "string list"

datatype ResponseData =
  Pong string u64
| JobAccepted u64 string
| JobStatus u64 string u64 bool "CleanReport option"
| StatusData DaemonStatus
| ReportData CleanReport
| IdleData IdleAssessment
| MessageData string

datatype Response = Success ResponseData | ErrorResponse string

section \<open>State\<close>

record JobRecord =
  rec_job_id :: u64
  rec_state :: string
  rec_reclaimed_bytes :: u64
  rec_is_completed :: bool
  rec_report :: "CleanReport option"

datatype DaemonState =
  Starting
| DaemonIdle
| EvaluatingTriggers
| CleaningScheduled
| CleaningManual
| PressureReclaiming string
| Preempted string
| ShuttingDown

primrec DaemonState_display :: "DaemonState \<Rightarrow> string" where
  "DaemonState_display Starting = ''Starting up''"
| "DaemonState_display DaemonIdle = ''Idle / Sleeping''"
| "DaemonState_display EvaluatingTriggers = ''Evaluating Triggers''"
| "DaemonState_display CleaningScheduled = ''Cleaning in progress (Scheduled)''"
| "DaemonState_display CleaningManual = ''Cleaning in progress (Manual Trigger)''"
| "DaemonState_display (PressureReclaiming lvl) = ''Memory Reclaim in progress ('' @ lvl @ '')''"
| "DaemonState_display (Preempted reason) = ''Preempted ('' @ reason @ '')''"
| "DaemonState_display ShuttingDown = ''Shutting down''"

record DaemonRuntimeState =
  rt_state :: DaemonState
  rt_last_cleaned_ts :: "u64 option"
  rt_last_freed_bytes :: u64
  rt_total_freed_bytes :: u64
  rt_is_cleaning :: bool
  rt_shutdown_requested :: bool
  rt_screen_off_since :: "Instant option"
  rt_thermal_state :: ThermalHysteresisState

definition DaemonRuntimeState_default :: DaemonRuntimeState where
  "DaemonRuntimeState_default = \<lparr> rt_state = DaemonIdle, rt_last_cleaned_ts = None, rt_last_freed_bytes = 0,
     rt_total_freed_bytes = 0, rt_is_cleaning = False, rt_shutdown_requested = False, rt_screen_off_since = None,
     rt_thermal_state = ThermNormal \<rparr>"

text \<open>A cleaning thread, from its start until it has recorded its result.\<close>

datatype Worker = ScheduledWorker CleanParams | ManualWorker u64 CleanParams

record DaemonContext =
  dx_active_config_path :: "string option"
  dx_config :: DaemonConfig
  dx_engine :: CleanEngine
  dx_cancel_token :: CancellationToken
  dx_runtime :: DaemonRuntimeState
  dx_recent_jobs :: "u64 \<rightharpoonup> JobRecord"
  dx_next_job_id :: u64
  dx_start_time :: Instant
  dx_cpu_tracker :: "CpuTracker option"
  dx_workers :: "Worker list"

definition DaemonContext_new :: "DaemonConfig \<Rightarrow> string option \<Rightarrow> CleanEngine \<Rightarrow> Instant \<Rightarrow> DaemonContext" where
  "DaemonContext_new c active_config_path engine now =
    \<lparr> dx_active_config_path = active_config_path, dx_config = c, dx_engine = engine,
      dx_cancel_token = CancellationToken_new, dx_runtime = DaemonRuntimeState_default, dx_recent_jobs = Map.empty,
      dx_next_job_id = 1, dx_start_time = now, dx_cpu_tracker = None, dx_workers = [] \<rparr>"

definition on_runtime :: "(DaemonRuntimeState \<Rightarrow> DaemonRuntimeState) \<Rightarrow> DaemonContext \<Rightarrow> DaemonContext" where
  "on_runtime f ctx = ctx\<lparr>dx_runtime := f (dx_runtime ctx)\<rparr>"

definition get_state :: "DaemonContext \<Rightarrow> DaemonState" where
  "get_state ctx = rt_state (dx_runtime ctx)"

definition set_state :: "DaemonState \<Rightarrow> DaemonContext \<Rightarrow> DaemonContext" where
  "set_state s = on_runtime (\<lambda>rt. rt\<lparr>rt_state := s\<rparr>)"

definition set_screen_off_since :: "Instant option \<Rightarrow> DaemonContext \<Rightarrow> DaemonContext" where
  "set_screen_off_since since = on_runtime (\<lambda>rt. rt\<lparr>rt_screen_off_since := since\<rparr>)"

definition set_thermal_state :: "ThermalHysteresisState \<Rightarrow> DaemonContext \<Rightarrow> DaemonContext" where
  "set_thermal_state s = on_runtime (\<lambda>rt. rt\<lparr>rt_thermal_state := s\<rparr>)"

definition screen_off_duration :: "Instant \<Rightarrow> DaemonContext \<Rightarrow> Duration option" where
  "screen_off_duration now ctx = map_option (saturating_duration_since now) (rt_screen_off_since (dx_runtime ctx))"

definition compute_thermal_state :: "f32 \<Rightarrow> DaemonContext \<Rightarrow> ThermalHysteresisState \<times> DaemonContext" where
  "compute_thermal_state soc_temp_c ctx =
    (let prev = rt_thermal_state (dx_runtime ctx);
         nxt = (if f32_lt (Fin 0) soc_temp_c then next_state prev soc_temp_c else prev)
     in (nxt, set_thermal_state nxt ctx))"

definition is_shutdown_requested :: "DaemonContext \<Rightarrow> bool" where
  "is_shutdown_requested ctx = rt_shutdown_requested (dx_runtime ctx)"

definition is_cleaning :: "DaemonContext \<Rightarrow> bool" where
  "is_cleaning ctx = rt_is_cleaning (dx_runtime ctx)"

definition on_token :: "(CancellationToken \<Rightarrow> CancellationToken) \<Rightarrow> DaemonContext \<Rightarrow> DaemonContext" where
  "on_token f ctx = ctx\<lparr>dx_cancel_token := f (dx_cancel_token ctx)\<rparr>"

definition trigger_shutdown :: "DaemonContext \<Rightarrow> DaemonContext" where
  "trigger_shutdown ctx =
    on_token cancel (on_runtime (\<lambda>rt. rt\<lparr>rt_shutdown_requested := True, rt_state := ShuttingDown\<rparr>) ctx)"

section \<open>Reload\<close>

definition reload_config ::
  "(string \<Rightarrow> (DaemonConfig, CleanerError) result) \<Rightarrow> (string \<Rightarrow> bool) \<Rightarrow> (CleanerError \<Rightarrow> string) \<Rightarrow> DaemonContext
    \<Rightarrow> (string, string) result \<times> DaemonContext" where
  "reload_config parse_file path_exists error_text ctx =
    (let path_to_reload = dx_active_config_path ctx in
     case reload_from_path parse_file path_exists path_to_reload of
       Inr new_cfg \<Rightarrow>
         (Inr (''Configuration reloaded successfully'' @
               (case path_to_reload of Some p \<Rightarrow> '' from '' @ p | None \<Rightarrow> [])),
          ctx\<lparr>dx_engine := CleanEngine_update_config new_cfg (dx_engine ctx), dx_config := new_cfg\<rparr>)
     | Inl e \<Rightarrow> (Inl (''Failed to reload configuration: '' @ error_text e @ ''. Keeping current config.''), ctx))"

section \<open>Triggers\<close>

text \<open>The readings of the clock, of the charger and of the temperatures, in the order they are taken.\<close>

definition evaluate_triggers :: "Instant \<Rightarrow> SysFs \<Rightarrow> SysFs \<Rightarrow> Instant option \<Rightarrow> DaemonContext \<Rightarrow> bool" where
  "evaluate_triggers now charger_fs thermal_fs screen_off_since ctx =
    (let cfg = dx_config ctx;
         screen_ok = (\<not> dc_require_screen_off cfg \<or>
           (case screen_off_since of
              Some since \<Rightarrow> \<not> saturating_duration_since now since < from_secs (dc_min_screen_off_secs cfg)
            | None \<Rightarrow> False));
         charger = get_charger_state charger_fs;
         charger_ok = (\<not> dc_require_charging_for_deep_clean cfg \<or> charger = Charging \<or> charger = Full);
         thermal = read_thermal thermal_fs;
         too_hot = (f32_lt (dc_max_soc_temp_c cfg) (tr_max_soc_temp_c thermal) \<or>
                    f32_lt (dc_max_battery_temp_c cfg) (tr_battery_temp_c thermal))
     in screen_ok \<and> charger_ok \<and> \<not> too_hot)"

section \<open>Cleaning threads\<close>

definition maintenance_params :: "DaemonConfig \<Rightarrow> CleanParams" where
  "maintenance_params cfg = \<lparr> cp_deep = True, cp_trim = op_fstrim_partitions (dc_optimization cfg),
     cp_zram_compact = op_zram_compaction (dc_optimization cfg), cp_dry_run = False \<rparr>"

text \<open>The section under the write lock: nothing happens when a shutdown is requested or a cleaning runs.\<close>

definition enter_scheduled :: "DaemonContext \<Rightarrow> DaemonContext option" where
  "enter_scheduled ctx =
    (if is_shutdown_requested ctx \<or> is_cleaning ctx then None
     else Some (on_runtime (\<lambda>rt. rt\<lparr>rt_is_cleaning := True, rt_state := CleaningScheduled\<rparr>) ctx))"

definition start_thread :: "bool \<Rightarrow> Worker \<Rightarrow> DaemonContext \<Rightarrow> DaemonContext" where
  "start_thread spawned w ctx = (if spawned then ctx\<lparr>dx_workers := dx_workers ctx @ [w]\<rparr> else ctx)"

definition spawn_maintenance_worker :: "bool \<Rightarrow> DaemonContext \<Rightarrow> DaemonContext" where
  "spawn_maintenance_worker spawned ctx =
    (case enter_scheduled ctx of
       None \<Rightarrow> ctx
     | Some ctx1 \<Rightarrow> start_thread spawned (ScheduledWorker (maintenance_params (dx_config ctx))) (on_token reset ctx1))"

definition record_success :: "u64 \<Rightarrow> CleanReport \<Rightarrow> DaemonRuntimeState \<Rightarrow> DaemonRuntimeState" where
  "record_success now_ts report rt = rt\<lparr>rt_last_cleaned_ts := Some now_ts,
     rt_last_freed_bytes := sr_total_freed_bytes (cr_storage report),
     rt_total_freed_bytes := rt_total_freed_bytes rt + sr_total_freed_bytes (cr_storage report),
     rt_state := DaemonIdle, rt_is_cleaning := False\<rparr>"

definition record_failure :: "DaemonRuntimeState \<Rightarrow> DaemonRuntimeState" where
  "record_failure rt = rt\<lparr>rt_state := DaemonIdle, rt_is_cleaning := False\<rparr>"

definition finish_runtime :: "u64 \<Rightarrow> (CleanReport, CleanerError) result \<Rightarrow> DaemonContext \<Rightarrow> DaemonContext" where
  "finish_runtime now_ts report_res = on_runtime
    (case report_res of Inr report \<Rightarrow> record_success now_ts report | Inl e \<Rightarrow> record_failure)"

definition finish_job ::
  "(CleanerError \<Rightarrow> string) \<Rightarrow> u64 \<Rightarrow> (CleanReport, CleanerError) result \<Rightarrow> DaemonContext \<Rightarrow> DaemonContext" where
  "finish_job error_text job_id report_res ctx =
    (case dx_recent_jobs ctx job_id of
       None \<Rightarrow> ctx
     | Some rec \<Rightarrow>
         ctx\<lparr>dx_recent_jobs := (dx_recent_jobs ctx)(job_id \<mapsto>
           (case report_res of
              Inr report \<Rightarrow> rec\<lparr>rec_state := ''COMPLETED'', rec_reclaimed_bytes := sr_total_freed_bytes (cr_storage report),
                rec_is_completed := True, rec_report := Some report\<rparr>
            | Inl e \<Rightarrow> rec\<lparr>rec_state := ''FAILED: '' @ error_text e, rec_is_completed := True, rec_report := None\<rparr>))\<rparr>)"

primrec worker_params :: "Worker \<Rightarrow> CleanParams" where
  "worker_params (ScheduledWorker params) = params"
| "worker_params (ManualWorker job_id params) = params"

primrec worker_record ::
  "(CleanerError \<Rightarrow> string) \<Rightarrow> u64 \<Rightarrow> Worker \<Rightarrow> (CleanReport, CleanerError) result \<Rightarrow> DaemonContext \<Rightarrow> DaemonContext" where
  "worker_record error_text now_ts (ScheduledWorker params) r ctx = finish_runtime now_ts r ctx"
| "worker_record error_text now_ts (ManualWorker job_id params) r ctx =
    finish_job error_text job_id r (finish_runtime now_ts r ctx)"

text \<open>The body of a cleaning thread: the pipeline runs under the engine's lock and its result is recorded.  \<^const>\<open>None\<close> is the
  end of the process by a panic.\<close>

definition run_worker ::
  "('h, 'w) Kernel \<Rightarrow> 'w FsView \<Rightarrow> PipelineEnv \<Rightarrow> u64 \<Rightarrow> Worker \<Rightarrow> DaemonContext \<Rightarrow> ('h, 'w) Proc
    \<Rightarrow> DaemonContext option \<times> ('h, 'w) Proc" where
  "run_worker K V env now_ts w ctx p =
    (case CleanEngine_execute K V env (worker_params w) (dx_engine ctx) p of (r, eng, p1) \<Rightarrow>
     let ctx1 = ctx\<lparr>dx_engine := eng, dx_workers := remove1 w (dx_workers ctx)\<rparr> in
     (case r of
        Inr report \<Rightarrow> Some (worker_record (ev_error_text env) now_ts w (Inr report) ctx1)
      | Inl (Err e) \<Rightarrow> Some (worker_record (ev_error_text env) now_ts w (Inl e) ctx1)
      | Inl (Panic m) \<Rightarrow> None, p1))"

section \<open>Commands\<close>

text \<open>What a command reads from outside, each reading on its own: the version compiled in, the states of the pseudo file
  systems and the readings of the clock in the order they are taken, the clock ticks per second, the configuration files,
  the text of an error, and whether a thread can be started.\<close>

record CmdEnv =
  ce_version :: string
  ce_sysfs :: "nat \<Rightarrow> SysFs"
  ce_clock :: "nat \<Rightarrow> Instant"
  ce_clk_tck :: int
  ce_parse_file :: "string \<Rightarrow> (DaemonConfig, CleanerError) result"
  ce_path_exists :: "string \<Rightarrow> bool"
  ce_error_text :: "CleanerError \<Rightarrow> string"
  ce_spawned :: bool

definition uptime_secs :: "Instant \<Rightarrow> DaemonContext \<Rightarrow> u64" where
  "uptime_secs now ctx = of_nat (as_secs (saturating_duration_since now (dx_start_time ctx)))"

definition psi_reading :: "PsiMetrics option \<Rightarrow> f32 SensorReading" where
  "psi_reading m = (case m of Some p \<Rightarrow> sensor_available (pm_avg10 (psi_some p)) | None \<Rightarrow> sensor_unsupported)"

definition is_charging_state :: "ChargerState \<Rightarrow> bool" where
  "is_charging_state c = (c = Charging \<or> c = Full)"

definition thermal_reading :: "ThermalReport \<Rightarrow> f32 SensorReading" where
  "thermal_reading t = (if f32_lt (Fin 0) (tr_max_soc_temp_c t) then sensor_available (tr_max_soc_temp_c t) else sensor_unavailable)"

primrec screen_name :: "ScreenState \<Rightarrow> string" where
  "screen_name On = ''On''"
| "screen_name Off = ''Off''"
| "screen_name ScreenUnknown = ''Unknown''"

definition handle_status :: "CmdEnv \<Rightarrow> DaemonContext \<Rightarrow> Response \<times> DaemonContext" where
  "handle_status e ctx =
    (let thermal = read_thermal (ce_sysfs e 0);
         charging = is_charging_state (get_charger_state (ce_sysfs e 1));
         screen_str = screen_name (get_screen_state (ce_sysfs e 2));
         (metrics, tracker) = get_process_metrics (ce_sysfs e 3) (ce_clk_tck e) (ce_clock e 0) (ce_clock e 1) (dx_cpu_tracker ctx);
         cpu_psi = psi_reading (read_cpu_pressure (ce_sysfs e 4));
         io_psi = psi_reading (read_io_pressure (ce_sysfs e 5));
         mem_psi = psi_reading (read_memory_pressure (ce_sysfs e 6));
         battery_pct = unwrap_or (get_battery_percent (ce_sysfs e 7)) 50;
         is_screen_on = (get_screen_state (ce_sysfs e 8) = On);
         (thermal_state, ctx1) = compute_thermal_state (tr_max_soc_temp_c thermal) (ctx\<lparr>dx_cpu_tracker := tracker\<rparr>);
         off_duration = screen_off_duration (ce_clock e 2) ctx1;
         rt = dx_runtime ctx1;
         ictx = \<lparr> ic_screen = get_screen_state (ce_sysfs e 9), ic_screen_off_duration = off_duration, ic_charging = charging,
           ic_battery_percent = battery_pct, ic_cpu_psi_pct = cpu_psi, ic_io_psi_pct = io_psi, ic_mem_psi_pct = mem_psi,
           ic_thermal_celsius = thermal_reading thermal, ic_thermal_source = Some ''soc'', ic_stationary = (\<not> is_screen_on),
           ic_user_active = is_screen_on \<rparr>;
         assessment = evaluate ictx Active thermal_state (from_secs 300)
     in (Success (StatusData
           \<lparr> ds_state = DaemonState_display (rt_state rt), ds_uptime_secs = uptime_secs (ce_clock e 3) ctx,
             ds_last_cleaned_ts = rt_last_cleaned_ts rt, ds_last_freed_bytes = rt_last_freed_bytes rt,
             ds_total_freed_bytes = rt_total_freed_bytes rt, ds_is_charging = charging, ds_screen_state = screen_str,
             ds_soc_temp_c = tr_max_soc_temp_c thermal, ds_battery_temp_c = tr_battery_temp_c thermal,
             ds_cpu_usage_pct = pr_cpu_usage_pct metrics, ds_ram_vm_size_bytes = pr_vm_size_bytes metrics,
             ds_ram_rss_bytes = pr_rss_bytes metrics, ds_ram_pss_bytes = pr_pss_bytes metrics,
             ds_idle_state = IdleState_as_str (ia_state assessment), ds_idle_score = ia_score assessment,
             ds_blockers = map IdleBlocker_description (ia_blockers assessment) \<rparr>), ctx1))"

definition handle_idle_assessment :: "CmdEnv \<Rightarrow> DaemonContext \<Rightarrow> Response \<times> DaemonContext" where
  "handle_idle_assessment e ctx =
    (let screen = get_screen_state (ce_sysfs e 0);
         charging = is_charging_state (get_charger_state (ce_sysfs e 1));
         thermal = read_thermal (ce_sysfs e 2);
         cpu_psi = psi_reading (read_cpu_pressure (ce_sysfs e 3));
         io_psi = psi_reading (read_io_pressure (ce_sysfs e 4));
         mem_psi = psi_reading (read_memory_pressure (ce_sysfs e 5));
         battery_pct = unwrap_or (get_battery_percent (ce_sysfs e 6)) 50;
         is_screen_on = (screen = On);
         (thermal_state, ctx1) = compute_thermal_state (tr_max_soc_temp_c thermal) ctx;
         ictx = \<lparr> ic_screen = screen, ic_screen_off_duration = screen_off_duration (ce_clock e 0) ctx1, ic_charging = charging,
           ic_battery_percent = battery_pct, ic_cpu_psi_pct = cpu_psi, ic_io_psi_pct = io_psi, ic_mem_psi_pct = mem_psi,
           ic_thermal_celsius = thermal_reading thermal, ic_thermal_source = Some ''soc'', ic_stationary = (\<not> is_screen_on),
           ic_user_active = is_screen_on \<rparr>
     in (Success (IdleData (evaluate ictx Active thermal_state (from_secs 300))), ctx1))"

text \<open>The section of \<open>TriggerClean\<close> under the write lock.\<close>

definition enter_manual :: "DaemonContext \<Rightarrow> DaemonContext option" where
  "enter_manual ctx =
    (if is_cleaning ctx then None
     else Some (on_runtime (\<lambda>rt. rt\<lparr>rt_is_cleaning := True, rt_state := CleaningManual\<rparr>) ctx))"

definition register_clean_job :: "DaemonContext \<Rightarrow> u64 \<times> DaemonContext" where
  "register_clean_job ctx =
    (let job_id = dx_next_job_id ctx in
     (job_id, ctx\<lparr>dx_next_job_id := dx_next_job_id ctx + 1,
        dx_recent_jobs := (dx_recent_jobs ctx)(job_id \<mapsto>
          \<lparr> rec_job_id = job_id, rec_state = ''RUNNING'', rec_reclaimed_bytes = 0, rec_is_completed = False, rec_report = None \<rparr>)\<rparr>))"

definition handle_trigger_clean :: "bool \<Rightarrow> CleanParams \<Rightarrow> DaemonContext \<Rightarrow> Response \<times> DaemonContext" where
  "handle_trigger_clean spawned params ctx =
    (case enter_manual ctx of
       None \<Rightarrow> (ErrorResponse ''Cleaning operation is already in progress'', ctx)
     | Some ctx1 \<Rightarrow>
         (case register_clean_job (on_token reset ctx1) of (job_id, ctx2) \<Rightarrow>
            (Success (JobAccepted job_id (''Manual clean job #'' @ decimal (unat job_id) @ '' accepted and executing in background'')),
             start_thread spawned (ManualWorker job_id params) ctx2)))"

definition handle_job_status :: "u64 \<Rightarrow> DaemonContext \<Rightarrow> Response" where
  "handle_job_status job_id ctx =
    (case dx_recent_jobs ctx job_id of
       Some rec \<Rightarrow> Success (JobStatus job_id (rec_state rec) (rec_reclaimed_bytes rec) (rec_is_completed rec) (rec_report rec))
     | None \<Rightarrow> ErrorResponse (''Job #'' @ decimal (unat job_id) @ '' not found''))"

definition handle_stats :: "CmdEnv \<Rightarrow> DaemonContext \<Rightarrow> Response \<times> DaemonContext" where
  "handle_stats e ctx =
    (let (metrics, tracker) = get_process_metrics (ce_sysfs e 0) (ce_clk_tck e) (ce_clock e 0) (ce_clock e 1) (dx_cpu_tracker ctx);
         rt = dx_runtime ctx
     in (Success (StatusData
           \<lparr> ds_state = DaemonState_display (rt_state rt), ds_uptime_secs = uptime_secs (ce_clock e 2) ctx,
             ds_last_cleaned_ts = rt_last_cleaned_ts rt, ds_last_freed_bytes = rt_last_freed_bytes rt,
             ds_total_freed_bytes = rt_total_freed_bytes rt, ds_is_charging = False, ds_screen_state = ''N/A'',
             ds_soc_temp_c = Fin 0, ds_battery_temp_c = Fin 0, ds_cpu_usage_pct = pr_cpu_usage_pct metrics,
             ds_ram_vm_size_bytes = pr_vm_size_bytes metrics, ds_ram_rss_bytes = pr_rss_bytes metrics,
             ds_ram_pss_bytes = pr_pss_bytes metrics, ds_idle_state = ''N/A'', ds_idle_score = 0, ds_blockers = [] \<rparr>),
         ctx\<lparr>dx_cpu_tracker := tracker\<rparr>))"

definition handle_command :: "CmdEnv \<Rightarrow> Command \<Rightarrow> DaemonContext \<Rightarrow> Response \<times> DaemonContext" where
  "handle_command e cmd ctx =
    (if is_shutdown_requested ctx then (ErrorResponse ''Daemon is currently shutting down'', ctx)
     else case cmd of
       Ping \<Rightarrow> (Success (Pong (ce_version e) (uptime_secs (ce_clock e 0) ctx)), ctx)
     | GetStatus \<Rightarrow> handle_status e ctx
     | GetIdleAssessment \<Rightarrow> handle_idle_assessment e ctx
     | TriggerClean params \<Rightarrow> handle_trigger_clean (ce_spawned e) params ctx
     | GetJobStatus job_id \<Rightarrow> (handle_job_status job_id ctx, ctx)
     | GetStats \<Rightarrow> handle_stats e ctx
     | CancelCommand \<Rightarrow>
         (Success (MessageData ''Clean operation cancelled''), set_state (Preempted ''Cancelled by user'') (on_token cancel ctx))
     | ReloadConfig \<Rightarrow>
         (case reload_config (ce_parse_file e) (ce_path_exists e) (ce_error_text e) ctx of
            (Inr msg, ctx1) \<Rightarrow> (Success (MessageData msg), ctx1)
          | (Inl err, ctx1) \<Rightarrow> (ErrorResponse err, ctx1))
     | StopDaemon \<Rightarrow> (Success (MessageData ''Daemon stopping gracefully''), trigger_shutdown ctx))"

section \<open>Shutdown\<close>

text \<open>The wait for the cleaning thread: the observations of the flag and of the elapsed time, one per round of 50
  milliseconds.  It ends when the flag is clear or two seconds have passed.\<close>

fun shutdown_wait :: "(bool \<times> Duration) list \<Rightarrow> nat" where
  "shutdown_wait [] = 0"
| "shutdown_wait ((cleaning, elapsed) # rest) = (if cleaning \<and> elapsed < from_secs 2 then Suc (shutdown_wait rest) else 0)"

text \<open>The file removed at the end, if any.\<close>

definition perform_shutdown_cleanup :: "DaemonContext \<Rightarrow> string option \<times> DaemonContext" where
  "perform_shutdown_cleanup ctx =
    (let ctx1 = trigger_shutdown ctx; sock_path = dc_socket_path (dx_config ctx1)
     in (if sock_path \<noteq> [] then Some sock_path else None, ctx1))"

section \<open>What the operations keep\<close>

named_theorems ctx_defs

lemmas [ctx_defs] = on_runtime_def on_token_def set_state_def set_screen_off_since_def set_thermal_state_def
  is_cleaning_def is_shutdown_requested_def trigger_shutdown_def compute_thermal_state_def enter_scheduled_def
  enter_manual_def start_thread_def register_clean_job_def record_success_def record_failure_def finish_runtime_def

lemma finish_job_frame [simp]:
  "dx_config (finish_job et j r ctx) = dx_config ctx" "dx_engine (finish_job et j r ctx) = dx_engine ctx"
  "dx_runtime (finish_job et j r ctx) = dx_runtime ctx" "dx_workers (finish_job et j r ctx) = dx_workers ctx"
  "dx_cancel_token (finish_job et j r ctx) = dx_cancel_token ctx"
  "dx_next_job_id (finish_job et j r ctx) = dx_next_job_id ctx"
  by (simp_all add: finish_job_def split: option.split)

lemma worker_record_frame [simp]:
  "dx_config (worker_record et now w r ctx) = dx_config ctx" "dx_engine (worker_record et now w r ctx) = dx_engine ctx"
  "dx_workers (worker_record et now w r ctx) = dx_workers ctx"
  "\<not> is_cleaning (worker_record et now w r ctx)"
  by (cases w; simp add: ctx_defs split: sum.split)+

lemma handle_status_frame:
  "\<exists>tracker thermal. snd (handle_status e ctx) = set_thermal_state thermal (ctx\<lparr>dx_cpu_tracker := tracker\<rparr>)"
  by (auto simp: handle_status_def compute_thermal_state_def Let_def split: prod.split)

lemma handle_idle_frame: "\<exists>thermal. snd (handle_idle_assessment e ctx) = set_thermal_state thermal ctx"
  by (auto simp: handle_idle_assessment_def compute_thermal_state_def Let_def)

lemma handle_stats_frame: "\<exists>tracker. snd (handle_stats e ctx) = ctx\<lparr>dx_cpu_tracker := tracker\<rparr>"
  by (auto simp: handle_stats_def Let_def split: prod.split)

section \<open>The configuration the daemon and the pipeline use\<close>

definition config_agrees :: "DaemonContext \<Rightarrow> bool" where
  "config_agrees ctx \<longleftrightarrow> pl_config (eng_pipeline (dx_engine ctx)) = dx_config ctx \<and> validate (dx_config ctx) = Inr ()"

lemma reload_from_path_valid: "reload_from_path parse_file path_exists path = Inr c \<Longrightarrow> validate c = Inr ()"
  by (auto simp: reload_from_path_def load_or_default_with_path_def Let_def try_existing_valid default_valid
      dest: load_strict_valid split: option.splits if_splits)

lemma reload_config_agrees:
  "config_agrees ctx \<Longrightarrow> config_agrees (snd (reload_config parse_file path_exists error_text ctx))"
  by (auto simp: reload_config_def Let_def config_agrees_def CleanEngine_update_config_def update_config_def
      dest: reload_from_path_valid split: sum.split option.split)

lemma handle_command_agrees:
  assumes "config_agrees ctx"
  shows "config_agrees (snd (handle_command e cmd ctx))"
proof (cases "is_shutdown_requested ctx")
  case True
  then show ?thesis using assms by (simp add: handle_command_def)
next
  case False
  note h = handle_command_def
  show ?thesis
  proof (cases cmd)
    case GetStatus
    then show ?thesis using assms False handle_status_frame [of e ctx] by (auto simp: h config_agrees_def ctx_defs)
  next
    case GetIdleAssessment
    then show ?thesis using assms False handle_idle_frame [of e ctx] by (auto simp: h config_agrees_def ctx_defs)
  next
    case GetStats
    then show ?thesis using assms False handle_stats_frame [of e ctx] by (auto simp: h config_agrees_def)
  next
    case ReloadConfig
    then show ?thesis
      using reload_config_agrees [OF assms, of "ce_parse_file e" "ce_path_exists e" "ce_error_text e"] False
      by (auto simp: h split: prod.split sum.split)
  next
    case (TriggerClean params)
    then show ?thesis using assms False
      by (auto simp: h handle_trigger_clean_def config_agrees_def ctx_defs Let_def)
  qed (use assms False in \<open>simp_all add: h config_agrees_def ctx_defs\<close>)
qed

lemma run_worker_agrees:
  assumes "config_agrees ctx" and "run_worker K V env now_ts w ctx p = (Some ctx', p')"
  shows "config_agrees ctx'"
proof -
  obtain r pl p1 where run: "execute K V env (worker_params w) (eng_pipeline (dx_engine ctx)) p = (r, pl, p1)"
    by (rule prod_cases3)
  have "pl_config pl = pl_config (eng_pipeline (dx_engine ctx))"
    using execute_keeps_config [of K V env "worker_params w" "eng_pipeline (dx_engine ctx)" p] run by simp
  then show ?thesis
    using assms run
    by (auto simp: run_worker_def CleanEngine_execute_def config_agrees_def Let_def split: sum.splits Failure.splits)
qed

text \<open>What happens in a daemon, one event after the other: a command is handled, a cleaning thread runs, the event loop starts
  a maintenance run or shuts down.\<close>

datatype DaemonOp =
  HandleCommand CmdEnv Command
| RunWorker PipelineEnv u64 Worker
| SpawnMaintenance bool
| StopNow

fun daemon_op ::
  "('h, 'w) Kernel \<Rightarrow> 'w FsView \<Rightarrow> DaemonOp \<Rightarrow> DaemonContext \<Rightarrow> ('h, 'w) Proc \<Rightarrow> DaemonContext option \<times> ('h, 'w) Proc" where
  "daemon_op K V (HandleCommand e cmd) ctx p = (Some (snd (handle_command e cmd ctx)), p)"
| "daemon_op K V (RunWorker env now_ts w) ctx p =
    (if w \<in> set (dx_workers ctx) then run_worker K V env now_ts w ctx p else (Some ctx, p))"
| "daemon_op K V (SpawnMaintenance spawned) ctx p = (Some (spawn_maintenance_worker spawned ctx), p)"
| "daemon_op K V StopNow ctx p = (Some (trigger_shutdown ctx), p)"

fun daemon_ops ::
  "('h, 'w) Kernel \<Rightarrow> 'w FsView \<Rightarrow> DaemonOp list \<Rightarrow> DaemonContext \<Rightarrow> ('h, 'w) Proc \<Rightarrow> DaemonContext option \<times> ('h, 'w) Proc" where
  "daemon_ops K V [] ctx p = (Some ctx, p)"
| "daemon_ops K V (a # as) ctx p =
    (case daemon_op K V a ctx p of (None, p1) \<Rightarrow> (None, p1) | (Some ctx1, p1) \<Rightarrow> daemon_ops K V as ctx1 p1)"

lemma daemon_op_agrees:
  assumes "config_agrees ctx" and "daemon_op K V a ctx p = (Some ctx', p')"
  shows "config_agrees ctx'"
proof (cases a)
  case (RunWorker env now_ts w)
  then show ?thesis using assms by (auto split: if_splits intro: run_worker_agrees)
next
  case (SpawnMaintenance b)
  then show ?thesis using assms
    by (auto simp: spawn_maintenance_worker_def config_agrees_def ctx_defs split: option.splits if_splits)
next
  case (HandleCommand e cmd)
  then show ?thesis using assms by (auto simp: handle_command_agrees)
qed (use assms in \<open>auto simp: config_agrees_def ctx_defs\<close>)

lemma daemon_ops_agrees:
  "config_agrees ctx \<Longrightarrow> daemon_ops K V as ctx p = (Some ctx', p') \<Longrightarrow> config_agrees ctx'"
proof (induction as arbitrary: ctx p)
  case (Cons a as)
  obtain r p1 where op: "daemon_op K V a ctx p = (r, p1)" by fastforce
  with Cons.prems obtain ctx1 where "r = Some ctx1" "daemon_ops K V as ctx1 p1 = (Some ctx', p')"
    by (cases r) auto
  then show ?case using Cons.IH daemon_op_agrees [OF Cons.prems(1)] op by blast
qed simp

section \<open>A manual job as the client sees it\<close>

fun run_commands :: "(CmdEnv \<times> Command) list \<Rightarrow> DaemonContext \<Rightarrow> DaemonContext" where
  "run_commands [] ctx = ctx"
| "run_commands ((e, cmd) # rest) ctx = run_commands rest (snd (handle_command e cmd ctx))"

text \<open>While a cleaning runs no command starts another, ends it or touches the job records.\<close>

lemma handle_command_while_cleaning:
  assumes "is_cleaning ctx"
  shows "is_cleaning (snd (handle_command e cmd ctx))"
    and "dx_recent_jobs (snd (handle_command e cmd ctx)) = dx_recent_jobs ctx"
    and "dx_workers (snd (handle_command e cmd ctx)) = dx_workers ctx"
proof -
  let ?ctx = "snd (handle_command e cmd ctx)"
  have "is_cleaning ?ctx \<and> dx_recent_jobs ?ctx = dx_recent_jobs ctx \<and> dx_workers ?ctx = dx_workers ctx"
  proof (cases "is_shutdown_requested ctx")
    case True
    then show ?thesis using assms by (simp add: handle_command_def)
  next
    case False
    note h = handle_command_def
    show ?thesis
    proof (cases cmd)
      case GetStatus
      then show ?thesis using assms False handle_status_frame [of e ctx] by (auto simp: h ctx_defs)
    next
      case GetIdleAssessment
      then show ?thesis using assms False handle_idle_frame [of e ctx] by (auto simp: h ctx_defs)
    next
      case GetStats
      then show ?thesis using assms False handle_stats_frame [of e ctx] by (auto simp: h ctx_defs)
    next
      case ReloadConfig
      then show ?thesis
        using assms False by (auto simp: h reload_config_def Let_def ctx_defs split: sum.split option.split)
    next
      case (TriggerClean params)
      then show ?thesis using assms False by (auto simp: h handle_trigger_clean_def ctx_defs)
    qed (use assms False in \<open>simp_all add: h ctx_defs\<close>)
  qed
  then show "is_cleaning ?ctx" "dx_recent_jobs ?ctx = dx_recent_jobs ctx" "dx_workers ?ctx = dx_workers ctx" by blast+
qed

lemma run_commands_while_cleaning:
  "is_cleaning ctx \<Longrightarrow> is_cleaning (run_commands cs ctx) \<and> dx_recent_jobs (run_commands cs ctx) = dx_recent_jobs ctx \<and>
    dx_workers (run_commands cs ctx) = dx_workers ctx"
  by (induction cs arbitrary: ctx rule: list.induct) (auto simp: handle_command_while_cleaning)

definition job_outcome :: "(CleanerError \<Rightarrow> string) \<Rightarrow> u64 \<Rightarrow> (CleanReport, Failure) result \<Rightarrow> Response option" where
  "job_outcome error_text job_id r =
    (case r of
       Inr report \<Rightarrow>
         Some (Success (JobStatus job_id ''COMPLETED'' (sr_total_freed_bytes (cr_storage report)) True (Some report)))
     | Inl (Err err) \<Rightarrow> Some (Success (JobStatus job_id (''FAILED: '' @ error_text err) 0 True None))
     | Inl (Panic m) \<Rightarrow> None)"

lemma manual_job_accepted:
  assumes "\<not> is_shutdown_requested ctx" and "\<not> is_cleaning ctx" and "ce_spawned e"
    and "handle_command e (TriggerClean params) ctx = (resp, ctx1)"
  shows "\<exists>msg. resp = Success (JobAccepted (dx_next_job_id ctx) msg)"
    and "dx_recent_jobs ctx1 (dx_next_job_id ctx) = Some \<lparr> rec_job_id = dx_next_job_id ctx, rec_state = ''RUNNING'',
      rec_reclaimed_bytes = 0, rec_is_completed = False, rec_report = None \<rparr>"
    and "is_cleaning ctx1" and "dx_workers ctx1 = dx_workers ctx @ [ManualWorker (dx_next_job_id ctx) params]"
    and "\<not> is_cancelled (dx_cancel_token ctx1)" and "dx_engine ctx1 = dx_engine ctx"
  using assms
  by (auto simp: handle_command_def handle_trigger_clean_def ctx_defs Let_def is_cancelled_def reset_def reset_steps_def)

lemma manual_job_finished:
  assumes "dx_recent_jobs ctx j = Some rec" and "rec_reclaimed_bytes rec = 0"
    and "run_worker K V env now_ts (ManualWorker j params) ctx p = (Some ctx', p')"
  shows "job_outcome (ev_error_text env) j (fst (execute K V env params (eng_pipeline (dx_engine ctx)) p)) =
    Some (handle_job_status j ctx')"
proof -
  obtain r pl p1 where run: "execute K V env params (eng_pipeline (dx_engine ctx)) p = (r, pl, p1)" by (rule prod_cases3)
  show ?thesis
    using assms run
    by (auto simp: run_worker_def CleanEngine_execute_def Let_def job_outcome_def handle_job_status_def finish_job_def ctx_defs
        split: sum.splits Failure.splits)
qed

text \<open>C24.  The life of a manual clean job as a client sees it: the command is accepted under the next job id with the token reset;
  until its thread ends, whatever commands arrive, the job reads \<open>RUNNING\<close> and no second cleaning is started; and once the
  thread has ended the job reads \<open>COMPLETED\<close> with the bytes and the report of the pipeline, or \<open>FAILED\<close> with its error.\<close>

theorem manual_job_lifecycle:
  assumes "\<not> is_shutdown_requested ctx" and "\<not> is_cleaning ctx" and "ce_spawned e"
    and "handle_command e (TriggerClean params) ctx = (resp, ctx1)" and "ctx2 = run_commands cs ctx1"
    and "run_worker K V env now_ts (ManualWorker (dx_next_job_id ctx) params) ctx2 p = (Some ctx3, p')"
  shows "(\<exists>msg. resp = Success (JobAccepted (dx_next_job_id ctx) msg)) \<and>
    handle_job_status (dx_next_job_id ctx) ctx2 = Success (JobStatus (dx_next_job_id ctx) ''RUNNING'' 0 False None) \<and>
    dx_workers ctx2 = dx_workers ctx @ [ManualWorker (dx_next_job_id ctx) params] \<and>
    job_outcome (ev_error_text env) (dx_next_job_id ctx) (fst (execute K V env params (eng_pipeline (dx_engine ctx2)) p)) =
      Some (handle_job_status (dx_next_job_id ctx) ctx3)"
proof -
  note acc = manual_job_accepted [OF assms(1-4)]
  have kept: "dx_recent_jobs ctx2 = dx_recent_jobs ctx1" "dx_workers ctx2 = dx_workers ctx1"
    using run_commands_while_cleaning [OF acc(3), of cs] assms(5) by simp_all
  have "job_outcome (ev_error_text env) (dx_next_job_id ctx) (fst (execute K V env params (eng_pipeline (dx_engine ctx2)) p)) =
      Some (handle_job_status (dx_next_job_id ctx) ctx3)"
    using manual_job_finished [OF acc(2) [folded kept(1)] _ assms(6)] by simp
  then show ?thesis using acc kept by (simp add: handle_job_status_def)
qed

section \<open>The threads of the daemon\<close>

text \<open>The same operations at the granularity of the locks, for any number of threads: handlers of connections, the event loop
  and the cleaning threads.  A handler has passed the check for a shutdown (\<open>Checked\<close>), set the flag under the lock
  (\<open>Entered\<close>), reset the token (\<open>Armed\<close>); a cleaning thread that has recorded its result in the runtime state has yet to
  record it for its job (\<open>Booking\<close>); a reload that has replaced the engine's configuration has yet to replace the daemon's
  (\<open>Reloading\<close>).  The last component tells that a thread could not be started.\<close>

datatype Kind = Scheduled | Manual CleanParams

datatype Phase =
  Checked CleanParams
| Entered Kind
| Armed Kind
| Booking u64 "(CleanReport, CleanerError) result"
| Reloading DaemonConfig

record Threads =
  th_ctx :: DaemonContext
  th_phases :: "Phase list"
  th_lost :: bool

definition launch :: "bool \<Rightarrow> Kind \<Rightarrow> DaemonContext \<Rightarrow> DaemonContext" where
  "launch spawned k ctx =
    (case k of
       Scheduled \<Rightarrow> start_thread spawned (ScheduledWorker (maintenance_params (dx_config ctx))) ctx
     | Manual params \<Rightarrow>
         (case register_clean_job ctx of (job_id, ctx1) \<Rightarrow> start_thread spawned (ManualWorker job_id params) ctx1))"

primrec bookings :: "Worker \<Rightarrow> (CleanReport, CleanerError) result \<Rightarrow> Phase list" where
  "bookings (ScheduledWorker params) r = []"
| "bookings (ManualWorker job_id params) r = [Booking job_id r]"

inductive daemon_step :: "Threads \<Rightarrow> Threads \<Rightarrow> bool" where
  check: "\<not> is_shutdown_requested (th_ctx t) \<Longrightarrow> daemon_step t (t\<lparr>th_phases := Checked params # th_phases t\<rparr>)"
| refuse: "th_phases t = xs @ Checked params # ys \<Longrightarrow> is_cleaning (th_ctx t) \<Longrightarrow> daemon_step t (t\<lparr>th_phases := xs @ ys\<rparr>)"
| enter: "th_phases t = xs @ Checked params # ys \<Longrightarrow> enter_manual (th_ctx t) = Some ctx \<Longrightarrow>
    daemon_step t (t\<lparr>th_ctx := ctx, th_phases := xs @ Entered (Manual params) # ys\<rparr>)"
| schedule: "enter_scheduled (th_ctx t) = Some ctx \<Longrightarrow>
    daemon_step t (t\<lparr>th_ctx := ctx, th_phases := Entered Scheduled # th_phases t\<rparr>)"
| arm: "th_phases t = xs @ Entered k # ys \<Longrightarrow>
    daemon_step t (t\<lparr>th_ctx := on_token reset (th_ctx t), th_phases := xs @ Armed k # ys\<rparr>)"
| start: "th_phases t = xs @ Armed k # ys \<Longrightarrow>
    daemon_step t (t\<lparr>th_ctx := launch spawned k (th_ctx t), th_phases := xs @ ys, th_lost := th_lost t \<or> \<not> spawned\<rparr>)"
| finish: "w \<in> set (dx_workers (th_ctx t)) \<Longrightarrow>
    daemon_step t (t\<lparr>th_ctx := finish_runtime now_ts r
        ((th_ctx t)\<lparr>dx_engine := engine, dx_workers := remove1 w (dx_workers (th_ctx t))\<rparr>),
      th_phases := bookings w r @ th_phases t\<rparr>)"
| book: "th_phases t = xs @ Booking j r # ys \<Longrightarrow>
    daemon_step t (t\<lparr>th_ctx := finish_job error_text j r (th_ctx t), th_phases := xs @ ys\<rparr>)"
| reload: "daemon_step t (t\<lparr>th_ctx := (th_ctx t)\<lparr>dx_engine := CleanEngine_update_config c (dx_engine (th_ctx t))\<rparr>,
      th_phases := Reloading c # th_phases t\<rparr>)"
| reloaded: "th_phases t = xs @ Reloading c # ys \<Longrightarrow>
    daemon_step t (t\<lparr>th_ctx := (th_ctx t)\<lparr>dx_config := c\<rparr>, th_phases := xs @ ys\<rparr>)"
| stop: "daemon_step t (t\<lparr>th_ctx := trigger_shutdown (th_ctx t)\<rparr>)"
| cancels: "daemon_step t (t\<lparr>th_ctx := set_state s (on_token (cancel_with_reason reason) (th_ctx t))\<rparr>)"
| display: "daemon_step t (t\<lparr>th_ctx := set_state s (th_ctx t)\<rparr>)"

definition started :: "DaemonContext \<Rightarrow> Threads" where
  "started ctx = \<lparr> th_ctx = ctx, th_phases = [], th_lost = False \<rparr>"

primrec holds_flag :: "Phase \<Rightarrow> bool" where
  "holds_flag (Checked _) = False"
| "holds_flag (Entered _) = True"
| "holds_flag (Armed _) = True"
| "holds_flag (Booking _ _) = False"
| "holds_flag (Reloading _) = False"

text \<open>The cleanings in progress: threads that run, and handlers between the lock and the start of their thread.\<close>

definition cleanings :: "Threads \<Rightarrow> nat" where
  "cleanings t = length (dx_workers (th_ctx t)) + length (filter holds_flag (th_phases t))"

definition flag_ok :: "Threads \<Rightarrow> bool" where
  "flag_ok t \<longleftrightarrow> cleanings t \<le> 1 \<and> (is_cleaning (th_ctx t) \<longleftrightarrow> cleanings t = 1 \<or> th_lost t) \<and> (th_lost t \<longrightarrow> cleanings t = 0)"

lemma launch_frame:
  "dx_runtime (launch spawned k ctx) = dx_runtime ctx"
  "length (dx_workers (launch spawned k ctx)) = length (dx_workers ctx) + (if spawned then 1 else 0)"
  by (auto simp: launch_def ctx_defs Let_def split: Kind.split)

lemma bookings_no_flag [simp]: "filter holds_flag (bookings w r) = []"
  by (cases w) simp_all

lemma flag_free:
  assumes "flag_ok t" and "\<not> is_cleaning (th_ctx t)"
  shows "dx_workers (th_ctx t) = []" "filter holds_flag (th_phases t) = []" "\<not> th_lost t"
proof -
  have "cleanings t = 0" "\<not> th_lost t" using assms by (auto simp: flag_ok_def)
  then show "dx_workers (th_ctx t) = []" "filter holds_flag (th_phases t) = []" "\<not> th_lost t"
    by (simp_all only: cleanings_def add_is_0 length_0_conv simp_thms)
qed

lemma daemon_step_flag_ok: "daemon_step t t' \<Longrightarrow> flag_ok t \<Longrightarrow> flag_ok t'"
proof (induction rule: daemon_step.induct)
  case (finish w t now_ts r engine)
  then have "0 < length (dx_workers (th_ctx t))" by (cases "dx_workers (th_ctx t)") auto
  moreover have "length (dx_workers (th_ctx t)) + length (filter holds_flag (th_phases t)) \<le> 1"
    using finish.prems by (simp add: flag_ok_def cleanings_def)
  ultimately have one: "length (dx_workers (th_ctx t)) = 1" and "length (filter holds_flag (th_phases t)) = 0" by linarith+
  then have "length (dx_workers (th_ctx t)) = 1" "filter holds_flag (th_phases t) = []" "\<not> th_lost t"
    using finish.prems by (auto simp: flag_ok_def cleanings_def)
  then show ?case using finish.hyps
    by (simp add: flag_ok_def cleanings_def ctx_defs length_remove1 split: sum.split)
next
  case (enter t xs params ys ctx)
  then have "\<not> is_cleaning (th_ctx t)" by (auto simp: enter_manual_def split: if_splits)
  from flag_free [OF enter.prems this] enter.hyps show ?case
    by (auto simp: flag_ok_def cleanings_def ctx_defs split: if_splits)
next
  case (schedule t ctx)
  then have "\<not> is_cleaning (th_ctx t)" by (auto simp: enter_scheduled_def split: if_splits)
  from flag_free [OF schedule.prems this] schedule.hyps show ?case
    by (auto simp: flag_ok_def cleanings_def ctx_defs split: if_splits)
next
  case (start t xs k ys spawned)
  then have "length (dx_workers (th_ctx t)) = 0" "filter holds_flag xs = []" "filter holds_flag ys = []"
    by (auto simp: flag_ok_def cleanings_def)
  then show ?case using start by (auto simp: flag_ok_def cleanings_def launch_frame is_cleaning_def)
qed (auto simp: flag_ok_def cleanings_def ctx_defs split: if_splits)

lemma reachable_flag_ok: "daemon_step\<^sup>*\<^sup>* t t' \<Longrightarrow> flag_ok t \<Longrightarrow> flag_ok t'"
  by (induction rule: rtranclp_induct) (auto intro: daemon_step_flag_ok)

text \<open>C5.  At most one cleaning is in progress at any time, through every interleaving of handlers, the event loop and the cleaning
  threads at the granularity of the locks; the flag \<open>is_cleaning\<close> is set exactly while one is, except that it stays set for
  good, with no cleaning ever again, once a thread could not be started.\<close>

theorem one_cleaning_at_a_time:
  assumes "daemon_step\<^sup>*\<^sup>* (started (DaemonContext_new c path engine now)) t"
  shows "cleanings t \<le> 1 \<and> (is_cleaning (th_ctx t) \<longleftrightarrow> cleanings t = 1 \<or> th_lost t) \<and> (th_lost t \<longrightarrow> cleanings t = 0)"
proof -
  have "flag_ok (started (DaemonContext_new c path engine now))"
    by (simp add: flag_ok_def cleanings_def started_def DaemonContext_new_def DaemonRuntimeState_default_def is_cleaning_def)
  then show ?thesis using reachable_flag_ok [OF assms] by (simp add: flag_ok_def)
qed

definition idle_daemon :: DaemonContext where
  "idle_daemon = DaemonContext_new bare_config None \<lparr> eng_pipeline = new_pipeline \<rparr> 0"

lemma idle_daemon_free: "\<not> is_shutdown_requested idle_daemon" "\<not> is_cleaning idle_daemon" "dx_workers idle_daemon = []"
  "dx_next_job_id idle_daemon = 1"
  by (simp_all add: idle_daemon_def DaemonContext_new_def DaemonRuntimeState_default_def ctx_defs)

theorem one_cleaning_at_a_time_witness:
  "\<exists>t. daemon_step\<^sup>*\<^sup>* (started idle_daemon) t \<and> is_cleaning (th_ctx t) \<and> cleanings t \<le> 1"
proof -
  obtain ctx where e: "enter_scheduled idle_daemon = Some ctx" "is_cleaning ctx"
    using idle_daemon_free by (auto simp: ctx_defs)
  let ?t = "(started idle_daemon)\<lparr>th_ctx := ctx, th_phases := Entered Scheduled # th_phases (started idle_daemon)\<rparr>"
  have "daemon_step (started idle_daemon) ?t"
    by (rule daemon_step.schedule) (simp add: started_def e)
  then have r: "daemon_step\<^sup>*\<^sup>* (started idle_daemon) ?t" by (rule r_into_rtranclp)
  then have "cleanings ?t \<le> 1" using one_cleaning_at_a_time unfolding idle_daemon_def by blast
  then show ?thesis using r e(2) by (intro exI [of _ ?t]) simp
qed

theorem manual_job_lifecycle_witness:
  "\<exists>e ctx1 ctx3 p'. handle_command e (TriggerClean real_run) idle_daemon = (Success (JobAccepted 1
       (''Manual clean job #'' @ decimal 1 @ '' accepted and executing in background'')), ctx1) \<and>
     run_worker closed_kernel closed_view quiet_env 9 (ManualWorker 1 real_run) (run_commands [(e, CancelCommand)] ctx1)
       \<lparr> world = (), openat2_supported = True, sys_log = [] \<rparr> = (Some ctx3, p') \<and>
     (\<exists>freed report. handle_job_status 1 ctx3 = Success (JobStatus 1 ''COMPLETED'' freed True (Some report)))"
proof -
  let ?p = "\<lparr> world = (), openat2_supported = True, sys_log = [] \<rparr> :: (unit, unit) Proc"
  define e where "e = \<lparr> ce_version = ''1'', ce_sysfs = undefined, ce_clock = (\<lambda>_. 0), ce_clk_tck = 100,
    ce_parse_file = (\<lambda>_. Inl (Io 2)), ce_path_exists = (\<lambda>_. False), ce_error_text = (\<lambda>_. []), ce_spawned = True \<rparr>"
  have sp: "ce_spawned e" by (simp add: e_def)
  obtain resp ctx1 where cmd: "handle_command e (TriggerClean real_run) idle_daemon = (resp, ctx1)" by fastforce
  then have resp: "resp = Success (JobAccepted 1 (''Manual clean job #'' @ decimal 1 @ '' accepted and executing in background''))"
    using idle_daemon_free by (auto simp: handle_command_def handle_trigger_clean_def ctx_defs Let_def)
  have eng: "dx_engine (run_commands [(e, CancelCommand)] ctx1) = \<lparr> eng_pipeline = new_pipeline \<rparr>"
    using cmd idle_daemon_free
    by (auto simp: handle_command_def handle_trigger_clean_def ctx_defs Let_def idle_daemon_def DaemonContext_new_def)
  obtain report pl1 p1 where run: "execute closed_kernel closed_view quiet_env real_run new_pipeline ?p = (Inr report, pl1, p1)"
    using new_pipeline_runs by blast
  obtain ctx3 where w: "run_worker closed_kernel closed_view quiet_env 9 (ManualWorker 1 real_run)
      (run_commands [(e, CancelCommand)] ctx1) ?p = (Some ctx3, p1)"
    by (simp add: run_worker_def CleanEngine_execute_def eng run Let_def del: run_commands.simps worker_record.simps)
  from manual_job_lifecycle [OF idle_daemon_free(1,2) sp cmd HOL.refl w [folded idle_daemon_free(4)]]
  have "\<exists>freed report. handle_job_status 1 ctx3 = Success (JobStatus 1 ''COMPLETED'' freed True (Some report))"
    by (simp add: eng run job_outcome_def idle_daemon_free(4) del: run_commands.simps) metis
  then show ?thesis using cmd w unfolding resp by blast
qed

text \<open>A shutdown can be lost: a clean command that passed the check for a shutdown before it was requested still starts its
  cleaning afterwards and resets the token, so that the daemon is shutting down, a cleaning thread runs, nothing tells it
  to stop, and the state reads \<open>CleaningManual\<close>.\<close>

theorem shutdown_can_be_lost:
  "\<exists>t. daemon_step\<^sup>*\<^sup>* (started (DaemonContext_new c path engine now)) t \<and> is_shutdown_requested (th_ctx t) \<and>
     dx_workers (th_ctx t) \<noteq> [] \<and> \<not> is_cancelled (dx_cancel_token (th_ctx t)) \<and> get_state (th_ctx t) = CleaningManual"
proof -
  let ?t0 = "started (DaemonContext_new c path engine now)"
  let ?t1 = "?t0\<lparr>th_phases := Checked real_run # th_phases ?t0\<rparr>"
  let ?t2 = "?t1\<lparr>th_ctx := trigger_shutdown (th_ctx ?t1)\<rparr>"
  note new = started_def DaemonContext_new_def DaemonRuntimeState_default_def ctx_defs
  obtain ctx where ctx: "enter_manual (th_ctx ?t2) = Some ctx" by (simp add: new)
  let ?t3 = "?t2\<lparr>th_ctx := ctx, th_phases := [] @ Entered (Manual real_run) # []\<rparr>"
  let ?t4 = "?t3\<lparr>th_ctx := on_token reset (th_ctx ?t3), th_phases := [] @ Armed (Manual real_run) # []\<rparr>"
  let ?t5 = "?t4\<lparr>th_ctx := launch True (Manual real_run) (th_ctx ?t4), th_phases := [] @ [], th_lost := th_lost ?t4 \<or> \<not> True\<rparr>"
  have "daemon_step ?t0 ?t1" by (rule daemon_step.check) (simp add: new)
  moreover have "daemon_step ?t1 ?t2" by (rule daemon_step.stop)
  moreover have "daemon_step ?t2 ?t3" by (rule daemon_step.enter [OF _ ctx]) (simp add: started_def)
  moreover have "daemon_step ?t3 ?t4" by (rule daemon_step.arm) simp
  moreover have "daemon_step ?t4 ?t5" by (rule daemon_step.start) simp
  ultimately have "daemon_step\<^sup>*\<^sup>* ?t0 ?t5" by (meson rtranclp.rtrancl_into_rtrancl rtranclp.rtrancl_refl)
  moreover have "is_shutdown_requested (th_ctx ?t5) \<and> dx_workers (th_ctx ?t5) \<noteq> [] \<and>
      \<not> is_cancelled (dx_cancel_token (th_ctx ?t5)) \<and> get_state (th_ctx ?t5) = CleaningManual"
    using ctx by (auto simp: new launch_def is_cancelled_def reset_def reset_steps_def get_state_def Let_def)
  ultimately show ?thesis by blast
qed

text \<open>Two reloads at the same time can leave the daemon and the pipeline with different configurations for good: the engine's
  and the daemon's are replaced under different locks, so that each can keep the file of the other reload.\<close>

theorem reload_race_diverges:
  "\<exists>t. daemon_step\<^sup>*\<^sup>* (started (DaemonContext_new c path engine now)) t \<and> th_phases t = [] \<and>
     dx_config (th_ctx t) = c1 \<and> pl_config (eng_pipeline (dx_engine (th_ctx t))) = c2"
proof -
  let ?eng = "\<lambda>c t. t\<lparr>th_ctx := (th_ctx t)\<lparr>dx_engine := CleanEngine_update_config c (dx_engine (th_ctx t))\<rparr>,
      th_phases := Reloading c # th_phases t\<rparr>"
  let ?cfg = "\<lambda>c rest t. t\<lparr>th_ctx := (th_ctx t)\<lparr>dx_config := c\<rparr>, th_phases := [] @ rest\<rparr>"
  let ?t0 = "started (DaemonContext_new c path engine now)"
  let ?t1 = "?eng c1 ?t0"
  let ?t2 = "?eng c2 ?t1"
  let ?t3 = "?cfg c2 [Reloading c1] ?t2"
  let ?t4 = "?cfg c1 [] ?t3"
  have "daemon_step ?t0 ?t1" by (rule daemon_step.reload)
  moreover have "daemon_step ?t1 ?t2" by (rule daemon_step.reload)
  moreover have "daemon_step ?t2 ?t3" by (rule daemon_step.reloaded) (simp add: started_def)
  moreover have "daemon_step ?t3 ?t4" by (rule daemon_step.reloaded) simp
  ultimately have "daemon_step\<^sup>*\<^sup>* ?t0 ?t4" by (meson rtranclp.rtrancl_into_rtrancl rtranclp.rtrancl_refl)
  moreover have "th_phases ?t4 = [] \<and> dx_config (th_ctx ?t4) = c1 \<and> pl_config (eng_pipeline (dx_engine (th_ctx ?t4))) = c2"
    by (simp add: started_def CleanEngine_update_config_def update_config_def)
  ultimately show ?thesis by blast
qed

section \<open>What the daemon removes\<close>

definition daemon_removal :: "('h, 'w) Kernel \<Rightarrow> 'w FsView \<Rightarrow> DaemonOp list \<Rightarrow> string \<Rightarrow> bool \<Rightarrow> bool" where
  "daemon_removal K V ops leaf dir \<longleftrightarrow>
    (\<exists>env now_ts w pl v p. RunWorker env now_ts w \<in> set ops \<and> validate (pl_config pl) = Inr () \<and>
       from_raw (raw_config_of (pl_config pl) False) = Inr v \<and>
       justified env (eff_of pl v) (take_snapshot (fst (discover_all_targets K V (pl_catalog pl) p))) leaf dir)"

definition removals_ok :: "('h, 'w) Kernel \<Rightarrow> 'w FsView \<Rightarrow> DaemonOp list \<Rightarrow> 'h SysEvent list \<Rightarrow> bool" where
  "removals_ok K V ops evs \<longleftrightarrow>
    list_all (\<lambda>ev. case ev of SysUnlink h leaf dir u \<Rightarrow> daemon_removal K V ops leaf dir | _ \<Rightarrow> True) evs"

lemma removals_ok_append: "removals_ok K V ops (a @ b) \<longleftrightarrow> removals_ok K V ops a \<and> removals_ok K V ops b"
  by (simp add: removals_ok_def)

lemma daemon_removal_mono: "daemon_removal K V ops leaf dir \<Longrightarrow> set ops \<subseteq> set ops' \<Longrightarrow> daemon_removal K V ops' leaf dir"
  unfolding daemon_removal_def by blast

lemma removals_ok_mono: "removals_ok K V ops evs \<Longrightarrow> set ops \<subseteq> set ops' \<Longrightarrow> removals_ok K V ops' evs"
  unfolding removals_ok_def by (induction evs) (auto split: SysEvent.splits intro: daemon_removal_mono)

lemma run_worker_removals:
  assumes "config_agrees ctx" and "run_worker K V env now_ts w ctx p = (r, p')"
  shows "\<exists>evs. extends p p' evs \<and> removals_ok K V [RunWorker env now_ts w] evs"
proof -
  let ?pl = "eng_pipeline (dx_engine ctx)"
  obtain x pl p1 where run: "execute K V env (worker_params w) ?pl p = (x, pl, p1)" by (rule prod_cases3)
  have "p' = p1" using assms(2) run
    by (auto simp: run_worker_def CleanEngine_execute_def Let_def split: sum.splits Failure.splits)
  moreover obtain evs where "extends p p1 evs" and evs: "list_all (\<lambda>ev. case ev of
      SysUnlink h leaf dir u \<Rightarrow> (\<exists>v. from_raw (raw_config_of (pl_config ?pl) False) = Inr v \<and>
        justified env (eff_of ?pl v) (take_snapshot (fst (discover_all_targets K V (pl_catalog ?pl) p))) leaf dir)
    | _ \<Rightarrow> True) evs"
    using pipeline_calls [where K = K and V = V and env = env and params = "worker_params w" and pl = ?pl and p = p]
    unfolding run Let_def prod.case by blast
  moreover have valid: "validate (pl_config ?pl) = Inr ()" using assms(1) by (simp add: config_agrees_def)
  moreover have "removals_ok K V [RunWorker env now_ts w] evs"
    using evs unfolding removals_ok_def
  proof (rule list.pred_mono_strong)
    fix ev
    assume ev: "case ev of
        SysUnlink h leaf dir u \<Rightarrow> (\<exists>v. from_raw (raw_config_of (pl_config ?pl) False) = Inr v \<and>
          justified env (eff_of ?pl v) (take_snapshot (fst (discover_all_targets K V (pl_catalog ?pl) p))) leaf dir)
      | _ \<Rightarrow> True"
    have "daemon_removal K V [RunWorker env now_ts w] leaf dir"
      if "\<exists>v. from_raw (raw_config_of (pl_config ?pl) False) = Inr v \<and>
        justified env (eff_of ?pl v) (take_snapshot (fst (discover_all_targets K V (pl_catalog ?pl) p))) leaf dir" for leaf dir
      using that valid unfolding daemon_removal_def list.set by blast
    then show "case ev of SysUnlink h leaf dir u \<Rightarrow> daemon_removal K V [RunWorker env now_ts w] leaf dir | _ \<Rightarrow> True"
      using ev by (simp split: SysEvent.splits)
  qed
  ultimately show ?thesis by blast
qed

lemma daemon_op_removals:
  assumes "config_agrees ctx" and "daemon_op K V a ctx p = (r, p')"
  shows "\<exists>evs. extends p p' evs \<and> removals_ok K V [a] evs"
proof (cases "p' = p")
  case True
  then show ?thesis by (intro exI [of _ "[]"]) (simp add: removals_ok_def)
next
  case False
  then obtain env now_ts w where "a = RunWorker env now_ts w" "run_worker K V env now_ts w ctx p = (r, p')"
    using assms(2) by (cases a) (auto split: if_splits)
  then show ?thesis using run_worker_removals [OF assms(1)] by blast
qed

lemma daemon_ops_removals:
  "config_agrees ctx \<Longrightarrow> daemon_ops K V as ctx p = (r, p') \<Longrightarrow> \<exists>evs. extends p p' evs \<and> removals_ok K V as evs"
proof (induction as arbitrary: ctx p)
  case Nil
  then show ?case by (intro exI [of _ "[]"]) (simp add: removals_ok_def)
next
  case (Cons a as)
  obtain r1 p1 where op: "daemon_op K V a ctx p = (r1, p1)" by fastforce
  obtain evs where evs: "extends p p1 evs" "removals_ok K V [a] evs" using daemon_op_removals [OF Cons.prems(1) op] by blast
  show ?case
  proof (cases r1)
    case None
    then show ?thesis using Cons.prems(2) op evs removals_ok_mono [OF evs(2), of "a # as"] by auto
  next
    case (Some ctx1)
    then have "daemon_ops K V as ctx1 p1 = (r, p')" using Cons.prems(2) op by simp
    then obtain evs' where evs': "extends p1 p' evs'" "removals_ok K V as evs'"
      using Cons.IH daemon_op_agrees [OF Cons.prems(1)] op Some by blast
    then show ?thesis
      using extends_trans [OF evs(1) evs'(1)] removals_ok_mono [OF evs(2), of "a # as"] removals_ok_mono [OF evs'(2), of "a # as"]
      by (intro exI [of _ "evs @ evs'"]) (auto simp: removals_ok_append)
  qed
qed

end
