(* ===== verification/Event_Loop.thy ===== *)
theory Event_Loop
  imports Daemon Loop_State Cgroups
begin

text \<open>
  The driver of the event loop (\<open>run_epoll_loop\<close> and \<open>run_fallback_loop\<close> of \<open>system/event_loop.rs\<close>): it classifies the ready
  descriptors of a wake-up, collects the events, reduces each and carries out the actions on the daemon's context, on the
  pressure watcher and on the kernel.  What \<open>epoll_wait\<close>, the reads and the clock answer are arguments.  The lemmas show
  that the loop re-arms its timer for the future after every expiry, when a maintenance run is started, and that turning
  on the screen cancels a running cleaning.
\<close>

section \<open>A wake-up\<close>

record LoopFds =
  lf_timer :: int
  lf_uevent :: "int option"
  lf_signal :: "int option"
  lf_ipc :: "int list"

record Batch =
  ba_timer :: bool
  ba_uevent :: bool
  ba_signal :: bool
  ba_ipc :: bool
  ba_psi :: "PsiPressureLevel option"

definition no_batch :: Batch where
  "no_batch = \<lparr> ba_timer = False, ba_uevent = False, ba_signal = False, ba_ipc = False, ba_psi = None \<rparr>"

definition classify_fd :: "LoopFds \<Rightarrow> PsiWatcher option \<Rightarrow> int \<Rightarrow> Batch \<Rightarrow> Batch" where
  "classify_fd F psi fd b =
    (if fd = lf_timer F then b\<lparr>ba_timer := True\<rparr>
     else if Some fd = lf_uevent F then b\<lparr>ba_uevent := True\<rparr>
     else if Some fd = lf_signal F then b\<lparr>ba_signal := True\<rparr>
     else if fd \<in> set (lf_ipc F) then b\<lparr>ba_ipc := True\<rparr>
     else case psi of
       Some pw \<Rightarrow> (case identify_fd fd pw of Some level \<Rightarrow> b\<lparr>ba_psi := strongest (ba_psi b) level\<rparr> | None \<Rightarrow> b)
     | None \<Rightarrow> b)"

definition events_to_process ::
  "LoopFds \<Rightarrow> Batch \<Rightarrow> SignalEvent list \<Rightarrow> UeventMessage list \<Rightarrow> LoopEvent list" where
  "events_to_process F b signals uevents =
    (if ba_timer b then [TimerExpired] else []) @
    (if ba_signal b \<and> lf_signal F \<noteq> None then map Signal signals else []) @
    (if ba_ipc b then [IpcReadable] else []) @
    (case ba_psi b of Some lvl \<Rightarrow> [PsiPressure lvl] | None \<Rightarrow> []) @
    (if ba_uevent b \<and> lf_uevent F \<noteq> None
     then (if uevents = [] then [UeventBufferOverflow] else map Uevent uevents)
     else [])"

section \<open>Actions\<close>

text \<open>What an action reads: the clock, the charger and the temperatures for the triggers; whether a thread starts; the screen;
  the clock, the files and the answers to writes for a memory reclaim; the configuration files; the commands that the
  accepted connections carry.\<close>

record ActEnv =
  ae_trigger_now :: Instant
  ae_charger :: SysFs
  ae_thermal :: SysFs
  ae_spawned :: bool
  ae_screen :: SysFs
  ae_respond_now :: Instant
  ae_respond_later :: Instant
  ae_memory :: "nat \<Rightarrow> SysFs"
  ae_write_ok :: "nat \<Rightarrow> string \<Rightarrow> string \<Rightarrow> bool"
  ae_parse_file :: "string \<Rightarrow> (DaemonConfig, CleanerError) result"
  ae_path_exists :: "string \<Rightarrow> bool"
  ae_error_text :: "CleanerError \<Rightarrow> string"
  ae_commands :: "(CmdEnv \<times> Command) list"

datatype Effect = Reclaimed "Reclaim list" | Written writes | Drained int

record Driver =
  dv_loop :: LoopState
  dv_ctx :: DaemonContext
  dv_psi :: "PsiWatcher option"
  dv_effects :: "Effect list"

definition preempt :: "string \<Rightarrow> DaemonContext \<Rightarrow> DaemonContext" where
  "preempt reason ctx = set_state (Preempted reason) (on_token (cancel_with_reason CancelReason.ScreenOn) ctx)"

definition sub_action :: "LoopAction \<Rightarrow> DaemonContext \<Rightarrow> DaemonContext" where
  "sub_action a ctx = (case a of PreemptCleaning r \<Rightarrow> preempt r ctx | _ \<Rightarrow> ctx)"

definition do_reconcile :: "ActEnv \<Rightarrow> Instant \<Rightarrow> u64 \<Rightarrow> u64 \<Rightarrow> Driver \<Rightarrow> Driver option" where
  "do_reconcile e now min_off_secs maint_secs d =
    (case reduce (ReconcileScreen (get_screen_state (ae_screen e))) now min_off_secs maint_secs (is_cleaning (dv_ctx d)) (dv_loop d) of
       None \<Rightarrow> None
     | Some (st, sub_actions) \<Rightarrow>
         Some (d\<lparr>dv_loop := st,
           dv_ctx := fold sub_action sub_actions (set_screen_off_since (ls_screen_off_since st) (dv_ctx d))\<rparr>))"

definition reclaim_effects :: "ActEnv \<Rightarrow> PsiPressureLevel \<Rightarrow> Effect list" where
  "reclaim_effects e level =
    (case level of
       Moderate \<Rightarrow> [Reclaimed (snd (reclaim_cgroup_memory (ae_memory e 0) (ae_write_ok e 0) 64))]
     | PsiCritical \<Rightarrow>
         [Reclaimed (snd (reclaim_cgroup_memory (ae_memory e 0) (ae_write_ok e 0) 128)),
          Written (snd (compact_zram (ae_memory e 1) (ae_write_ok e 1))),
          Written (snd (compact_memory (ae_memory e 2) (ae_write_ok e 2)))]
     | PsiNormal \<Rightarrow> [])"

definition do_reclaim :: "ActEnv \<Rightarrow> PsiPressureLevel \<Rightarrow> Driver \<Rightarrow> Driver" where
  "do_reclaim e level d =
    (case dv_psi d of
       None \<Rightarrow> d
     | Some pw \<Rightarrow>
         (let cooldown = op_psi_cooldown_secs (dc_optimization (dx_config (dv_ctx d)));
              d1 = (if can_respond (ae_respond_now e) cooldown pw \<and> \<not> is_cleaning (dv_ctx d)
                    then (let ctx1 = set_state (PressureReclaiming (PsiPressureLevel_display level)) (dv_ctx d);
                              ctx2 = (if \<not> is_cleaning ctx1 then set_state DaemonIdle ctx1 else ctx1)
                          in d\<lparr>dv_psi := Some (record_response (ae_respond_later e) pw), dv_ctx := ctx2,
                               dv_effects := dv_effects d @ reclaim_effects e level\<rparr>)
                    else d)
          in d1\<lparr>dv_effects := dv_effects d1 @ (case drain_level level pw of Some fd \<Rightarrow> [Drained fd] | None \<Rightarrow> [])\<rparr>))"

definition do_maintenance :: "ActEnv \<Rightarrow> Instant \<Rightarrow> u64 \<Rightarrow> Driver \<Rightarrow> Driver option" where
  "do_maintenance e now maint_secs d =
    (let ctx = dv_ctx d;
         should_run = evaluate_triggers (ae_trigger_now e) (ae_charger e) (ae_thermal e) (ls_screen_off_since (dv_loop d)) ctx
     in if should_run \<and> \<not> is_cleaning ctx \<and> \<not> is_shutdown_requested ctx
        then map_option (\<lambda>st. d\<lparr>dv_ctx := spawn_maintenance_worker (ae_spawned e) ctx, dv_loop := st\<rparr>)
               (on_maintenance_success now maint_secs (dv_loop d))
        else if \<not> is_shutdown_requested ctx
        then map_option (\<lambda>st. d\<lparr>dv_loop := st\<rparr>) (on_maintenance_postponed now maint_secs (dv_loop d))
        else Some d)"

text \<open>One action: \<^const>\<open>None\<close> is a panic, the flag tells that the loop ends.\<close>

definition do_action :: "ActEnv \<Rightarrow> Instant \<Rightarrow> u64 \<Rightarrow> u64 \<Rightarrow> LoopAction \<Rightarrow> Driver \<Rightarrow> (bool \<times> Driver) option" where
  "do_action e now min_off_secs maint_secs action d =
    (case action of
       NoAction \<Rightarrow> Some (False, d)
     | ShutdownLoop \<Rightarrow> Some (True, d\<lparr>dv_ctx := trigger_shutdown (dv_ctx d)\<rparr>)
     | ReloadConfigAction \<Rightarrow>
         Some (False, d\<lparr>dv_ctx := snd (reload_config (ae_parse_file e) (ae_path_exists e) (ae_error_text e) (dv_ctx d))\<rparr>)
     | HandleIpc \<Rightarrow> Some (False, d\<lparr>dv_ctx := run_commands (ae_commands e) (dv_ctx d)\<rparr>)
     | PreemptCleaning reason \<Rightarrow> Some (False, d\<lparr>dv_ctx := preempt reason (dv_ctx d)\<rparr>)
     | ReconcileSysfs \<Rightarrow> map_option (Pair False) (do_reconcile e now min_off_secs maint_secs d)
     | ReclaimMemory level \<Rightarrow> Some (False, do_reclaim e level d)
     | RunMaintenance \<Rightarrow> map_option (Pair False) (do_maintenance e now maint_secs d))"

fun do_actions ::
  "(nat \<Rightarrow> ActEnv) \<Rightarrow> Instant \<Rightarrow> u64 \<Rightarrow> u64 \<Rightarrow> LoopAction list \<Rightarrow> Driver \<Rightarrow> (bool \<times> Driver) option" where
  "do_actions e now min_off_secs maint_secs [] d = Some (False, d)"
| "do_actions e now min_off_secs maint_secs (a # as) d =
    (case do_action (e 0) now min_off_secs maint_secs a d of
       None \<Rightarrow> None
     | Some (True, d1) \<Rightarrow> Some (True, d1)
     | Some (False, d1) \<Rightarrow> do_actions (\<lambda>n. e (Suc n)) now min_off_secs maint_secs as d1)"

definition process_event ::
  "(nat \<Rightarrow> ActEnv) \<Rightarrow> Instant \<Rightarrow> u64 \<Rightarrow> u64 \<Rightarrow> bool \<Rightarrow> LoopEvent \<Rightarrow> Driver \<Rightarrow> (bool \<times> Driver) option" where
  "process_event e now min_off_secs maint_secs cleaning ev d =
    (case reduce ev now min_off_secs maint_secs cleaning (dv_loop d) of
       None \<Rightarrow> None
     | Some (st, actions) \<Rightarrow>
         do_actions e now min_off_secs maint_secs actions
           (d\<lparr>dv_loop := st, dv_ctx := set_screen_off_since (ls_screen_off_since st) (dv_ctx d)\<rparr>))"

fun process_events ::
  "(nat \<Rightarrow> nat \<Rightarrow> ActEnv) \<Rightarrow> Instant \<Rightarrow> u64 \<Rightarrow> u64 \<Rightarrow> bool \<Rightarrow> LoopEvent list \<Rightarrow> Driver \<Rightarrow> (bool \<times> Driver) option" where
  "process_events e now min_off_secs maint_secs cleaning [] d = Some (False, d)"
| "process_events e now min_off_secs maint_secs cleaning (ev # evs) d =
    (case process_event (e 0) now min_off_secs maint_secs cleaning ev d of
       None \<Rightarrow> None
     | Some (True, d1) \<Rightarrow> Some (True, d1)
     | Some (False, d1) \<Rightarrow> process_events (\<lambda>n. e (Suc n)) now min_off_secs maint_secs cleaning evs d1)"

section \<open>The loop\<close>

datatype WaitAnswer = Ready "int list" | Interrupted | WaitFailed

record IterEnv =
  it_wait :: WaitAnswer
  it_now :: Instant
  it_signals :: "u32 option list"
  it_datagrams :: "string list"
  it_act :: "nat \<Rightarrow> nat \<Rightarrow> ActEnv"
  it_mono :: timespec
  it_arm_now :: Instant

text \<open>The result of one round: the loop goes on with a new timer setting if one was made, or it ends.\<close>

datatype Round = Panicked | Ended Driver | Continued Driver "timespec option"

definition loop_round :: "LoopFds \<Rightarrow> IterEnv \<Rightarrow> Driver \<Rightarrow> Round" where
  "loop_round F i d =
    (if is_shutdown_requested (dv_ctx d) then Ended d
     else case it_wait i of
       Interrupted \<Rightarrow> Continued d None
     | WaitFailed \<Rightarrow> Ended d
     | Ready fds \<Rightarrow>
         (let b = fold (classify_fd F (dv_psi d)) (take 16 fds) no_batch;
              cfg = dx_config (dv_ctx d);
              maint_secs = dc_maintenance_interval_secs cfg;
              min_off_secs = dc_min_screen_off_secs cfg;
              evs = events_to_process F b (signal_read_events (it_signals i)) (fst (read_events (it_datagrams i)))
          in case process_events (it_act i) (it_now i) min_off_secs maint_secs (is_cleaning (dv_ctx d)) evs d of
               None \<Rightarrow> Panicked
             | Some (True, d1) \<Rightarrow> Ended d1
             | Some (False, d1) \<Rightarrow>
                 Continued d1 (if \<not> is_shutdown_requested (dv_ctx d1)
                   then Some (instant_to_itimerspec (it_mono i) (earliest_deadline (dv_loop d1)) (it_arm_now i))
                   else None)))"

fun run_epoll_loop :: "LoopFds \<Rightarrow> IterEnv list \<Rightarrow> Driver \<Rightarrow> Round" where
  "run_epoll_loop F [] d = Continued d None"
| "run_epoll_loop F (i # is) d =
    (case loop_round F i d of Continued d1 _ \<Rightarrow> run_epoll_loop F is d1 | r \<Rightarrow> r)"

text \<open>The start: the screen as it is, then the events that have queued up, each display event with a new look at the screen.\<close>

definition reconcile_start :: "SysFs \<Rightarrow> Instant \<Rightarrow> u64 \<Rightarrow> u64 \<Rightarrow> LoopState \<Rightarrow> DaemonContext \<Rightarrow> (LoopState \<times> DaemonContext) option" where
  "reconcile_start S now min_off_secs maint_secs st ctx =
    map_option (\<lambda>(st1, _). (st1, set_screen_off_since (ls_screen_off_since st1) ctx))
      (reduce (ReconcileScreen (get_screen_state S)) now min_off_secs maint_secs False st)"

fun startup_events ::
  "(UeventMessage \<times> Instant \<times> SysFs \<times> Instant) list \<Rightarrow> u64 \<Rightarrow> u64 \<Rightarrow> LoopState \<times> DaemonContext \<Rightarrow> (LoopState \<times> DaemonContext) option" where
  "startup_events [] min_off_secs maint_secs d = Some d"
| "startup_events ((ev, now, S, later) # rest) min_off_secs maint_secs (st, ctx) =
    (case reduce (Uevent ev) now min_off_secs maint_secs False st of
       None \<Rightarrow> None
     | Some (st1, actions) \<Rightarrow>
         (case (if ReconcileSysfs \<in> set actions then reconcile_start S later min_off_secs maint_secs st1 ctx else Some (st1, ctx)) of
            None \<Rightarrow> None
          | Some d1 \<Rightarrow> startup_events rest min_off_secs maint_secs d1))"

definition startup ::
  "Instant \<Rightarrow> SysFs \<Rightarrow> Instant \<Rightarrow> (UeventMessage \<times> Instant \<times> SysFs \<times> Instant) list \<Rightarrow> DaemonContext
    \<Rightarrow> (LoopState \<times> DaemonContext) option" where
  "startup now S later queued ctx =
    (let maint_secs = dc_maintenance_interval_secs (dx_config ctx);
         min_off_secs = dc_min_screen_off_secs (dx_config ctx)
     in case LoopState_new maint_secs now of
          None \<Rightarrow> None
        | Some st \<Rightarrow>
            (case reconcile_start S later min_off_secs maint_secs st ctx of
               None \<Rightarrow> None
             | Some d \<Rightarrow> startup_events queued min_off_secs maint_secs d))"

section \<open>The fallback loop\<close>

record FallbackEnv =
  fe_commands :: "(CmdEnv \<times> Command) list"
  fe_screen :: SysFs
  fe_screen_now :: Instant
  fe_elapsed_now :: Instant
  fe_trigger_now :: Instant
  fe_charger :: SysFs
  fe_thermal :: SysFs
  fe_spawned :: bool
  fe_started_now :: Instant

record Fallback =
  fb_last_maintenance :: Instant
  fb_screen_off_since :: "Instant option"
  fb_ctx :: DaemonContext

definition fallback_screen :: "ScreenState \<Rightarrow> Instant \<Rightarrow> Instant option \<times> DaemonContext \<Rightarrow> Instant option \<times> DaemonContext" where
  "fallback_screen screen now s =
    (case (screen, s) of
       (Off, None, ctx) \<Rightarrow> (Some now, ctx)
     | (On, _, ctx) \<Rightarrow>
         (None, if is_cleaning ctx then set_state (Preempted ''Screen turned ON'') (on_token cancel ctx) else ctx)
     | (_, since, ctx) \<Rightarrow> (since, ctx))"

definition fallback_round :: "FallbackEnv \<Rightarrow> Fallback \<Rightarrow> Fallback option" where
  "fallback_round e f =
    (if is_shutdown_requested (fb_ctx f) then None
     else
       (let ctx1 = run_commands (fe_commands e) (fb_ctx f);
            (since, ctx2) = fallback_screen (get_screen_state (fe_screen e)) (fe_screen_now e) (fb_screen_off_since f, ctx1);
            ctx3 = set_screen_off_since since ctx2;
            interval = from_secs (dc_maintenance_interval_secs (dx_config ctx3));
            due = (interval \<le> saturating_duration_since (fe_elapsed_now e) (fb_last_maintenance f));
            run = (due \<and> evaluate_triggers (fe_trigger_now e) (fe_charger e) (fe_thermal e) since ctx3 \<and>
                   \<not> is_cleaning ctx3 \<and> \<not> is_shutdown_requested ctx3)
        in Some \<lparr> fb_last_maintenance = (if run then fe_started_now e else fb_last_maintenance f),
                  fb_screen_off_since = since,
                  fb_ctx = (if run then spawn_maintenance_worker (fe_spawned e) ctx3 else ctx3) \<rparr>))"

definition fallback_start :: "Instant \<Rightarrow> SysFs \<Rightarrow> Instant \<Rightarrow> DaemonContext \<Rightarrow> Fallback" where
  "fallback_start now S later ctx =
    \<lparr> fb_last_maintenance = now, fb_screen_off_since = (if get_screen_state S = Off then Some later else None), fb_ctx = ctx \<rparr>"

section \<open>The timer is set for the future\<close>

definition not_before :: "Instant \<Rightarrow> Instant option \<Rightarrow> bool" where
  "not_before now d = (case d of None \<Rightarrow> True | Some t \<Rightarrow> now \<le> t)"

lemma not_before_simps [simp]: "not_before now None" "not_before now (Some t) \<longleftrightarrow> now \<le> t"
  by (simp_all add: not_before_def)

lemma earliest_not_past:
  "now \<le> earliest_deadline st \<longleftrightarrow>
    now \<le> ls_maintenance_deadline st \<and> not_before now (ls_screen_off_deadline st) \<and> not_before now (ls_retry_deadline st)"
  by (cases "ls_screen_off_deadline st"; cases "ls_retry_deadline st") (auto simp: earliest_deadline_def earlier_def)

lemma reduce_timer_not_past:
  "not_before now (ls_screen_off_deadline st) \<Longrightarrow> not_before now (ls_screen_off_deadline (fst (reduce_timer now st)))"
  by (auto simp: reduce_timer_def Let_def split: option.split)

lemma reduce_screen_not_past:
  assumes "now \<le> earliest_deadline st" and "reduce_screen sc now min_off_secs cleaning st = Some (st', actions)"
  shows "now \<le> earliest_deadline st'"
  using assms unfolding earliest_not_past
  by (cases sc) (auto simp: reduce_screen_def reset_retry_backoff_def Let_def instant_add_Some_iff split: option.splits if_splits)

lemma reduce_not_past:
  assumes "now \<le> earliest_deadline st" and "reduce ev now min_off_secs maint_secs cleaning st = Some (st', actions)"
  shows "now \<le> earliest_deadline st'"
proof (cases ev)
  case TimerExpired
  then have "st' = fst (reduce_timer now st)" using assms(2) by (simp add: reduce_def)
  then show ?thesis using assms(1) reduce_timer_not_past [of now st] unfolding earliest_not_past by simp
next
  case (Signal sg)
  then show ?thesis using assms unfolding earliest_not_past
    by (cases sg) (auto simp: reduce_def reset_retry_backoff_def instant_add_Some_iff split: option.splits)
next
  case (ReconcileScreen sc)
  then show ?thesis using assms reduce_screen_not_past by (simp add: reduce_def)
qed (use assms in \<open>auto simp: reduce_def earliest_not_past\<close>)

lemma success_not_past:
  assumes "now \<le> earliest_deadline st" and "on_maintenance_success now n st = Some st'"
  shows "now \<le> earliest_deadline st'"
  using assms unfolding earliest_not_past
  by (auto simp: on_maintenance_success_def reset_retry_backoff_def Let_def instant_add_Some_iff split: option.splits if_splits)

lemma postponed_not_past:
  assumes "now \<le> earliest_deadline st" and "on_maintenance_postponed now n st = Some st'"
  shows "now \<le> earliest_deadline st'"
  using assms unfolding earliest_not_past
  by (auto simp: on_maintenance_postponed_def Let_def instant_add_Some_iff split: option.splits if_splits)

lemma do_reconcile_cases:
  assumes "do_reconcile e now min_off_secs maint_secs d = Some d'"
  obtains st subs where
    "reduce (ReconcileScreen (get_screen_state (ae_screen e))) now min_off_secs maint_secs (is_cleaning (dv_ctx d)) (dv_loop d) =
      Some (st, subs)"
    "dv_loop d' = st" "dv_ctx d' = fold sub_action subs (set_screen_off_since (ls_screen_off_since st) (dv_ctx d))"
  using assms by (auto simp: do_reconcile_def split: option.splits)

lemma do_maintenance_cases:
  assumes "do_maintenance e now maint_secs d = Some d'"
  obtains (started) st where "on_maintenance_success now maint_secs (dv_loop d) = Some st" "dv_loop d' = st"
      "dv_ctx d' = spawn_maintenance_worker (ae_spawned e) (dv_ctx d)" "\<not> is_cleaning (dv_ctx d)" "\<not> is_shutdown_requested (dv_ctx d)"
      "evaluate_triggers (ae_trigger_now e) (ae_charger e) (ae_thermal e) (ls_screen_off_since (dv_loop d)) (dv_ctx d)"
  | (postponed) st where "on_maintenance_postponed now maint_secs (dv_loop d) = Some st" "dv_loop d' = st" "dv_ctx d' = dv_ctx d"
      "\<not> is_shutdown_requested (dv_ctx d)"
  | (stopping) "is_shutdown_requested (dv_ctx d)" "d' = d"
  using assms by (auto simp: do_maintenance_def Let_def split: if_splits)

lemma do_action_not_past:
  assumes "now \<le> earliest_deadline (dv_loop d)" and "do_action e now min_off_secs maint_secs a d = Some (b, d')"
  shows "now \<le> earliest_deadline (dv_loop d')"
proof (cases a)
  case ReconcileSysfs
  then have "do_reconcile e now min_off_secs maint_secs d = Some d'"
    using assms(2) by (auto simp: do_action_def)
  then show ?thesis
  proof (cases rule: do_reconcile_cases)
    case (1 st subs)
    then show ?thesis using reduce_not_past [OF assms(1)] by blast
  qed
next
  case RunMaintenance
  then have "do_maintenance e now maint_secs d = Some d'" using assms(2) by (auto simp: do_action_def)
  then show ?thesis
    using assms(1) by (cases rule: do_maintenance_cases) (auto intro: success_not_past postponed_not_past)
next
  case (ReclaimMemory level)
  moreover have "dv_loop (do_reclaim e level d) = dv_loop d" by (simp add: do_reclaim_def Let_def split: option.split)
  ultimately show ?thesis using assms by (auto simp: do_action_def)
qed (use assms in \<open>auto simp: do_action_def\<close>)

lemma do_actions_not_past:
  "now \<le> earliest_deadline (dv_loop d) \<Longrightarrow> do_actions e now min_off_secs maint_secs as d = Some (b, d') \<Longrightarrow>
    now \<le> earliest_deadline (dv_loop d')"
proof (induction as arbitrary: e d)
  case (Cons a as)
  then obtain b1 d1 where d1: "do_action (e 0) now min_off_secs maint_secs a d = Some (b1, d1)"
    by (auto split: option.splits)
  have le: "now \<le> earliest_deadline (dv_loop d1)" by (rule do_action_not_past [OF Cons.prems(1) d1])
  show ?case
  proof (cases b1)
    case True
    then show ?thesis using Cons.prems(2) d1 le by simp
  next
    case False
    then have "do_actions (\<lambda>n. e (Suc n)) now min_off_secs maint_secs as d1 = Some (b, d')" using Cons.prems(2) d1 by simp
    then show ?thesis by (rule Cons.IH [OF le])
  qed
qed simp

lemma process_event_not_past:
  assumes "now \<le> earliest_deadline (dv_loop d)" and "process_event e now min_off_secs maint_secs cleaning ev d = Some (b, d')"
  shows "now \<le> earliest_deadline (dv_loop d')"
proof -
  obtain st actions where st: "reduce ev now min_off_secs maint_secs cleaning (dv_loop d) = Some (st, actions)"
    using assms(2) by (auto simp: process_event_def split: option.splits)
  then have le: "now \<le> earliest_deadline st" using reduce_not_past [OF assms(1)] by blast
  have "do_actions e now min_off_secs maint_secs actions
      (d\<lparr>dv_loop := st, dv_ctx := set_screen_off_since (ls_screen_off_since st) (dv_ctx d)\<rparr>) = Some (b, d')"
    using assms(2) st by (simp add: process_event_def)
  from do_actions_not_past [OF _ this] le show ?thesis by simp
qed

lemma process_events_not_past:
  "now \<le> earliest_deadline (dv_loop d) \<Longrightarrow> process_events e now min_off_secs maint_secs cleaning evs d = Some (b, d') \<Longrightarrow>
    now \<le> earliest_deadline (dv_loop d')"
proof (induction evs arbitrary: e d)
  case (Cons ev evs)
  then obtain b1 d1 where d1: "process_event (e 0) now min_off_secs maint_secs cleaning ev d = Some (b1, d1)"
    by (auto split: option.splits)
  have le: "now \<le> earliest_deadline (dv_loop d1)" by (rule process_event_not_past [OF Cons.prems(1) d1])
  show ?case
  proof (cases b1)
    case True
    then show ?thesis using Cons.prems(2) d1 le by simp
  next
    case False
    then have "process_events (\<lambda>n. e (Suc n)) now min_off_secs maint_secs cleaning evs d1 = Some (b, d')"
      using Cons.prems(2) d1 by simp
    then show ?thesis by (rule Cons.IH [OF le])
  qed
qed simp

text \<open>A requested shutdown stays requested.\<close>

lemma run_commands_shutdown: "is_shutdown_requested ctx \<Longrightarrow> run_commands cs ctx = ctx"
  by (induction cs arbitrary: ctx rule: list.induct) (auto simp: handle_command_def)

lemma set_screen_off_since_frame [simp]:
  "is_shutdown_requested (set_screen_off_since since ctx) = is_shutdown_requested ctx"
  "is_cleaning (set_screen_off_since since ctx) = is_cleaning ctx"
  "dx_workers (set_screen_off_since since ctx) = dx_workers ctx" "dx_config (set_screen_off_since since ctx) = dx_config ctx"
  "dx_engine (set_screen_off_since since ctx) = dx_engine ctx"
  "dx_cancel_token (set_screen_off_since since ctx) = dx_cancel_token ctx"
  by (simp_all add: ctx_defs)

lemma sub_action_frame [simp]:
  "is_shutdown_requested (sub_action a ctx) = is_shutdown_requested ctx"
  "is_cleaning (sub_action a ctx) = is_cleaning ctx" "dx_workers (sub_action a ctx) = dx_workers ctx"
  "dx_config (sub_action a ctx) = dx_config ctx" "dx_engine (sub_action a ctx) = dx_engine ctx"
  by (cases a; simp add: sub_action_def preempt_def ctx_defs)+

lemma fold_sub_action_frame [simp]:
  "is_shutdown_requested (fold sub_action as ctx) = is_shutdown_requested ctx"
  "is_cleaning (fold sub_action as ctx) = is_cleaning ctx" "dx_workers (fold sub_action as ctx) = dx_workers ctx"
  by (induction as arbitrary: ctx) simp_all

lemma do_reclaim_frame [simp]:
  "is_shutdown_requested (dv_ctx (do_reclaim e level d)) = is_shutdown_requested (dv_ctx d)"
  "dx_workers (dv_ctx (do_reclaim e level d)) = dx_workers (dv_ctx d)"
  by (auto simp: do_reclaim_def ctx_defs Let_def split: option.split)

lemma do_action_shutdown:
  assumes "is_shutdown_requested (dv_ctx d)" and "do_action e now min_off_secs maint_secs a d = Some (b, d')"
  shows "is_shutdown_requested (dv_ctx d')"
proof (cases a)
  case ReconcileSysfs
  then obtain d1 where "do_reconcile e now min_off_secs maint_secs d = Some d1" "d' = d1"
    using assms(2) by (auto simp: do_action_def)
  then show ?thesis using assms(1) by (elim do_reconcile_cases) simp
next
  case HandleIpc
  then show ?thesis using assms by (auto simp: do_action_def run_commands_shutdown)
next
  case ReloadConfigAction
  then show ?thesis using assms
    by (auto simp: do_action_def reload_config_def Let_def is_shutdown_requested_def split: sum.split option.split)
next
  case RunMaintenance
  then show ?thesis using assms by (auto simp: do_action_def do_maintenance_def Let_def split: if_splits)
next
  case (ReclaimMemory level)
  then show ?thesis using assms by (auto simp: do_action_def)
qed (use assms in \<open>auto simp: do_action_def preempt_def ctx_defs\<close>)

lemma do_actions_shutdown:
  "is_shutdown_requested (dv_ctx d) \<Longrightarrow> do_actions e now min_off_secs maint_secs as d = Some (b, d') \<Longrightarrow>
    is_shutdown_requested (dv_ctx d')"
proof (induction as arbitrary: e d)
  case (Cons a as)
  then obtain b1 d1 where d1: "do_action (e 0) now min_off_secs maint_secs a d = Some (b1, d1)"
    by (auto split: option.splits)
  have st: "is_shutdown_requested (dv_ctx d1)" by (rule do_action_shutdown [OF Cons.prems(1) d1])
  show ?case
  proof (cases b1)
    case True
    then show ?thesis using Cons.prems(2) d1 st by simp
  next
    case False
    then have "do_actions (\<lambda>n. e (Suc n)) now min_off_secs maint_secs as d1 = Some (b, d')" using Cons.prems(2) d1 by simp
    then show ?thesis by (rule Cons.IH [OF st])
  qed
qed simp

lemma process_events_shutdown:
  "is_shutdown_requested (dv_ctx d) \<Longrightarrow> process_events e now min_off_secs maint_secs cleaning evs d = Some (b, d') \<Longrightarrow>
    is_shutdown_requested (dv_ctx d')"
proof (induction evs arbitrary: e d)
  case (Cons ev evs)
  then obtain b1 d1 where d1: "process_event (e 0) now min_off_secs maint_secs cleaning ev d = Some (b1, d1)"
    by (auto split: option.splits)
  then obtain st actions where "do_actions (e 0) now min_off_secs maint_secs actions
      (d\<lparr>dv_loop := st, dv_ctx := set_screen_off_since (ls_screen_off_since st) (dv_ctx d)\<rparr>) = Some (b1, d1)"
    by (auto simp: process_event_def split: option.splits)
  from do_actions_shutdown [OF _ this] have st: "is_shutdown_requested (dv_ctx d1)" using Cons.prems(1) by simp
  show ?case
  proof (cases b1)
    case True
    then show ?thesis using Cons.prems(2) d1 st by simp
  next
    case False
    then have "process_events (\<lambda>n. e (Suc n)) now min_off_secs maint_secs cleaning evs d1 = Some (b, d')"
      using Cons.prems(2) d1 by simp
    then show ?thesis by (rule Cons.IH [OF st])
  qed
qed simp

lemma timer_event_settles:
  assumes "0 < maint_secs" and "loop_ok (dv_loop d)" and "\<not> is_shutdown_requested (dv_ctx d')"
    and "process_event e now min_off_secs maint_secs cleaning TimerExpired d = Some (b, d')"
  shows "now \<le> earliest_deadline (dv_loop d')"
proof -
  let ?st = "fst (reduce_timer now (dv_loop d))"
  let ?d = "d\<lparr>dv_loop := ?st, dv_ctx := set_screen_off_since (ls_screen_off_since ?st) (dv_ctx d)\<rparr>"
  have run: "do_actions e now min_off_secs maint_secs (snd (reduce_timer now (dv_loop d))) ?d = Some (b, d')"
    using assms(4) by (simp add: process_event_def reduce_def split: prod.splits)
  note settles = handle_timer_settles(1) [OF assms(1,2)]
  show ?thesis
  proof (cases "snd (reduce_timer now (dv_loop d)) = []")
    case True
    then have "handle_timer True now maint_secs (dv_loop d) = Some ?st" by (simp add: handle_timer_def case_prod_beta)
    moreover have "dv_loop d' = ?st" using run unfolding True by auto
    ultimately show ?thesis using settles by metis
  next
    case False
    then have act: "snd (reduce_timer now (dv_loop d)) = [RunMaintenance]" by (simp add: reduce_timer_due split: if_splits)
    have "do_maintenance (e 0) now maint_secs ?d = Some d'"
      using run unfolding act by (auto simp: do_action_def split: option.splits)
    then show ?thesis
    proof (cases rule: do_maintenance_cases)
      case (started st)
      then have "handle_timer True now maint_secs (dv_loop d) = Some st" by (simp add: handle_timer_def case_prod_beta act)
      then show ?thesis using settles started(2) by metis
    next
      case (postponed st)
      then have "handle_timer False now maint_secs (dv_loop d) = Some st" by (simp add: handle_timer_def case_prod_beta act)
      then show ?thesis using settles postponed(2) by metis
    next
      case stopping
      then show ?thesis using assms(3) by (simp only: not_True_eq_False)
    qed
  qed
qed

text \<open>C25.  A wake-up in which the timer has expired leaves no deadline in the past, whatever else arrived with it and whether the
  maintenance was started or postponed, so that the timer is set for the future and the loop does not spin; unless a
  shutdown is requested, which ends the loop.\<close>

theorem wakeup_settles_deadlines:
  assumes "config_agrees (dv_ctx d)" and "loop_ok (dv_loop d)"
    and "process_events e now min_off_secs (dc_maintenance_interval_secs (dx_config (dv_ctx d))) cleaning (TimerExpired # evs) d =
      Some (False, d')"
  shows "is_shutdown_requested (dv_ctx d') \<or> now \<le> earliest_deadline (dv_loop d')"
proof (rule disjCI)
  let ?n = "dc_maintenance_interval_secs (dx_config (dv_ctx d))"
  assume live: "\<not> now \<le> earliest_deadline (dv_loop d')"
  have pos: "0 < ?n"
    using assms(1) by (auto simp: config_agrees_def validate_def word_gt_0 split: if_splits)
  obtain d1 where d1: "process_event (e 0) now min_off_secs ?n cleaning TimerExpired d = Some (False, d1)"
    "process_events (\<lambda>n. e (Suc n)) now min_off_secs ?n cleaning evs d1 = Some (False, d')"
    using assms(3) by (auto split: option.splits bool.splits)
  show "is_shutdown_requested (dv_ctx d')"
  proof (rule ccontr)
    assume "\<not> is_shutdown_requested (dv_ctx d')"
    then have "\<not> is_shutdown_requested (dv_ctx d1)" using process_events_shutdown d1(2) by blast
    then have "now \<le> earliest_deadline (dv_loop d1)" using timer_event_settles [OF pos assms(2) _ d1(1)] by blast
    then show False using process_events_not_past [OF _ d1(2)] live by blast
  qed
qed

definition quiet_sysfs :: SysFs where
  "quiet_sysfs = \<lparr> sy_exists = (\<lambda>_. False), sy_is_dir = (\<lambda>_. False), sy_read_dir = (\<lambda>_. None), sy_content = (\<lambda>_. None),
     sy_command = (\<lambda>_. None), sy_libc_property = (\<lambda>_. None) \<rparr>"

definition quiet_act :: ActEnv where
  "quiet_act = \<lparr> ae_trigger_now = 0, ae_charger = quiet_sysfs, ae_thermal = quiet_sysfs, ae_spawned = True, ae_screen = quiet_sysfs,
     ae_respond_now = 0, ae_respond_later = 0, ae_memory = (\<lambda>_. quiet_sysfs), ae_write_ok = (\<lambda>_ _ _. False),
     ae_parse_file = (\<lambda>_. Inl (Io 2)), ae_path_exists = (\<lambda>_. False), ae_error_text = (\<lambda>_. []), ae_commands = [] \<rparr>"

definition idle_driver :: "LoopState \<Rightarrow> Driver" where
  "idle_driver st = \<lparr> dv_loop = st, dv_ctx = idle_daemon, dv_psi = None, dv_effects = [] \<rparr>"

lemma idle_daemon_agrees: "config_agrees idle_daemon"
  by (simp add: config_agrees_def idle_daemon_def DaemonContext_new_def new_pipeline_def validate_def bare_config_def
      DaemonConfig_default_def f32_lt_def)

lemma idle_daemon_config: "dx_config idle_daemon = bare_config"
  by (simp add: idle_daemon_def DaemonContext_new_def)

lemma settled_ok: "loop_ok settled_state"
  by (simp add: loop_ok_def settled_state_def backoff_values_def)

lemma screen_required: "\<not> evaluate_triggers now charger thermal None idle_daemon"
  by (simp add: evaluate_triggers_def idle_daemon_config bare_config_def DaemonConfig_default_def Let_def)

definition screen_on_state :: LoopState where
  "screen_on_state = settled_state\<lparr>ls_screen_state := On, ls_screen_off_since := None\<rparr>"

lemma screen_on_ok: "loop_ok screen_on_state"
  by (simp add: loop_ok_def screen_on_state_def settled_state_def backoff_values_def)

theorem wakeup_settles_deadlines_witness:
  "\<exists>d'. process_events (\<lambda>_ _. quiet_act) 100 60 (dc_maintenance_interval_secs (dx_config (dv_ctx (idle_driver screen_on_state)))) False
       [TimerExpired] (idle_driver screen_on_state) = Some (False, d') \<and>
     (is_shutdown_requested (dv_ctx d') \<or> 100 \<le> earliest_deadline (dv_loop d'))"
proof -
  have cfg: "dc_maintenance_interval_secs (dx_config (dv_ctx (idle_driver screen_on_state))) =
      dc_maintenance_interval_secs bare_config" by (simp add: idle_driver_def idle_daemon_config)
  have ev: "\<not> evaluate_triggers now charger thermal None (set_screen_off_since None idle_daemon)" for now charger thermal
    using screen_required [of now charger thermal] by (simp add: evaluate_triggers_def)
  obtain d' where run: "process_events (\<lambda>_ _. quiet_act) 100 60
      (dc_maintenance_interval_secs (dx_config (dv_ctx (idle_driver screen_on_state)))) False [TimerExpired]
      (idle_driver screen_on_state) = Some (False, d')"
    unfolding cfg
    by (simp add: process_event_def reduce_def reduce_timer_def Let_def idle_driver_def screen_on_state_def settled_state_def
        do_action_def do_maintenance_def ev idle_daemon_free on_maintenance_postponed_def instant_add_def from_secs_def bare_config_def DaemonConfig_default_def)
  have "config_agrees (dv_ctx (idle_driver screen_on_state))" "loop_ok (dv_loop (idle_driver screen_on_state))"
    by (simp_all add: idle_driver_def idle_daemon_agrees screen_on_ok)
  from wakeup_settles_deadlines [OF this run] run show ?thesis by blast
qed

section \<open>When maintenance starts\<close>

text \<open>C11.  A maintenance thread is started only when no cleaning runs, no shutdown is requested, the screen has been off for the
  configured time if that is required, the charger is connected if that is required, and neither temperature, as far as
  it can be read, is above its limit; the state then reads \<open>CleaningScheduled\<close> and the token is clear.\<close>

theorem maintenance_start_conditions:
  assumes "do_maintenance e now maint_secs d = Some d'" and "dx_workers (dv_ctx d') \<noteq> dx_workers (dv_ctx d)"
  shows "\<not> is_cleaning (dv_ctx d) \<and> \<not> is_shutdown_requested (dv_ctx d) \<and>
    (let cfg = dx_config (dv_ctx d); thermal = read_thermal (ae_thermal e) in
     (dc_require_screen_off cfg \<longrightarrow> (\<exists>since. ls_screen_off_since (dv_loop d) = Some since \<and>
        unat (dc_min_screen_off_secs cfg) * 1000000000 \<le> nat (ae_trigger_now e - since))) \<and>
     (dc_require_charging_for_deep_clean cfg \<longrightarrow> get_charger_state (ae_charger e) \<in> {Charging, Full}) \<and>
     \<not> f32_lt (dc_max_soc_temp_c cfg) (tr_max_soc_temp_c thermal) \<and>
     \<not> f32_lt (dc_max_battery_temp_c cfg) (tr_battery_temp_c thermal)) \<and>
    dx_workers (dv_ctx d') = dx_workers (dv_ctx d) @ [ScheduledWorker (maintenance_params (dx_config (dv_ctx d)))] \<and>
    get_state (dv_ctx d') = CleaningScheduled \<and> \<not> is_cancelled (dx_cancel_token (dv_ctx d'))"
  using assms(1)
proof (cases rule: do_maintenance_cases)
  case (started st)
  have w: "dx_workers (dv_ctx d') = dx_workers (dv_ctx d) @ [ScheduledWorker (maintenance_params (dx_config (dv_ctx d)))]"
    "get_state (dv_ctx d') = CleaningScheduled" "\<not> is_cancelled (dx_cancel_token (dv_ctx d'))"
    using started(3-5) assms(2)
    by (auto simp: spawn_maintenance_worker_def ctx_defs get_state_def is_cancelled_def reset_def reset_steps_def split: if_splits)
  from started(6) have "case ls_screen_off_since (dv_loop d) of None \<Rightarrow> \<not> dc_require_screen_off (dx_config (dv_ctx d))
      | Some since \<Rightarrow> dc_require_screen_off (dx_config (dv_ctx d)) \<longrightarrow>
          from_secs (dc_min_screen_off_secs (dx_config (dv_ctx d))) \<le> nat (ae_trigger_now e - since)"
    by (auto simp: evaluate_triggers_def saturating_duration_since_def Let_def split: option.splits)
  with started(4-6) w show ?thesis
    by (auto simp: evaluate_triggers_def Let_def from_secs_def split: option.splits)
qed (use assms(2) in auto)

theorem maintenance_start_conditions_witness:
  "\<exists>d'. do_maintenance (quiet_act\<lparr>ae_trigger_now := 10 ^ 15\<rparr>) (10 ^ 15) 3600
      (idle_driver (settled_state\<lparr>ls_maintenance_deadline := 5\<rparr>)\<lparr>dv_ctx := idle_daemon\<lparr>dx_config := bare_config\<lparr>
        dc_require_charging_for_deep_clean := False\<rparr>\<rparr>\<rparr>) = Some d' \<and> get_state (dv_ctx d') = CleaningScheduled"
proof -
  let ?e = "quiet_act\<lparr>ae_trigger_now := 10 ^ 15\<rparr>"
  let ?ctx = "idle_daemon\<lparr>dx_config := bare_config\<lparr>dc_require_charging_for_deep_clean := False\<rparr>\<rparr>"
  let ?d = "idle_driver (settled_state\<lparr>ls_maintenance_deadline := 5\<rparr>)\<lparr>dv_ctx := ?ctx\<rparr>"
  have thermal: "read_thermal quiet_sysfs = \<lparr> tr_max_soc_temp_c = Fin 0, tr_battery_temp_c = Fin 0 \<rparr>"
    by (simp add: read_thermal_def quiet_sysfs_def entries_of_def battery_temp_def temp_in_def read_file_to_buf_def)
  have ev: "evaluate_triggers (10 ^ 15) quiet_sysfs quiet_sysfs (Some 0) ?ctx"
    by (simp add: evaluate_triggers_def thermal bare_config_def DaemonConfig_default_def saturating_duration_since_def from_secs_def
        f32_lt_def Let_def)
  obtain d' where run: "do_maintenance ?e (10 ^ 15) 3600 ?d = Some d'"
    and w: "dx_workers (dv_ctx d') \<noteq> dx_workers (dv_ctx ?d)"
    using ev idle_daemon_free
    by (simp add: do_maintenance_def idle_driver_def settled_state_def quiet_act_def Let_def on_maintenance_success_def
        instant_add_def from_secs_def spawn_maintenance_worker_def ctx_defs)
  from maintenance_start_conditions [OF this] run show ?thesis by blast
qed

section \<open>The screen goes on\<close>

text \<open>C12.  Turning on the screen stops a running cleaning: when a display event arrives while a cleaning runs and the device says
  that the screen, not known to be on before, is on, then after the event the token is cancelled, with the reason
  \<open>ScreenOn\<close> unless it was cancelled for another reason before, the state reads \<open>Preempted\<close> and the screen-off time is
  gone.\<close>

theorem screen_on_preempts:
  assumes "uev_subsystem ev \<in> {''backlight'', ''leds'', ''graphics'', ''drm'', ''power_supply''}"
    and "get_screen_state (ae_screen (e 0)) = On" and "ls_screen_state (dv_loop d) \<noteq> On" and "is_cleaning (dv_ctx d)"
  shows "\<exists>d'. process_event e now min_off_secs maint_secs cleaning (Uevent ev) d = Some (False, d') \<and>
    is_cancelled (dx_cancel_token (dv_ctx d')) \<and> get_state (dv_ctx d') = Preempted ''Screen turned ON'' \<and>
    (if reason_code (dx_cancel_token (dv_ctx d)) = 0
     then get_cancel_reason (dx_cancel_token (dv_ctx d')) = Some CancelReason.ScreenOn
     else get_cancel_reason (dx_cancel_token (dv_ctx d')) = get_cancel_reason (dx_cancel_token (dv_ctx d))) \<and>
    rt_screen_off_since (dx_runtime (dv_ctx d')) = None \<and> ls_screen_state (dv_loop d') = On"
proof -
  let ?st = "reset_retry_backoff ((dv_loop d)\<lparr>ls_uevent_ok := True, ls_screen_state := On, ls_screen_off_since := None,
    ls_screen_off_deadline := None\<rparr>)"
  let ?ctx = "preempt ''Screen turned ON'' (set_screen_off_since None (set_screen_off_since (ls_screen_off_since (dv_loop d)) (dv_ctx d)))"
  have "uev_subsystem ev \<in> set display_subsystems" using assms(1) by (simp add: display_subsystems_def)
  then have "process_event e now min_off_secs maint_secs cleaning (Uevent ev) d = Some (False, d\<lparr>dv_loop := ?st, dv_ctx := ?ctx\<rparr>)"
    using assms(2-4)
    by (simp add: process_event_def reduce_def do_action_def do_reconcile_def reduce_screen_def Let_def sub_action_def
        reset_retry_backoff_def)
  moreover have one: "from_code 1 = Some CancelReason.ScreenOn" by (simp add: from_code_def)
  ultimately show ?thesis
    by (intro exI conjI) (auto simp: preempt_def ctx_defs is_cancelled_def get_state_def get_cancel_reason_def
        cancel_with_reason_def cancel_with_reason_steps_def reset_retry_backoff_def one)
qed

definition screen_on_fs :: SysFs where
  "screen_on_fs = quiet_sysfs\<lparr>sy_command := (\<lambda>cmd. if cmd = [''dumpsys'', ''display''] then Some ''state=ON'' else None)\<rparr>"

lemma screen_on_fs_on: "get_screen_state screen_on_fs = On"
  by (simp add: get_screen_state_def screen_on_fs_def quiet_sysfs_def entries_of_def blank_state_def read_file_to_buf_def
      dumpsys_state_def)

definition drm_event :: UeventMessage where
  "drm_event = \<lparr> uev_action = ''change'', uev_devpath = ''/d'', uev_subsystem = ''drm'', uev_properties = Map.empty \<rparr>"

theorem screen_on_preempts_witness:
  "\<exists>d'. process_event (\<lambda>_. quiet_act\<lparr>ae_screen := screen_on_fs\<rparr>) 7 60 3600 True (Uevent drm_event)
      (idle_driver settled_state\<lparr>dv_ctx := spawn_maintenance_worker True idle_daemon\<rparr>) = Some (False, d') \<and>
     is_cancelled (dx_cancel_token (dv_ctx d'))"
proof -
  let ?d = "idle_driver settled_state\<lparr>dv_ctx := spawn_maintenance_worker True idle_daemon\<rparr>"
  let ?e = "\<lambda>_ :: nat. quiet_act\<lparr>ae_screen := screen_on_fs\<rparr>"
  have 1: "uev_subsystem drm_event \<in> {''backlight'', ''leds'', ''graphics'', ''drm'', ''power_supply''}"
    by (simp add: drm_event_def)
  have 2: "get_screen_state (ae_screen (?e 0)) = On" by (simp add: screen_on_fs_on)
  have 3: "ls_screen_state (dv_loop ?d) \<noteq> On" by (simp add: idle_driver_def settled_state_def)
  have 4: "is_cleaning (dv_ctx ?d)"
    using idle_daemon_free by (simp add: spawn_maintenance_worker_def ctx_defs)
  from screen_on_preempts [OF 1 2 3 4] show ?thesis by blast
qed

end
