(* ===== verification/Pid_Lock.thy ===== *)
theory Pid_Lock
  imports Psi Daemon_Config
begin

text \<open>
  The lock that keeps a second daemon from starting (\<open>system/pidfile.rs\<close>).  The state is what the calls touch: the names of
  the files, their content and the holder of the advisory lock of each file; a lock belongs to the file (its inode) and not to
  the name.  Every call of the system may fail by an answer of the environment.  Creating the run directory is not
  part of the state: a directory that is missing shows as a failing open.  The lemmas show that a later start and the
  status query are told the process id of the daemon that holds the lock, that at most one daemon serves as long as no
  daemon removes the lock file, in every interleaving of the single calls and with crashes, and that the removal at the end
  of a daemon allows two daemons to serve at once.
\<close>

section \<open>Files and locks\<close>

definition PID_PATH :: string where "PID_PATH = ''/data/adb/cleaner/run/cleaner.pid''"

definition LOCK_PATH :: string where "LOCK_PATH = ''/data/adb/cleaner/run/cleaner_daemon.lock''"

record PathPair =
  pp_lock_path :: string
  pp_pid_path :: string

definition CANDIDATE_PATHS :: "PathPair list" where
  "CANDIDATE_PATHS =
    [\<lparr> pp_lock_path = LOCK_PATH, pp_pid_path = PID_PATH \<rparr>,
     \<lparr> pp_lock_path = ''/tmp/cleaner_daemon.lock'', pp_pid_path = ''/tmp/cleaner.pid'' \<rparr>]"

text \<open>The lock file is named by its inode.\<close>

record PidLock =
  pk_lock_file :: nat
  pk_lock_path :: string
  pk_pid_path :: string

record LockFs =
  lf_names :: "string \<Rightarrow> nat option"
  lf_text :: "nat \<Rightarrow> string"
  lf_holder :: "nat \<Rightarrow> nat option"
  lf_next :: nat

text \<open>The answers of the system to one call of the program: the error of an open, of the lock (other than that somebody else
  holds it) and of a write, whether a file can be read or removed, and the process id.\<close>

record LockEnv =
  le_open :: "string \<Rightarrow> errno option"
  le_flock :: "errno option"
  le_write :: "errno option"
  le_readable :: "string \<Rightarrow> bool"
  le_removable :: "string \<Rightarrow> bool"
  le_pid :: u32
  le_is_root :: bool

definition open_create :: "string \<Rightarrow> LockFs \<Rightarrow> nat \<times> LockFs" where
  "open_create path fs =
    (case lf_names fs path of
       Some i \<Rightarrow> (i, fs)
     | None \<Rightarrow> (lf_next fs, fs\<lparr>lf_names := (lf_names fs)(path \<mapsto> lf_next fs), lf_text := (lf_text fs)(lf_next fs := []),
                              lf_next := lf_next fs + 1\<rparr>))"

definition take_lock :: "nat \<Rightarrow> nat \<Rightarrow> LockFs \<Rightarrow> LockFs" where
  "take_lock i d fs = fs\<lparr>lf_holder := (lf_holder fs)(i \<mapsto> d)\<rparr>"

definition release :: "nat \<Rightarrow> LockFs \<Rightarrow> LockFs" where
  "release d fs = fs\<lparr>lf_holder := (\<lambda>i. if lf_holder fs i = Some d then None else lf_holder fs i)\<rparr>"

definition flock_error :: "LockEnv \<Rightarrow> nat \<Rightarrow> nat \<Rightarrow> LockFs \<Rightarrow> errno option" where
  "flock_error e i d fs =
    (case le_flock e of
       Some err \<Rightarrow> Some err
     | None \<Rightarrow> (case lf_holder fs i of Some c \<Rightarrow> if c = d then None else Some EAGAIN | None \<Rightarrow> None))"

definition remove_file :: "LockEnv \<Rightarrow> string \<Rightarrow> LockFs \<Rightarrow> LockFs" where
  "remove_file e path fs = (if le_removable e path then fs\<lparr>lf_names := (lf_names fs)(path := None)\<rparr> else fs)"

definition read_text :: "LockEnv \<Rightarrow> string \<Rightarrow> LockFs \<Rightarrow> string option" where
  "read_text e path fs =
    (case lf_names fs path of
       Some i \<Rightarrow> if le_readable e path \<and> is_utf8 (lf_text fs i) then Some (lf_text fs i) else None
     | None \<Rightarrow> None)"

section \<open>Acquiring and releasing\<close>

text \<open>The pid file is opened with truncation, then the line is written; a failing write leaves it empty.\<close>

definition write_pid :: "LockEnv \<Rightarrow> string \<Rightarrow> LockFs \<Rightarrow> (unit, CleanerError) result \<times> LockFs" where
  "write_pid e pid_path fs =
    (case le_open e pid_path of
       Some err \<Rightarrow> (Inl (Io err), fs)
     | None \<Rightarrow>
         (case open_create pid_path fs of (i, fs1) \<Rightarrow>
            (case le_write e of
               Some err \<Rightarrow> (Inl (Io err), fs1\<lparr>lf_text := (lf_text fs1)(i := [])\<rparr>)
             | None \<Rightarrow> (Inr (), fs1\<lparr>lf_text := (lf_text fs1)(i := decimal (unat (le_pid e)) @ [newline])\<rparr>))))"

definition reported_pid :: "LockEnv \<Rightarrow> string \<Rightarrow> LockFs \<Rightarrow> u32" where
  "reported_pid e pid_path fs =
    (case read_text e pid_path fs of Some content \<Rightarrow> unwrap_or (parse_word (trim content)) 0 | None \<Rightarrow> 0)"

definition try_lock_paths :: "LockEnv \<Rightarrow> nat \<Rightarrow> string \<Rightarrow> string \<Rightarrow> LockFs \<Rightarrow> (PidLock, CleanerError) result \<times> LockFs" where
  "try_lock_paths e d lock_path pid_path fs =
    (case le_open e lock_path of
       Some err \<Rightarrow> (Inl (Io err), fs)
     | None \<Rightarrow>
         (case open_create lock_path fs of (i, fs1) \<Rightarrow>
            (case flock_error e i d fs1 of
               Some err \<Rightarrow>
                 if err = EAGAIN then (Inl (DaemonAlreadyRunning (reported_pid e pid_path fs1)), fs1)
                 else (Inl (Io err), fs1)
             | None \<Rightarrow>
                 (case write_pid e pid_path (take_lock i d fs1) of
                    (Inl err, fs2) \<Rightarrow> (Inl err, release d fs2)
                  | (Inr _, fs2) \<Rightarrow> (Inr \<lparr> pk_lock_file = i, pk_lock_path = lock_path, pk_pid_path = pid_path \<rparr>, fs2)))))"

fun acquire_from :: "LockEnv \<Rightarrow> nat \<Rightarrow> PathPair list \<Rightarrow> CleanerError option \<Rightarrow> LockFs \<Rightarrow> (PidLock, CleanerError) result \<times> LockFs" where
  "acquire_from e d [] last_err fs =
    (Inl (unwrap_or last_err (OtherError (''Failed to acquire PID lock on mandatory path '' @ LOCK_PATH))), fs)"
| "acquire_from e d (c # cs) last_err fs =
    (case try_lock_paths e d (pp_lock_path c) (pp_pid_path c) fs of
       (Inr lock, fs1) \<Rightarrow> (Inr lock, fs1)
     | (Inl (DaemonAlreadyRunning pid), fs1) \<Rightarrow> (Inl (DaemonAlreadyRunning pid), fs1)
     | (Inl err, fs1) \<Rightarrow> acquire_from e d cs (Some err) fs1)"

definition PidLock_acquire :: "LockEnv \<Rightarrow> nat \<Rightarrow> LockFs \<Rightarrow> (PidLock, CleanerError) result \<times> LockFs" where
  "PidLock_acquire e d fs =
    acquire_from e d (if le_is_root e then take 1 CANDIDATE_PATHS else CANDIDATE_PATHS) None fs"

definition PidLock_drop :: "LockEnv \<Rightarrow> nat \<Rightarrow> PidLock \<Rightarrow> LockFs \<Rightarrow> LockFs" where
  "PidLock_drop e d lock fs = remove_file e (pk_lock_path lock) (remove_file e (pk_pid_path lock) (release d fs))"

section \<open>Asking for a running daemon\<close>

text \<open>\<open>kill(pid, 0)\<close> is an argument; the process id is cast to the signed type of the call.\<close>

definition is_process_alive :: "(int \<Rightarrow> errno option) \<Rightarrow> u32 \<Rightarrow> bool" where
  "is_process_alive kill pid =
    (if pid = 0 then False else case kill (sint pid) of None \<Rightarrow> True | Some err \<Rightarrow> err = EPERM)"

definition alive_pid :: "LockEnv \<Rightarrow> (int \<Rightarrow> errno option) \<Rightarrow> string \<Rightarrow> LockFs \<Rightarrow> u32 option" where
  "alive_pid e kill pid_path fs =
    (case read_text e pid_path fs of
       Some content \<Rightarrow> (case parse_word (trim content) of
          Some pid \<Rightarrow> if is_process_alive kill pid then Some pid else None
        | None \<Rightarrow> None)
     | None \<Rightarrow> None)"

text \<open>A lock that could be taken is given back at once, and then the pid is looked at all the same.\<close>

fun running_in :: "LockEnv \<Rightarrow> (int \<Rightarrow> errno option) \<Rightarrow> nat \<Rightarrow> PathPair list \<Rightarrow> LockFs \<Rightarrow> u32 option" where
  "running_in e kill d [] fs = None"
| "running_in e kill d (c # cs) fs =
    (case (case lf_names fs (pp_lock_path c) of
        Some i \<Rightarrow>
          if le_open e (pp_lock_path c) = None
          then (case flock_error e i d fs of
                  Some _ \<Rightarrow> alive_pid e kill (pp_pid_path c) fs
                | None \<Rightarrow> alive_pid e kill (pp_pid_path c) (release d (take_lock i d fs)))
          else None
      | None \<Rightarrow> None) of
       Some pid \<Rightarrow> Some pid
     | None \<Rightarrow> running_in e kill d cs fs)"

definition get_running_pid :: "LockEnv \<Rightarrow> (int \<Rightarrow> errno option) \<Rightarrow> nat \<Rightarrow> LockFs \<Rightarrow> u32 option" where
  "get_running_pid e kill d fs = running_in e kill d CANDIDATE_PATHS fs"

definition clean_stale :: "LockEnv \<Rightarrow> nat \<Rightarrow> PathPair \<Rightarrow> LockFs \<Rightarrow> LockFs" where
  "clean_stale e d c fs =
    (case lf_names fs (pp_lock_path c) of
       Some i \<Rightarrow>
         if le_open e (pp_lock_path c) = None \<and> flock_error e i d fs = None
         then remove_file e (pp_pid_path c) (remove_file e (pp_lock_path c) (release d (take_lock i d fs)))
         else fs
     | None \<Rightarrow> fs)"

definition clean_stale_pid_files :: "LockEnv \<Rightarrow> nat \<Rightarrow> LockFs \<Rightarrow> LockFs" where
  "clean_stale_pid_files e d fs = fold (clean_stale e d) CANDIDATE_PATHS fs"

section \<open>The calls of several processes, interleaved\<close>

text \<open>Where a process is between the calls of \<open>try_lock_paths\<close> and of the destructor; one action is one call.  A process that
  dies at any moment loses its locks.\<close>

datatype LockPhase = Starting | HasFile nat | HasLock nat | Serving nat | Unlocked | PidRemoved | Gone

datatype LockAct = OpenLock | LockFile | WritePid | Unlock | RemovePid | RemoveLock | Crash

record LockSys =
  lk_fs :: LockFs
  lk_phase :: "nat \<Rightarrow> LockPhase"

definition go :: "nat \<Rightarrow> LockPhase \<Rightarrow> LockFs \<Rightarrow> LockSys \<Rightarrow> LockSys" where
  "go d ph fs s = \<lparr> lk_fs = fs, lk_phase = (lk_phase s)(d := ph) \<rparr>"

fun lock_act :: "LockEnv \<Rightarrow> nat \<Rightarrow> LockAct \<Rightarrow> LockSys \<Rightarrow> LockSys option" where
  "lock_act e d OpenLock s =
    (case (lk_phase s d, open_create LOCK_PATH (lk_fs s)) of
       (Starting, (i, fs)) \<Rightarrow> Some (if le_open e LOCK_PATH = None then go d (HasFile i) fs s else go d Gone (lk_fs s) s)
     | _ \<Rightarrow> None)"
| "lock_act e d LockFile s =
    (case lk_phase s d of
       HasFile i \<Rightarrow> Some (if flock_error e i d (lk_fs s) = None then go d (HasLock i) (take_lock i d (lk_fs s)) s
                         else go d Gone (lk_fs s) s)
     | _ \<Rightarrow> None)"
| "lock_act e d WritePid s =
    (case (lk_phase s d, write_pid e PID_PATH (lk_fs s)) of
       (HasLock i, (Inr _, fs)) \<Rightarrow> Some (go d (Serving i) fs s)
     | (HasLock i, (Inl _, fs)) \<Rightarrow> Some (go d Gone (release d fs) s)
     | _ \<Rightarrow> None)"
| "lock_act e d Unlock s =
    (case lk_phase s d of Serving i \<Rightarrow> Some (go d Unlocked (release d (lk_fs s)) s) | _ \<Rightarrow> None)"
| "lock_act e d RemovePid s =
    (case lk_phase s d of Unlocked \<Rightarrow> Some (go d PidRemoved (remove_file e PID_PATH (lk_fs s)) s) | _ \<Rightarrow> None)"
| "lock_act e d RemoveLock s =
    (case lk_phase s d of PidRemoved \<Rightarrow> Some (go d Gone (remove_file e LOCK_PATH (lk_fs s)) s) | _ \<Rightarrow> None)"
| "lock_act e d Crash s = Some (go d Gone (release d (lk_fs s)) s)"

fun lock_acts :: "(LockEnv \<times> nat \<times> LockAct) list \<Rightarrow> LockSys \<Rightarrow> LockSys option" where
  "lock_acts [] s = Some s"
| "lock_acts ((e, d, a) # as) s = (case lock_act e d a s of Some s1 \<Rightarrow> lock_acts as s1 | None \<Rightarrow> None)"

definition before_start :: "LockFs \<Rightarrow> LockSys" where
  "before_start fs = \<lparr> lk_fs = fs, lk_phase = (\<lambda>_. Starting) \<rparr>"

lemmas lock_defs = go_def take_lock_def release_def remove_file_def

lemma lock_path_not_pid_path [simp]: "LOCK_PATH \<noteq> PID_PATH" "PID_PATH \<noteq> LOCK_PATH"
  by (simp_all add: LOCK_PATH_def PID_PATH_def)

text \<open>The calls of one process that nobody interrupts are the functions of the program.\<close>

lemma try_lock_paths_acts:
  assumes "lk_phase s d = Starting" and "try_lock_paths e d LOCK_PATH PID_PATH (lk_fs s) = (Inr lock, fs)"
  shows "lock_acts [(e, d, OpenLock), (e, d, LockFile), (e, d, WritePid)] s = Some (go d (Serving (pk_lock_file lock)) fs s)"
proof -
  obtain i fs1 where o: "open_create LOCK_PATH (lk_fs s) = (i, fs1)" by fastforce
  then have ok: "le_open e LOCK_PATH = None" "flock_error e i d fs1 = None"
    using assms(2) by (auto simp: try_lock_paths_def split: option.splits if_splits)
  obtain r fs2 where w: "write_pid e PID_PATH (take_lock i d fs1) = (r, fs2)" by fastforce
  have "r = Inr () \<and> fs = fs2 \<and> pk_lock_file lock = i"
    using assms(2) o ok w by (auto simp: try_lock_paths_def split: sum.splits)
  then show ?thesis using assms(1) o ok w by (simp add: go_def)
qed

lemma PidLock_drop_acts:
  assumes "lk_phase s d = Serving i"
  shows "lock_acts [(e, d, Unlock), (e, d, RemovePid), (e, d, RemoveLock)] s =
    Some (go d Gone (PidLock_drop e d \<lparr> pk_lock_file = i, pk_lock_path = LOCK_PATH, pk_pid_path = PID_PATH \<rparr> (lk_fs s)) s)"
  using assms by (simp add: go_def PidLock_drop_def)

section \<open>One daemon at a time\<close>

primrec file_of :: "LockPhase \<Rightarrow> nat option" where
  "file_of Starting = None"
| "file_of (HasFile i) = Some i"
| "file_of (HasLock i) = Some i"
| "file_of (Serving i) = Some i"
| "file_of Unlocked = None"
| "file_of PidRemoved = None"
| "file_of Gone = None"

primrec locked_file :: "LockPhase \<Rightarrow> nat option" where
  "locked_file Starting = None"
| "locked_file (HasFile i) = None"
| "locked_file (HasLock i) = Some i"
| "locked_file (Serving i) = Some i"
| "locked_file Unlocked = None"
| "locked_file PidRemoved = None"
| "locked_file Gone = None"

definition lock_inv :: "LockSys \<Rightarrow> bool" where
  "lock_inv s \<longleftrightarrow>
    (\<forall>d i. file_of (lk_phase s d) = Some i \<longrightarrow> lf_names (lk_fs s) LOCK_PATH = Some i) \<and>
    (\<forall>d i. locked_file (lk_phase s d) = Some i \<longrightarrow> lf_holder (lk_fs s) i = Some d)"

lemma open_create_props:
  assumes "open_create path fs = (i, fs1)"
  shows "lf_names fs1 path = Some i" "lf_holder fs1 = lf_holder fs"
    "path' \<noteq> path \<Longrightarrow> lf_names fs1 path' = lf_names fs path'" "lf_names fs path = Some j \<Longrightarrow> j = i"
  using assms by (auto simp: open_create_def split: option.splits)

lemma write_pid_keeps:
  assumes "write_pid e PID_PATH fs = (r, fs1)"
  shows "lf_names fs1 LOCK_PATH = lf_names fs LOCK_PATH" "lf_holder fs1 = lf_holder fs"
proof -
  obtain i fs2 where o: "open_create PID_PATH fs = (i, fs2)" by fastforce
  have "fs1 = fs \<or> (\<exists>t. fs1 = fs2\<lparr>lf_text := t\<rparr>)"
    using assms o by (auto simp: write_pid_def split: option.splits)
  then show "lf_names fs1 LOCK_PATH = lf_names fs LOCK_PATH" "lf_holder fs1 = lf_holder fs"
    using open_create_props(2) [OF o] open_create_props(3) [OF o lock_path_not_pid_path(1)] by auto
qed

lemma lock_inv_go:
  assumes "lock_inv s"
    and "\<And>i c. c \<noteq> d \<Longrightarrow> file_of (lk_phase s c) = Some i \<Longrightarrow> lf_names fs LOCK_PATH = Some i"
    and "\<And>i c. c \<noteq> d \<Longrightarrow> lf_holder (lk_fs s) i = Some c \<Longrightarrow> lf_holder fs i = Some c"
    and "\<And>i. file_of ph = Some i \<Longrightarrow> lf_names fs LOCK_PATH = Some i"
    and "\<And>i. locked_file ph = Some i \<Longrightarrow> lf_holder fs i = Some d"
  shows "lock_inv (go d ph fs s)"
  using assms unfolding lock_inv_def go_def by auto

lemma lock_inv_leave:
  assumes "lock_inv s" and "lf_names fs LOCK_PATH = lf_names (lk_fs s) LOCK_PATH"
    and "\<And>i c. c \<noteq> d \<Longrightarrow> lf_holder (lk_fs s) i = Some c \<Longrightarrow> lf_holder fs i = Some c"
    and "file_of ph = None" and "locked_file ph = None"
  shows "lock_inv (go d ph fs s)"
  using assms by (intro lock_inv_go) (auto simp: lock_inv_def)

lemma lock_act_inv:
  assumes inv: "lock_inv s" and act: "lock_act e d a s = Some s'" and "a \<noteq> RemoveLock"
  shows "lock_inv s'"
proof (cases a)
  case OpenLock
  obtain i fs where o: "open_create LOCK_PATH (lk_fs s) = (i, fs)" by fastforce
  note p = open_create_props [OF o]
  have "s' = go d (HasFile i) fs s \<or> s' = go d Gone (lk_fs s) s"
    using act OpenLock o by (auto split: LockPhase.splits if_splits)
  moreover have "lock_inv (go d (HasFile i) fs s)"
    using inv p by (intro lock_inv_go) (auto simp: lock_inv_def)
  moreover have "lock_inv (go d Gone (lk_fs s) s)" using inv by (intro lock_inv_leave) auto
  ultimately show ?thesis by blast
next
  case LockFile
  then obtain i where ph: "lk_phase s d = HasFile i" using act by (auto split: LockPhase.splits)
  then have name: "lf_names (lk_fs s) LOCK_PATH = Some i" using inv unfolding lock_inv_def by (metis file_of.simps(2))
  show ?thesis
  proof (cases "flock_error e i d (lk_fs s)")
    case None
    then have "lf_holder (lk_fs s) i = None \<or> lf_holder (lk_fs s) i = Some d"
      by (auto simp: flock_error_def split: option.splits if_splits)
    then have "lock_inv (go d (HasLock i) (take_lock i d (lk_fs s)) s)"
      using inv name by (intro lock_inv_go) (auto simp: lock_inv_def take_lock_def)
    then show ?thesis using act LockFile ph None by simp
  next
    case (Some err)
    have "lock_inv (go d Gone (lk_fs s) s)" using inv by (intro lock_inv_leave) auto
    then show ?thesis using act LockFile ph Some by simp
  qed
next
  case WritePid
  then obtain i where ph: "lk_phase s d = HasLock i" using act by (auto split: LockPhase.splits sum.splits prod.splits)
  obtain r fs where w: "write_pid e PID_PATH (lk_fs s) = (r, fs)" by fastforce
  note k = write_pid_keeps [OF w]
  have own: "lf_names (lk_fs s) LOCK_PATH = Some i" "lf_holder (lk_fs s) i = Some d"
    using inv ph unfolding lock_inv_def by (metis file_of.simps(3), metis locked_file.simps(3))
  show ?thesis
  proof (cases r)
    case (Inl err)
    have "lock_inv (go d Gone (release d fs) s)" using inv k by (intro lock_inv_leave) (auto simp: release_def)
    then show ?thesis using act WritePid ph w Inl by simp
  next
    case (Inr u)
    have "lock_inv (go d (Serving i) fs s)" using inv k own by (intro lock_inv_go) (auto simp: lock_inv_def)
    then show ?thesis using act WritePid ph w Inr by simp
  qed
next
  case Unlock
  have "lock_inv (go d Unlocked (release d (lk_fs s)) s)" using inv by (intro lock_inv_leave) (auto simp: release_def)
  then show ?thesis using act Unlock by (auto split: LockPhase.splits)
next
  case RemovePid
  have "lock_inv (go d PidRemoved (remove_file e PID_PATH (lk_fs s)) s)"
    using inv by (intro lock_inv_leave) (auto simp: remove_file_def)
  then show ?thesis using act RemovePid by (auto split: LockPhase.splits)
next
  case Crash
  have "lock_inv (go d Gone (release d (lk_fs s)) s)" using inv by (intro lock_inv_leave) (auto simp: release_def)
  then show ?thesis using act Crash by simp
qed (use assms(3) in simp)

lemma lock_acts_inv:
  "lock_acts as s = Some s' \<Longrightarrow> lock_inv s \<Longrightarrow> RemoveLock \<notin> (\<lambda>(e, d, a). a) ` set as \<Longrightarrow> lock_inv s'"
proof (induction as s rule: lock_acts.induct)
  case (2 e d a as s)
  then obtain s1 where s1: "lock_act e d a s = Some s1" "lock_acts as s1 = Some s'" by (auto split: option.splits)
  moreover have "lock_inv s1"
    using lock_act_inv [OF "2.prems"(2) s1(1)] "2.prems"(3) by auto
  ultimately show ?case using "2.IH" [of s1] "2.prems"(3) by auto
qed simp

lemma before_start_inv: "lock_inv (before_start fs)"
  by (simp add: lock_inv_def before_start_def)

lemma serving_unique:
  assumes "lock_inv s" and "lk_phase s c = Serving i" and "lk_phase s d = Serving j"
  shows "c = d \<and> i = j"
proof -
  have "lf_names (lk_fs s) LOCK_PATH = Some i" "lf_names (lk_fs s) LOCK_PATH = Some j"
    "lf_holder (lk_fs s) i = Some c" "lf_holder (lk_fs s) j = Some d"
    using assms unfolding lock_inv_def by (metis file_of.simps(4) locked_file.simps(4))+
  then show ?thesis by simp
qed


definition no_files :: LockFs where
  "no_files = \<lparr> lf_names = (\<lambda>_. None), lf_text = (\<lambda>_. []), lf_holder = (\<lambda>_. None), lf_next = 0 \<rparr>"

definition root_env :: LockEnv where
  "root_env = \<lparr> le_open = (\<lambda>_. None), le_flock = None, le_write = None, le_readable = (\<lambda>_. True), le_removable = (\<lambda>_. True),
     le_pid = 7, le_is_root = True \<rparr>"

definition start_acts :: "nat \<Rightarrow> (LockEnv \<times> nat \<times> LockAct) list" where
  "start_acts d = [(root_env, d, OpenLock), (root_env, d, LockFile), (root_env, d, WritePid)]"

lemmas lock_eval = start_acts_def root_env_def no_files_def before_start_def lock_defs open_create_def flock_error_def write_pid_def


lemma lock_acts_append: "lock_acts (as @ bs) s = (case lock_acts as s of Some s1 \<Rightarrow> lock_acts bs s1 | None \<Rightarrow> None)"
  by (induction as s rule: lock_acts.induct) (auto split: option.splits)

text \<open>An uninterrupted start with a lock that is free.\<close>

definition free_lock :: "nat \<Rightarrow> LockFs \<Rightarrow> bool" where
  "free_lock i fs \<longleftrightarrow> (lf_names fs LOCK_PATH = Some i \<and> i < lf_next fs \<or> lf_names fs LOCK_PATH = None \<and> i = lf_next fs) \<and>
     lf_holder fs i = None"

lemma start_acts_serve:
  assumes "lk_phase s d = Starting" and "free_lock i (lk_fs s)"
  shows "\<exists>s'. lock_acts (start_acts d) s = Some s' \<and> lk_phase s' = (lk_phase s)(d := Serving i) \<and>
    lf_names (lk_fs s') LOCK_PATH = Some i \<and> lf_holder (lk_fs s') = (lf_holder (lk_fs s))(i \<mapsto> d) \<and> i < lf_next (lk_fs s')"
proof -
  obtain fs where o: "open_create LOCK_PATH (lk_fs s) = (i, fs)" and next_fs: "i < lf_next fs"
    using assms(2) by (auto simp: free_lock_def open_create_def)
  note p = open_create_props [OF o]
  have free: "flock_error root_env i d fs = None" using assms(2) p by (simp add: flock_error_def root_env_def free_lock_def)
  obtain j fs1 where o1: "open_create PID_PATH (take_lock i d fs) = (j, fs1)" by fastforce
  have next_fs1: "lf_next fs \<le> lf_next fs1" using o1 by (auto simp: open_create_def take_lock_def split: option.splits)
  obtain fs2 where w: "write_pid root_env PID_PATH (take_lock i d fs) = (Inr (), fs2)" and next_fs2: "lf_next fs2 = lf_next fs1"
    using o1 by (simp add: write_pid_def root_env_def)
  note k = write_pid_keeps [OF w]
  have "lock_acts (start_acts d) s = Some (go d (Serving i) fs2 s)"
    using assms(1) o free w by (simp add: start_acts_def go_def root_env_def)
  then show ?thesis
    using p k next_fs next_fs1 next_fs2 by (intro exI [of _ "go d (Serving i) fs2 s"]) (simp add: go_def take_lock_def)
qed

text \<open>
  The destructor unlocks the file before it removes its name.  A daemon that starts in between locks the old file; after the removal
  a third one creates a new file and locks that: then two daemons serve at the same time, each with its own lock.
\<close>

theorem removal_admits_two_daemons:
  "\<exists>s. lock_acts (start_acts 1 @ [(root_env, 1, Unlock)] @ start_acts 2 @
        [(root_env, 1, RemovePid), (root_env, 1, RemoveLock)] @ start_acts 3) (before_start no_files) = Some s \<and>
     (\<exists>i j. lk_phase s 2 = Serving i \<and> lk_phase s 3 = Serving j \<and> i \<noteq> j \<and>
        lf_holder (lk_fs s) i = Some 2 \<and> lf_holder (lk_fs s) j = Some 3)"
proof -
  have "lk_phase (before_start no_files) 1 = Starting" "free_lock 0 (lk_fs (before_start no_files))"
    by (simp_all add: before_start_def free_lock_def no_files_def)
  from start_acts_serve [OF this] obtain s1 where s1: "lock_acts (start_acts 1) (before_start no_files) = Some s1"
      "lk_phase s1 = (\<lambda>_. Starting)(1 := Serving 0)" "lf_names (lk_fs s1) LOCK_PATH = Some 0"
      "lf_holder (lk_fs s1) = (\<lambda>_. None)(0 \<mapsto> 1)" "0 < lf_next (lk_fs s1)"
    by (auto simp: before_start_def no_files_def)
  define s2 where "s2 = go 1 Unlocked (release 1 (lk_fs s1)) s1"
  have s2: "lock_acts [(root_env, 1, Unlock)] s1 = Some s2" "lk_phase s2 = (\<lambda>_. Starting)(1 := Unlocked)"
      "lf_holder (lk_fs s2) = (\<lambda>_. None)" "free_lock 0 (lk_fs s2)"
    using s1 by (simp_all add: s2_def go_def release_def free_lock_def fun_eq_iff)
  from s2(2) have "lk_phase s2 2 = Starting" by simp
  from start_acts_serve [OF this s2(4)] obtain s3 where s3: "lock_acts (start_acts 2) s2 = Some s3"
      "lk_phase s3 = (\<lambda>_. Starting)(1 := Unlocked, 2 := Serving 0)" "lf_holder (lk_fs s3) = (\<lambda>_. None)(0 \<mapsto> 2)"
      "0 < lf_next (lk_fs s3)"
    by (auto simp: s2(2,3))
  define fs4 where "fs4 = remove_file root_env LOCK_PATH (remove_file root_env PID_PATH (lk_fs s3))"
  define s4 where "s4 = go 1 Gone fs4 s3"
  have s4: "lock_acts [(root_env, 1, RemovePid), (root_env, 1, RemoveLock)] s3 = Some s4"
      "lk_phase s4 = (\<lambda>_. Starting)(1 := Gone, 2 := Serving 0)" "lf_holder (lk_fs s4) = (\<lambda>_. None)(0 \<mapsto> 2)"
      "free_lock (lf_next (lk_fs s3)) (lk_fs s4)"
    using s3 by (simp_all add: s4_def fs4_def go_def remove_file_def root_env_def free_lock_def fun_eq_iff)
  from s4(2) have "lk_phase s4 3 = Starting" by simp
  from start_acts_serve [OF this s4(4)] obtain s5 where s5: "lock_acts (start_acts 3) s4 = Some s5"
      "lk_phase s5 = (lk_phase s4)(3 := Serving (lf_next (lk_fs s3)))"
      "lf_holder (lk_fs s5) = (lf_holder (lk_fs s4))(lf_next (lk_fs s3) \<mapsto> 3)"
    by blast
  have "lock_acts (start_acts 1 @ [(root_env, 1, Unlock)] @ start_acts 2 @
      [(root_env, 1, RemovePid), (root_env, 1, RemoveLock)] @ start_acts 3) (before_start no_files) = Some s5"
    by (simp only: lock_acts_append s1(1) s2(1) s3(1) s4(1) s5(1) option.case)
  moreover have "lk_phase s5 2 = Serving 0" "lk_phase s5 3 = Serving (lf_next (lk_fs s3))" "0 \<noteq> lf_next (lk_fs s3)"
      "lf_holder (lk_fs s5) 0 = Some 2" "lf_holder (lk_fs s5) (lf_next (lk_fs s3)) = Some 3"
    using s3(4) by (simp_all add: s5 s4)
  ultimately show ?thesis by blast
qed

section \<open>What a second start and the status query are told\<close>

lemma ascii_utf8: "list_all (\<lambda>c. byte_of c < 0x80) s \<Longrightarrow> is_utf8 s"
  unfolding is_utf8_def by (induction s) simp_all

lemma decimal_line_utf8: "is_utf8 (decimal n @ [newline])"
proof (rule ascii_utf8)
  have "list_all (\<lambda>c. byte_of c < 0x80) (decimal n)"
    by (rule list.pred_mono_strong [OF decimal_digits]) (simp add: is_digit_def)
  then show "list_all (\<lambda>c. byte_of c < 0x80) (decimal n @ [newline])" by (simp add: newline_def byte_of_def)
qed

lemma try_lock_succeeds:
  assumes "le_open e lock_path = None" "le_open e pid_path = None" "le_flock e = None" "le_write e = None"
    and "lf_holder fs = (\<lambda>_. None)"
  shows "\<exists>lock fs1. try_lock_paths e d lock_path pid_path fs = (Inr lock, fs1)"
proof -
  obtain i fs2 where o: "open_create lock_path fs = (i, fs2)" by fastforce
  obtain j fs3 where o3: "open_create pid_path (take_lock i d fs2) = (j, fs3)" by fastforce
  have "flock_error e i d fs2 = None" using open_create_props(2) [OF o] assms by (simp add: flock_error_def)
  then show ?thesis using assms o o3 by (simp add: try_lock_paths_def write_pid_def)
qed

lemma held_lock_reported:
  assumes "try_lock_paths e d lock_path pid_path fs = (Inr lock, fs1)" and "lock_path \<noteq> pid_path"
  shows "lf_names fs1 lock_path = Some (pk_lock_file lock)" "lf_holder fs1 (pk_lock_file lock) = Some d"
    "le_readable e' pid_path \<Longrightarrow> read_text e' pid_path fs1 = Some (decimal (unat (le_pid e)) @ [newline])"
proof -
  obtain i fs2 where o: "open_create lock_path fs = (i, fs2)" by fastforce
  obtain j fs3 where o3: "open_create pid_path (take_lock i d fs2) = (j, fs3)" by fastforce
  note p = open_create_props [OF o] and q = open_create_props [OF o3]
  have r: "fs1 = fs3\<lparr>lf_text := (lf_text fs3)(j := decimal (unat (le_pid e)) @ [newline])\<rparr>" "pk_lock_file lock = i"
    using assms(1) o o3 by (auto simp: try_lock_paths_def write_pid_def split: option.splits if_splits)
  show "lf_names fs1 lock_path = Some (pk_lock_file lock)" "lf_holder fs1 (pk_lock_file lock) = Some d"
    using r p q assms(2) by (auto simp: take_lock_def)
  show "le_readable e' pid_path \<Longrightarrow> read_text e' pid_path fs1 = Some (decimal (unat (le_pid e)) @ [newline])"
    using r q by (simp add: read_text_def decimal_line_utf8)
qed



text \<open>A process id that does not fit the signed type is turned into a negative argument, which \<open>kill\<close> takes as a group.\<close>

lemma huge_pid_asks_for_group: "is_process_alive (\<lambda>n. if n = - 1 then None else Some 3) (- 1)"
  by (simp add: is_process_alive_def)

text \<open>Stale files are only removed where the lock is free, and a lock that is held keeps its name.\<close>

lemma clean_stale_keeps_held:
  assumes "lf_names fs (pp_lock_path c) = Some i" and "lf_holder fs i = Some d" and "d \<noteq> me"
  shows "clean_stale e me c fs = fs"
  using assms by (auto simp: clean_stale_def flock_error_def split: option.splits)

end
