(* ===== verification/Spec2Isabelle.thy ===== *)
theory Spec2Isabelle
  imports Prelude Paths Domain_Types Domain_Entities Job_State Config_Pipeline Safety_Gate Policy Planner
    Authorization Rate_Limiter Resource_Manager Safe_Fs Verifier Store Executor Recovery Scanner Scheduling
    Cancel_Token Texts Platform Catalog Ipc Daemon_Config Pipeline Sysfs
    Sensors Clock Idle Psi Cgroups Loop_State Proc_Metrics Daemon Event_Loop Pid_Lock
begin

text \<open>
  A verification of the cache cleaner, a daemon for Android that finds the caches of applications and removes what its policy
  permits, while the device is idle or on command.

  \<^bold>\<open>The program.\<close>  A request to clean comes from a client over a socket or from the event loop, which wakes up for timers,
  signals, kernel events, memory pressure and connections.  The daemon runs at most one cleaning thread.  A run of
  the pipeline discovers the targets, scans them, passes every candidate through the safety gate and the
  policy, builds a plan, has it authorized and executes it: each removal is preceded by a stored intent and by a check of the
  identity of the file, and followed by a verification.  After a crash the intents are compared with the disk.

  \<^bold>\<open>The theories.\<close>  File names are relative to \<open>src/src\<close>.
    \<^item> \<open>Prelude\<close>, \<open>Paths\<close>, \<open>Texts\<close>: results, words, the path and string functions of the standard library.
    \<^item> \<open>Domain_Types\<close>, \<open>Domain_Entities\<close>, \<open>Job_State\<close>: \<open>domain/*.rs\<close>, \<open>error.rs\<close>; records and enumerations, the
      transition table of an attempt with its compare-and-swap.
    \<^item> \<open>Config_Pipeline\<close>, \<open>Daemon_Config\<close>: \<open>config_pipeline/mod.rs\<close>, \<open>config.rs\<close>; ranges, defaults, the search for a file,
      reloading and saving.
    \<^item> \<open>Safety_Gate\<close>, \<open>Policy\<close>, \<open>Planner\<close>, \<open>Authorization\<close>: \<open>safety\<close>, \<open>policy\<close>, \<open>planner\<close>, \<open>auth\<close>; exact conditions of each
      decision, and plans with exactly the permitted removals in an order that respects dependencies.
    \<^item> \<open>Rate_Limiter\<close>, \<open>Resource_Manager\<close>: \<open>util/rate_limiter.rs\<close>, \<open>resource/mod.rs\<close>; the bound of the token bucket, exclusive
      target, storage and mount locks through the locale \<open>lock_table\<close>.
    \<^item> \<open>Safe_Fs\<close>, \<open>Verifier\<close>, \<open>Scanner\<close>, \<open>Executor\<close>, \<open>Recovery\<close>: \<open>fs\<close>, \<open>verifier\<close>, \<open>scanner\<close>, \<open>executor\<close>, \<open>recovery\<close> over a
      kernel given as a record of functions, with a ghost log of the calls; what may be unlinked, in which order, and what is booked.
    \<^item> \<open>Store\<close>, \<open>Scheduling\<close>: \<open>store/mod.rs\<close>, \<open>scheduler/mod.rs\<close>, \<open>worker/mod.rs\<close>; tables whose statements may fail,
      leases through the locale \<open>lease_store\<close>, admission and claiming.
    \<^item> \<open>Platform\<close>, \<open>Catalog\<close>, \<open>Pipeline\<close>: \<open>platform/users.rs\<close>, \<open>platform/encryption.rs\<close>, \<open>catalog/mod.rs\<close>, \<open>pipeline/mod.rs\<close>; users,
      discovery, and a whole run from discovery to the report.
    \<^item> \<open>Cancel_Token\<close>, \<open>Ipc\<close>: \<open>engine/cancellation.rs\<close>, \<open>ipc/*.rs\<close>; interleaved atomic steps, frames, access control and the limit
      of workers.
    \<^item> \<open>Sysfs\<close>, \<open>Sensors\<close>, \<open>Clock\<close>, \<open>Idle\<close>, \<open>Psi\<close>, \<open>Cgroups\<close>, \<open>Proc_Metrics\<close>: \<open>util/io_fast.rs\<close>, \<open>hardware/uevent.rs\<close>,
      \<open>hardware/thermal.rs\<close>, \<open>hardware/telemetry.rs\<close>, \<open>util/time.rs\<close>, \<open>system/idle\<close>, \<open>system/psi.rs\<close>, \<open>system/cgroup.rs\<close>,
      \<open>system/freezer.rs\<close>, \<open>engine/memory.rs\<close>, \<open>system/proc_metrics.rs\<close> over a state of the pseudo file systems; readings,
      parsing round trips, the idle assessment, bounded reclaim.
    \<^item> \<open>Loop_State\<close>, \<open>Daemon\<close>, \<open>Event_Loop\<close>, \<open>Pid_Lock\<close>: \<open>system/signals.rs\<close>, \<open>system/event_loop.rs\<close>,
      \<open>system/daemon_state.rs\<close>, \<open>engine/mod.rs\<close>, \<open>system/pidfile.rs\<close>; the reducer and its deadlines, commands and cleaning
      threads with the locks as a step relation, a round of the loop, the lock file with the calls of several processes interleaved.
    \<^item> This theory composes them: what a daemon unlinks over any sequence of its operations, and that it and
      its pipeline keep the same, valid configuration.

  \<^bold>\<open>Conventions.\<close>  Integers are words of the width of the source; arithmetic wraps as in a release build.  Errors are \<open>Inl\<close>, and
  \<open>Panic\<close> ends the process.  Strings are bytes.  A single-precision number is a rational, an infinity or
  not a number, so rounding is not modelled; the token bucket and processor usage are exact rationals too.  A duration is a number of
  nanoseconds, an instant an integer.  The kernel, the file systems, SQLite's failures, clocks, \<open>serde\<close>
  and \<open>toml\<close> are parameters; a theorem that needs something of them says so in a hypothesis.

  \<^bold>\<open>Bounds and fuel.\<close>  The depth limit of 16 directories of a scan and the limits of 50000 candidates,
  10000 permits, 2 MiB frames and 4 workers are those of the source.  A loop that waits takes the list of its wake-ups, and the
  event loop the list of its rounds, as an argument, so that no fuel is chosen; a theorem about waiting states which wake-ups are enough.

  \<^bold>\<open>What the properties do not say.\<close>  Several lemmas record behaviour that differs from the intention: a dry run requested
  after a real one deletes (\<open>Pipeline\<close>), a reload makes later runs fail (\<open>Pipeline\<close>), a shutdown can be lost and two reloads can
  diverge (\<open>Daemon\<close>), the removal of the lock file admits two daemons (\<open>Pid_Lock\<close>), a critical device is released before a hot one
  (\<open>Idle\<close>).  The composition below takes reloads one after the other.

  \<^bold>\<open>Not modelled.\<close>  Trimming and the F2FS switch (\<open>engine/storage.rs\<close>, \<open>hardware/f2fs.rs\<close>), the audit log and the logger are output
  or device control whose results no modelled decision uses.  Property and SELinux probes (\<open>platform/android_prop.rs\<close>,
  \<open>platform/selinux.rs\<close>, \<open>platform/privilege.rs\<close>) enter as fields of the views of the system.  The command line (\<open>cli\<close>) parses
  with \<open>clap\<close> and prints; \<open>system/watcher.rs\<close> and \<open>system/governor.rs\<close> are sequences of system calls.  Creating sockets, \<open>epoll\<close>, timer
  and signal descriptors, opening the database and its schema are calls whose answers appear as arguments.
  \<open>shadow/mod.rs\<close> compares a number with itself and is used only by its test.
\<close>

section \<open>The daemon from its commands to the disk\<close>

definition scheduled_run :: "DaemonOp list" where
  "scheduled_run = [SpawnMaintenance True, RunWorker quiet_env 5 (ScheduledWorker (maintenance_params bare_config)), StopNow]"

abbreviation start :: "(unit, unit) Proc" where
  "start \<equiv> \<lparr> world = (), openat2_supported = True, sys_log = [] \<rparr>"



text \<open>
  As long as reloads and runs follow each other, the pipeline always works with the configuration that the daemon
  reports and schedules by, and that configuration passes validation, also after a reload that failed.
\<close>

theorem daemon_config_consistent:
  assumes "pl_config (eng_pipeline (dx_engine ctx)) = dx_config ctx" and "validate (dx_config ctx) = Inr ()"
    and "daemon_ops K V ops ctx p = (Some ctx', p')"
  shows "pl_config (eng_pipeline (dx_engine ctx')) = dx_config ctx' \<and> validate (dx_config ctx') = Inr ()"
  using daemon_ops_agrees [of ctx K V ops p ctx' p'] assms by (simp add: config_agrees_def)

theorem daemon_config_consistent_witness:
  "\<exists>ctx' p'. daemon_ops closed_kernel closed_view [SpawnMaintenance True, StopNow] idle_daemon start = (Some ctx', p') \<and>
    pl_config (eng_pipeline (dx_engine ctx')) = dx_config ctx' \<and> validate (dx_config ctx') = Inr ()"
proof -
  let ?ctx' = "trigger_shutdown (spawn_maintenance_worker True idle_daemon)"
  have run: "daemon_ops closed_kernel closed_view [SpawnMaintenance True, StopNow] idle_daemon start = (Some ?ctx', start)"
    by simp
  have "pl_config (eng_pipeline (dx_engine idle_daemon)) = dx_config idle_daemon" and "validate (dx_config idle_daemon) = Inr ()"
    using idle_daemon_agrees by (simp_all add: config_agrees_def)
  from daemon_config_consistent [OF this run] run show ?thesis by blast
qed

end
